(* ===== verification/Py_Base.thy ===== *)
theory Py_Base
  imports Complex_Main
begin

text \<open>
  The prelude of the development: what the traffic simulator
  (\<^verbatim>\<open>src/New folder/dengiaothong.py\<close>) takes from the Python runtime and from its
  global \<^verbatim>\<open>CONFIG\<close> dictionary.
  \<^item> Python exceptions the engine can raise, as the datatype \<open>py_error\<close>;
  \<^item> the \<^verbatim>\<open>random\<close> module as an interface \<open>'r rng\<close>: a generator state of any
    type \<open>'r\<close> with CPython's two primitives \<^verbatim>\<open>random()\<close> and \<^verbatim>\<open>_randbelow(n)\<close>,
    on which \<^verbatim>\<open>randint\<close> and \<^verbatim>\<open>choice\<close> are built as in CPython's
    \<^verbatim>\<open>random.py\<close>; \<open>rng_ok\<close> is the contract of the primitives, and
    \<open>demo_rng\<close> a concrete generator that meets it, for witnesses;
  \<^item> Python's suffix slice \<^verbatim>\<open>xs[i:]\<close> with a possibly negative \<open>i\<close>;
  \<^item> the configuration dictionary as the record \<open>config\<close> and its value \<open>CONFIG\<close>.
\<close>

named_theorems rng_facts "facts on the values drawn from a generator that meets rng_ok"

section \<open>Python exceptions\<close>

datatype py_error =
    KeyError   \<comment> \<open>a dictionary lookup of a missing key\<close>
  | ValueError \<comment> \<open>\<^verbatim>\<open>randint(a, b)\<close> with \<open>b < a\<close>\<close>
  | NameError  \<comment> \<open>a global name read before it is bound\<close>
  | AttributeError \<comment> \<open>a method looked up on an object that does not have it\<close>

section \<open>The random module\<close>

text \<open>
  CPython draws every random value from one generator: \<^verbatim>\<open>random()\<close> gives a float
  in \<open>[0, 1)\<close>, \<^verbatim>\<open>_randbelow(n)\<close> an integer in \<open>[0, n)\<close>. The generator state is
  threaded through the model explicitly.
\<close>

record 'r rng =
  rng_random :: "'r \<Rightarrow> real \<times> 'r"
  rng_below :: "nat \<Rightarrow> 'r \<Rightarrow> nat \<times> 'r"

definition rng_ok :: "'r rng \<Rightarrow> bool" where
  "rng_ok g \<longleftrightarrow>
     (\<forall>s. 0 \<le> fst (rng_random g s) \<and> fst (rng_random g s) < 1) \<and>
     (\<forall>n s. 0 < n \<longrightarrow> fst (rng_below g n s) < n)"

text \<open>
  \<^verbatim>\<open>randint(a, b)\<close> is \<^verbatim>\<open>randrange(a, b + 1)\<close>: \<^verbatim>\<open>a + _randbelow(b + 1 - a)\<close>
  when the width is positive, \<^verbatim>\<open>ValueError\<close> otherwise. \<open>randint_in\<close> is the
  draw itself; the engine's calls with literal bounds use it directly, the call with
  configured bounds goes through the checked \<open>randint\<close>.
\<close>

definition randint_in :: "'r rng \<Rightarrow> int \<Rightarrow> int \<Rightarrow> 'r \<Rightarrow> int \<times> 'r" where
  "randint_in g a b s = (let (k, s') = rng_below g (nat (b + 1 - a)) s in (a + int k, s'))"

definition randint :: "'r rng \<Rightarrow> int \<Rightarrow> int \<Rightarrow> 'r \<Rightarrow> py_error + int \<times> 'r" where
  "randint g a b s = (if 0 < b + 1 - a then Inr (randint_in g a b s) else Inl ValueError)"

text \<open>\<^verbatim>\<open>choice(seq)\<close> is \<^verbatim>\<open>seq[_randbelow(len(seq))]\<close>.\<close>

definition py_choice :: "'r rng \<Rightarrow> 'a list \<Rightarrow> 'r \<Rightarrow> 'a \<times> 'r" where
  "py_choice g xs s = (let (k, s') = rng_below g (length xs) s in (xs ! k, s'))"

text \<open>A generator for concrete runs: a counter, read modulo the range.\<close>

definition demo_rng :: "nat rng" where
  "demo_rng =
     \<lparr>rng_random = (\<lambda>s. (real (s mod 10) / 10, Suc s)),
      rng_below = (\<lambda>n s. (s mod n, Suc s))\<rparr>"

section \<open>Slices\<close>

text \<open>\<^verbatim>\<open>xs[i:]\<close>: a negative start counts from the end and stops at the front.\<close>

definition py_suffix :: "'a list \<Rightarrow> int \<Rightarrow> 'a list" where
  "py_suffix xs i =
     drop (nat (if i < 0 then max 0 (int (length xs) + i) else i)) xs"

section \<open>Configuration\<close>

text \<open>The dictionary \<^verbatim>\<open>CONFIG\<close> (lines 14--34), one field per key.\<close>

record config =
  LANE1_MAX :: int
  LANE2_MAX :: int
  LANE3_MAX :: int
  LANE4_MAX :: int
  EMERGENCY_PROB :: real
  POLICE_PROB :: real
  FIRE_PROB :: real
  LIGHT_MIN :: int
  LIGHT_MAX :: int
  YELLOW_MIN :: int
  YELLOW_MAX :: int
  MAX_CYCLES :: int
  SCALE_FACTOR :: real
  LOG_FILE :: string
  CAR_SPEED_NORMAL :: int
  CAR_SPEED_EMERGENCY :: int
  CAR_SPEED_SLOW :: int
  MAX_CARS_PER_LANE :: int
  CAR_SPAWN_PROB :: real

definition CONFIG :: config where
  "CONFIG =
     \<lparr>LANE1_MAX = 15, LANE2_MAX = 15, LANE3_MAX = 15, LANE4_MAX = 15,
      EMERGENCY_PROB = 0.15, POLICE_PROB = 0.08, FIRE_PROB = 0.07,
      LIGHT_MIN = 8, LIGHT_MAX = 15, YELLOW_MIN = 3, YELLOW_MAX = 5,
      MAX_CYCLES = 10, SCALE_FACTOR = 1.2, LOG_FILE = ''traffic_log.txt'',
      CAR_SPEED_NORMAL = 8, CAR_SPEED_EMERGENCY = 15, CAR_SPEED_SLOW = 5,
      MAX_CARS_PER_LANE = 8, CAR_SPAWN_PROB = 0.3\<rparr>"

section \<open>Facts on the runtime\<close>

lemma rng_ok_random [rng_facts]:
  "rng_ok g \<Longrightarrow> 0 \<le> fst (rng_random g s) \<and> fst (rng_random g s) < 1"
  by (simp add: rng_ok_def)

lemma rng_ok_below [rng_facts]:
  "rng_ok g \<Longrightarrow> 0 < n \<Longrightarrow> fst (rng_below g n s) < n"
  by (simp add: rng_ok_def)

lemma randint_in_bounds [rng_facts]:
  assumes "rng_ok g" and "a \<le> b"
  shows "a \<le> fst (randint_in g a b s) \<and> fst (randint_in g a b s) \<le> b"
proof -
  obtain k s' where k: "rng_below g (nat (b + 1 - a)) s = (k, s')"
    by (cases "rng_below g (nat (b + 1 - a)) s")
  from assms have "fst (rng_below g (nat (b + 1 - a)) s) < nat (b + 1 - a)"
    by (intro rng_ok_below) auto
  with k have "int k < b + 1 - a" by simp
  with k show ?thesis by (simp add: randint_in_def)
qed

lemma randint_valid:
  "a \<le> b \<Longrightarrow> randint g a b s = Inr (randint_in g a b s)"
  by (simp add: randint_def)

lemma randint_empty:
  "b < a \<Longrightarrow> randint g a b s = Inl ValueError"
  by (simp add: randint_def)

lemma py_choice_member [rng_facts]:
  assumes "rng_ok g" and "xs \<noteq> []"
  shows "fst (py_choice g xs s) \<in> set xs"
proof -
  obtain k s' where k: "rng_below g (length xs) s = (k, s')"
    by (cases "rng_below g (length xs) s")
  from assms have "fst (rng_below g (length xs) s) < length xs"
    by (intro rng_ok_below) auto
  with k show ?thesis by (simp add: py_choice_def)
qed

lemma rng_ok_demo_rng: "rng_ok demo_rng"
  by (simp add: rng_ok_def demo_rng_def)

text \<open>A property of every element carries over a pointwise relation.\<close>

lemma list_all2_set_transfer:
  "list_all2 P xs ys \<Longrightarrow> \<forall>x\<in>set xs. Q x \<Longrightarrow> (\<And>x y. P x y \<Longrightarrow> Q x \<Longrightarrow> R y) \<Longrightarrow>
   \<forall>y\<in>set ys. R y"
  by (induction xs ys rule: list_all2_induct) auto

lemma py_suffix_neg:
  "0 < k \<Longrightarrow> py_suffix xs (- int k) = drop (length xs - k) xs"
  by (simp add: py_suffix_def nat_diff_distrib' max_def)

lemma py_suffix_zero: "py_suffix xs 0 = xs"
  by (simp add: py_suffix_def)

lemma length_py_suffix_neg:
  "0 < k \<Longrightarrow> length (py_suffix xs (- int k)) = min k (length xs)"
  by (simp add: py_suffix_neg)

end
