(* ===== verification/Traffic_Types.thy ===== *)
theory Traffic_Types
  imports Py_Base
begin

text \<open>
  The string-valued enumerations of the simulator, as datatypes with one constructor
  per string the code uses, and the maps back to the strings:
  \<^item> \<open>car_type\<close>: the keys of \<^verbatim>\<open>Car.CAR_TYPES\<close> (lines 70--77);
  \<^item> \<open>light_state\<close>: the light colours \<^verbatim>\<open>"red"\<close>, \<^verbatim>\<open>"green"\<close>,
    \<^verbatim>\<open>"yellow"\<close> (lines 127, 341--345);
  \<^item> \<open>density_level\<close>: the five density labels of \<^verbatim>\<open>scan_traffic\<close> (line 209),
    ordered from the sparsest to the densest (a \<open>linorder\<close> instance).
  The sensor's \<^verbatim>\<open>"none"\<close> priority type is \<open>None\<close> of a \<open>car_type option\<close>.
\<close>

datatype car_type = Normal | Emergency | Police | Fire | Truck | Bus

datatype light_state = Red | Green | Yellow

text \<open>
  The Vietnamese labels "rat it", "it", "trung binh", "nhieu", "rat nhieu" (written here
  without their diacritics): very few, few, medium, many, very many.
\<close>

datatype density_level = Rat_It | It | Trung_Binh | Nhieu | Rat_Nhieu

fun car_type_name :: "car_type \<Rightarrow> string" where
  "car_type_name Normal = ''normal''"
| "car_type_name Emergency = ''emergency''"
| "car_type_name Police = ''police''"
| "car_type_name Fire = ''fire''"
| "car_type_name Truck = ''truck''"
| "car_type_name Bus = ''bus''"

fun light_state_name :: "light_state \<Rightarrow> string" where
  "light_state_name Red = ''red''"
| "light_state_name Green = ''green''"
| "light_state_name Yellow = ''yellow''"

text \<open>The sensor's priority string: \<^verbatim>\<open>"none"\<close> or the type of a car.\<close>

definition priority_name :: "car_type option \<Rightarrow> string" where
  "priority_name p = (case p of None \<Rightarrow> ''none'' | Some t \<Rightarrow> car_type_name t)"

fun density_rank :: "density_level \<Rightarrow> nat" where
  "density_rank Rat_It = 0"
| "density_rank It = 1"
| "density_rank Trung_Binh = 2"
| "density_rank Nhieu = 3"
| "density_rank Rat_Nhieu = 4"

lemma density_rank_inj: "density_rank a = density_rank b \<Longrightarrow> a = b"
  by (cases a; cases b) simp_all

instantiation density_level :: linorder
begin

definition less_eq_density_level :: "density_level \<Rightarrow> density_level \<Rightarrow> bool" where
  "less_eq_density_level a b \<longleftrightarrow> density_rank a \<le> density_rank b"

definition less_density_level :: "density_level \<Rightarrow> density_level \<Rightarrow> bool" where
  "less_density_level a b \<longleftrightarrow> density_rank a < density_rank b"

instance
proof
  fix a b c :: density_level
  show "(a < b) = (a \<le> b \<and> \<not> b \<le> a)"
    by (auto simp: less_eq_density_level_def less_density_level_def)
  show "a \<le> a" by (simp add: less_eq_density_level_def)
  show "a \<le> b \<Longrightarrow> b \<le> c \<Longrightarrow> a \<le> c"
    by (simp add: less_eq_density_level_def)
  show "a \<le> b \<Longrightarrow> b \<le> a \<Longrightarrow> a = b"
    by (simp add: less_eq_density_level_def density_rank_inj)
  show "a \<le> b \<or> b \<le> a"
    by (auto simp: less_eq_density_level_def)
qed

end

text \<open>The names are distinct, so the strings the snapshot carries determine the values.\<close>

lemma car_type_name_inj: "car_type_name a = car_type_name b \<longleftrightarrow> a = b"
  by (cases a; cases b) simp_all

lemma light_state_name_inj: "light_state_name a = light_state_name b \<longleftrightarrow> a = b"
  by (cases a; cases b) simp_all

lemma priority_name_none_iff: "priority_name p = ''none'' \<longleftrightarrow> p = None"
proof (cases p)
  case (Some t)
  then show ?thesis by (cases t) (simp_all add: priority_name_def)
qed (simp add: priority_name_def)

end
