(* ===== verification/Logger.thy ===== *)
theory Logger
  imports Traffic_Types
begin

text \<open>
  The logger \<^verbatim>\<open>TrafficLogger\<close> (lines 41--64), a single global instance
  \<^verbatim>\<open>logger\<close> that every component writes to. Its state is the list of entries
  kept in memory (\<^verbatim>\<open>self.entries\<close>); printing is output only, and the
  append of each line to the log file is an event of the \<open>Server\<close> theory. An entry is kept structured: the clock reading of
  \<^verbatim>\<open>datetime.now()\<close> (rendered \<^verbatim>\<open>[HH:MM:SS]\<close> by the code), the level, and the
  message as a value of \<open>log_msg\<close>, one constructor per call site of
  \<^verbatim>\<open>logger.log\<close> carrying the values the f-string interpolates. \<open>log_text\<close>
  renders an entry as the line the code stores, \<open>[HH:MM:SS] [LEVEL] message\<close>, and
  \<open>hms_roundtrip\<close> shows that its time stamp reads back.
\<close>

datatype log_level = INFO | CYCLE | PRIORITY | SYSTEM | ERROR

datatype log_msg =
    Msg_light_set light_state int           \<comment> \<open>line 140\<close>
  | Msg_priority_on car_type int            \<comment> \<open>line 153\<close>
  | Msg_priority_off                        \<comment> \<open>line 159\<close>
  | Msg_scan "nat list" nat density_level "car_type option"  \<comment> \<open>lines 211--212\<close>
  | Msg_decision_priority int int           \<comment> \<open>line 243\<close>
  | Msg_decision int int int                \<comment> \<open>line 265\<close>
  | Msg_cycle_start nat                     \<comment> \<open>line 326\<close>
  | Msg_phase_end light_state nat           \<comment> \<open>line 366\<close>
  | Msg_sim_start                           \<comment> \<open>line 873\<close>
  | Msg_sim_done nat                        \<comment> \<open>lines 883--884\<close>
  | Msg_sim_error py_error                  \<comment> \<open>line 887\<close>

record log_entry =
  stamp :: real
  level :: log_level
  message :: log_msg

record traffic_logger =
  log_file :: string
  entries :: "log_entry list"

definition new_logger :: "string \<Rightarrow> traffic_logger" where
  "new_logger f = \<lparr>log_file = f, entries = []\<rparr>"

text \<open>\<^verbatim>\<open>log(message, level)\<close> at clock reading \<open>now\<close>: one entry appended.\<close>

definition logger_log :: "real \<Rightarrow> log_msg \<Rightarrow> log_level \<Rightarrow> traffic_logger \<Rightarrow> traffic_logger" where
  "logger_log now msg lvl lg =
     lg\<lparr>entries := entries lg @ [\<lparr>stamp = now, level = lvl, message = msg\<rparr>]\<rparr>"

text \<open>\<^verbatim>\<open>get_recent_logs(count)\<close>: \<^verbatim>\<open>self.entries[-count:] if self.entries else []\<close>.\<close>

definition get_recent_logs :: "nat \<Rightarrow> traffic_logger \<Rightarrow> log_entry list" where
  "get_recent_logs count lg =
     (if entries lg \<noteq> [] then py_suffix (entries lg) (- int count) else [])"

text \<open>
  The text of an entry (lines 47--48): \<^verbatim>\<open>f"[{timestamp}] [{level}] {message}"\<close> with the
  time of day as \<^verbatim>\<open>strftime("%H:%M:%S")\<close>. \<open>log_text tz txt e\<close> is that string for
  the entry \<open>e\<close>, where \<open>tz\<close> is the offset of local time from the clock in seconds
  and \<open>txt\<close> renders a message (its Vietnamese wording is not modelled).
\<close>

fun level_name :: "log_level \<Rightarrow> string" where
  "level_name INFO = ''INFO''"
| "level_name CYCLE = ''CYCLE''"
| "level_name PRIORITY = ''PRIORITY''"
| "level_name SYSTEM = ''SYSTEM''"
| "level_name ERROR = ''ERROR''"

definition two_digits :: "nat \<Rightarrow> string" where
  "two_digits n = [char_of (48 + n div 10), char_of (48 + n mod 10)]"

definition hms :: "nat \<Rightarrow> string" where
  "hms secs =
     (let d = secs mod 86400
      in two_digits (d div 3600) @ '':'' @ two_digits (d mod 3600 div 60) @ '':'' @ two_digits (d mod 60))"

definition format_log_line :: "string \<Rightarrow> string \<Rightarrow> string \<Rightarrow> string" where
  "format_log_line timestamp lvl msg = ''['' @ timestamp @ ''] ['' @ lvl @ ''] '' @ msg"

definition log_text :: "int \<Rightarrow> (log_msg \<Rightarrow> string) \<Rightarrow> log_entry \<Rightarrow> string" where
  "log_text tz txt e =
     format_log_line (hms (nat ((\<lfloor>stamp e\<rfloor> + tz) mod 86400))) (level_name (level e)) (txt (message e))"

text \<open>Reading a time stamp back: two decimal digits, and \<open>HH:MM:SS\<close>.\<close>

definition digit_val :: "char \<Rightarrow> nat option" where
  "digit_val c = (let k = (of_char c :: nat) in if 48 \<le> k \<and> k < 58 then Some (k - 48) else None)"

fun parse_two :: "string \<Rightarrow> nat option" where
  "parse_two [a, b] =
     (case (digit_val a, digit_val b) of (Some x, Some y) \<Rightarrow> Some (10 * x + y) | _ \<Rightarrow> None)"
| "parse_two _ = None"

definition parse_hms :: "string \<Rightarrow> nat option" where
  "parse_hms s =
     (if length s = 8 \<and> s ! 2 = CHR '':'' \<and> s ! 5 = CHR '':''
      then (case (parse_two (take 2 s), parse_two (take 2 (drop 3 s)), parse_two (drop 6 s)) of
              (Some h, Some m, Some x) \<Rightarrow> if h < 24 \<and> m < 60 \<and> x < 60 then Some (3600 * h + 60 * m + x) else None
            | _ \<Rightarrow> None)
      else None)"

section \<open>Properties\<close>

lemma entries_logger_log [simp]:
  "entries (logger_log now msg lvl lg) = entries lg @ [\<lparr>stamp = now, level = lvl, message = msg\<rparr>]"
  by (simp add: logger_log_def)

lemma log_file_logger_log [simp]: "log_file (logger_log now msg lvl lg) = log_file lg"
  by (simp add: logger_log_def)

lemma get_recent_logs_drop:
  "0 < count \<Longrightarrow> get_recent_logs count lg = drop (length (entries lg) - count) (entries lg)"
  by (simp add: get_recent_logs_def py_suffix_neg)

text \<open>
  C35: For a positive count the recent entries are the newest \<open>count\<close> ones, in order.
\<close>

theorem get_recent_logs_suffix:
  "0 < count \<Longrightarrow> get_recent_logs count lg = drop (length (entries lg) - count) (entries lg)"
  by (rule get_recent_logs_drop)

theorem get_recent_logs_suffix_witness:
  "get_recent_logs 2 (logger_log 2 Msg_sim_start SYSTEM (logger_log 1 (Msg_cycle_start 1) CYCLE
     (logger_log 0 Msg_sim_start SYSTEM (new_logger ''traffic_log.txt'')))) =
   [\<lparr>stamp = 1, level = CYCLE, message = Msg_cycle_start 1\<rparr>,
    \<lparr>stamp = 2, level = SYSTEM, message = Msg_sim_start\<rparr>]"
  using get_recent_logs_suffix[of 2] by (simp add: new_logger_def)

text \<open>For a count of 0 the slice \<^verbatim>\<open>entries[-0:]\<close> is the whole list.\<close>

theorem get_recent_logs_zero: "get_recent_logs 0 lg = entries lg"
  by (simp add: get_recent_logs_def py_suffix_zero)

lemma length_get_recent_logs:
  "0 < count \<Longrightarrow> length (get_recent_logs count lg) = min count (length (entries lg))"
  by (simp add: get_recent_logs_drop)

text \<open>The entry just logged is the last of the recent entries: newest last.\<close>

theorem get_recent_logs_newest_last:
  "0 < count \<Longrightarrow>
   last (get_recent_logs count (logger_log now msg lvl lg)) = \<lparr>stamp = now, level = lvl, message = msg\<rparr>"
proof -
  assume c: "0 < count"
  let ?xs = "entries lg @ [\<lparr>stamp = now, level = lvl, message = msg\<rparr>]"
  have "length ?xs - count < length ?xs" using c by simp
  then have "last (drop (length ?xs - count) ?xs) = last ?xs"
    by (simp add: last_drop)
  with c show ?thesis by (simp add: get_recent_logs_drop)
qed

theorem get_recent_logs_newest_last_witness:
  "last (get_recent_logs 10 (logger_log 3 (Msg_cycle_start 2) CYCLE (new_logger ''traffic_log.txt''))) =
   \<lparr>stamp = 3, level = CYCLE, message = Msg_cycle_start 2\<rparr>"
  by (rule get_recent_logs_newest_last) simp

lemma digit_val_char [simp]: "k < 10 \<Longrightarrow> digit_val (char_of (48 + k)) = Some k"
  by (simp add: digit_val_def of_char_of Let_def)

lemma parse_two_digits [simp]: "n < 100 \<Longrightarrow> parse_two (two_digits n) = Some n"
  by (simp add: two_digits_def)

lemma length_two_digits [simp]: "length (two_digits n) = 2"
  by (simp add: two_digits_def)

lemma length_hms [simp]: "length (hms n) = 8"
  by (simp add: hms_def Let_def)

text \<open>
  C26: The time stamp of a log line is a well-formed HH:MM:SS that reads back as the
  second of the day it was written at.
\<close>

theorem hms_roundtrip: "parse_hms (hms n) = Some (n mod 86400)"
proof -
  let ?d = "n mod 86400"
  have h: "?d div 3600 < 24" and m: "?d mod 3600 div 60 < 60" and s: "?d mod 60 < 60"
    by (simp_all add: less_mult_imp_div_less)
  have e: "3600 * (?d div 3600) + 60 * (?d mod 3600 div 60) + ?d mod 60 = ?d"
  proof -
    have a: "?d = 3600 * (?d div 3600) + ?d mod 3600" by simp
    have b: "?d mod 3600 = 60 * (?d mod 3600 div 60) + ?d mod 3600 mod 60" by simp
    have c: "?d mod 3600 mod 60 = ?d mod 60" by (rule mod_mod_cancel) simp
    from a b c show ?thesis by linarith
  qed
  have p: "parse_two (two_digits (?d div 3600)) = Some (?d div 3600)"
          "parse_two (two_digits (?d mod 3600 div 60)) = Some (?d mod 3600 div 60)"
          "parse_two (two_digits (?d mod 60)) = Some (?d mod 60)"
    using h m s by (simp_all add: parse_two_digits)
  show ?thesis
    using h m s e p by (simp add: parse_hms_def hms_def Let_def nth_append del: parse_two_digits)
qed

end
