(* ===== verification/Light.thy ===== *)
theory Light
  imports Logger
begin

text \<open>
  The signal, class \<^verbatim>\<open>SmartTrafficLight\<close> (lines 125--165). Every method that
  reads \<^verbatim>\<open>time.time()\<close> takes the reading \<open>now\<close> as an argument; every method
  that calls the global \<^verbatim>\<open>logger\<close> takes and returns the logger with the light.
  \<open>light_op\<close> names the methods that change the light, \<open>light_apply\<close> runs one
  of them, and \<open>light_reach\<close> is the set of lights that some sequence of method
  calls (at any clock readings) produces from a fresh light: the invariants of the
  class are proved over it by rule induction.
\<close>

record smart_traffic_light =
  state :: light_state
  timer :: int
  start_time :: real
  priority_active :: bool
  priority_type :: "car_type option"
  priority_end_time :: real
  cycle_count :: nat
  total_vehicles_passed :: nat

definition SmartTrafficLight_init :: "real \<Rightarrow> smart_traffic_light" where
  "SmartTrafficLight_init now =
     \<lparr>state = Red, timer = 0, start_time = now, priority_active = False,
      priority_type = None, priority_end_time = 0, cycle_count = 0,
      total_vehicles_passed = 0\<rparr>"

definition set_state ::
  "real \<Rightarrow> light_state \<Rightarrow> int \<Rightarrow> smart_traffic_light \<Rightarrow> traffic_logger \<Rightarrow>
   smart_traffic_light \<times> traffic_logger" where
  "set_state now st dur l lg =
     (l\<lparr>state := st, timer := dur, start_time := now\<rparr>,
      logger_log now (Msg_light_set st dur) INFO lg)"

definition time_left :: "real \<Rightarrow> smart_traffic_light \<Rightarrow> real" where
  "time_left now l = max 0 (of_int (timer l) - (now - start_time l))"

definition is_done :: "real \<Rightarrow> smart_traffic_light \<Rightarrow> bool" where
  "is_done now l \<longleftrightarrow> time_left now l \<le> 0"

definition activate_priority ::
  "real \<Rightarrow> car_type \<Rightarrow> int \<Rightarrow> smart_traffic_light \<Rightarrow> traffic_logger \<Rightarrow>
   smart_traffic_light \<times> traffic_logger" where
  "activate_priority now ty dur l lg =
     (l\<lparr>priority_active := True, priority_type := Some ty,
        priority_end_time := now + of_int dur\<rparr>,
      logger_log now (Msg_priority_on ty dur) PRIORITY lg)"

definition update_priority ::
  "real \<Rightarrow> smart_traffic_light \<Rightarrow> traffic_logger \<Rightarrow> smart_traffic_light \<times> traffic_logger" where
  "update_priority now l lg =
     (if priority_active l \<and> priority_end_time l < now
      then (l\<lparr>priority_active := False, priority_type := None\<rparr>,
            logger_log now Msg_priority_off PRIORITY lg)
      else (l, lg))"

definition increment_cycle :: "smart_traffic_light \<Rightarrow> smart_traffic_light" where
  "increment_cycle l = l\<lparr>cycle_count := cycle_count l + 1\<rparr>"

definition vehicle_passed :: "smart_traffic_light \<Rightarrow> smart_traffic_light" where
  "vehicle_passed l = l\<lparr>total_vehicles_passed := total_vehicles_passed l + 1\<rparr>"

section \<open>The light as a state machine\<close>

datatype light_op =
    Op_set_state light_state int
  | Op_activate_priority car_type int
  | Op_update_priority
  | Op_increment_cycle
  | Op_vehicle_passed

fun light_apply ::
  "real \<Rightarrow> light_op \<Rightarrow> smart_traffic_light \<Rightarrow> traffic_logger \<Rightarrow>
   smart_traffic_light \<times> traffic_logger" where
  "light_apply now (Op_set_state st d) l lg = set_state now st d l lg"
| "light_apply now (Op_activate_priority ty d) l lg = activate_priority now ty d l lg"
| "light_apply now Op_update_priority l lg = update_priority now l lg"
| "light_apply now Op_increment_cycle l lg = (increment_cycle l, lg)"
| "light_apply now Op_vehicle_passed l lg = (vehicle_passed l, lg)"

inductive light_reach :: "smart_traffic_light \<Rightarrow> bool" where
  init: "light_reach (SmartTrafficLight_init now)"
| step: "light_reach l \<Longrightarrow> light_reach (fst (light_apply now op l lg))"

text \<open>The class invariant: a priority type is recorded exactly while a window is open.\<close>

definition light_inv :: "smart_traffic_light \<Rightarrow> bool" where
  "light_inv l \<longleftrightarrow> (priority_active l \<longleftrightarrow> priority_type l \<noteq> None)"

section \<open>Facts on the methods\<close>

lemma set_state_fields [simp]:
  "state (fst (set_state now st d l lg)) = st"
  "timer (fst (set_state now st d l lg)) = d"
  "start_time (fst (set_state now st d l lg)) = now"
  "priority_active (fst (set_state now st d l lg)) = priority_active l"
  "priority_type (fst (set_state now st d l lg)) = priority_type l"
  "priority_end_time (fst (set_state now st d l lg)) = priority_end_time l"
  "cycle_count (fst (set_state now st d l lg)) = cycle_count l"
  "total_vehicles_passed (fst (set_state now st d l lg)) = total_vehicles_passed l"
  by (simp_all add: set_state_def)

lemma update_priority_frame [simp]:
  "state (fst (update_priority now l lg)) = state l"
  "timer (fst (update_priority now l lg)) = timer l"
  "start_time (fst (update_priority now l lg)) = start_time l"
  "priority_end_time (fst (update_priority now l lg)) = priority_end_time l"
  "cycle_count (fst (update_priority now l lg)) = cycle_count l"
  "total_vehicles_passed (fst (update_priority now l lg)) = total_vehicles_passed l"
  by (simp_all add: update_priority_def)

lemma activate_priority_frame [simp]:
  "state (fst (activate_priority now ty d l lg)) = state l"
  "timer (fst (activate_priority now ty d l lg)) = timer l"
  "start_time (fst (activate_priority now ty d l lg)) = start_time l"
  "cycle_count (fst (activate_priority now ty d l lg)) = cycle_count l"
  "total_vehicles_passed (fst (activate_priority now ty d l lg)) = total_vehicles_passed l"
  by (simp_all add: activate_priority_def)

lemma light_inv_init: "light_inv (SmartTrafficLight_init now)"
  by (simp add: light_inv_def SmartTrafficLight_init_def)

lemma light_apply_inv: "light_inv l \<Longrightarrow> light_inv (fst (light_apply now op l lg))"
  by (cases op)
    (auto simp: light_inv_def set_state_def activate_priority_def update_priority_def
                increment_cycle_def vehicle_passed_def)

text \<open>The counters never go down.\<close>

lemma light_apply_counters:
  "cycle_count l \<le> cycle_count (fst (light_apply now op l lg)) \<and>
   total_vehicles_passed l \<le> total_vehicles_passed (fst (light_apply now op l lg))"
  by (cases op) (simp_all add: increment_cycle_def vehicle_passed_def)

text \<open>\<open>time_left\<close> is a countdown that stays within \<open>[0, timer]\<close>.\<close>

lemma time_left_nonneg: "0 \<le> time_left now l"
  by (simp add: time_left_def)

lemma time_left_le_timer:
  "start_time l \<le> now \<Longrightarrow> 0 \<le> timer l \<Longrightarrow> time_left now l \<le> of_int (timer l)"
  by (simp add: time_left_def)

lemma time_left_antimono:
  "now \<le> now' \<Longrightarrow> time_left now' l \<le> time_left now l"
  by (simp add: time_left_def)

lemma is_done_iff: "is_done now l \<longleftrightarrow> of_int (timer l) \<le> now - start_time l"
  by (auto simp: is_done_def time_left_def)

section \<open>Properties of the light\<close>

text \<open>
  C15: In every light that a sequence of method calls produces from a fresh light, a
  priority type is recorded exactly while the priority window is active.
\<close>

theorem light_reach_inv: "light_reach l \<Longrightarrow> light_inv l"
proof (induction rule: light_reach.induct)
  case (init now)
  then show ?case by (rule light_inv_init)
next
  case (step l now op lg)
  from step.IH show ?case by (rule light_apply_inv)
qed

theorem light_reach_inv_witness:
  "light_inv (fst (light_apply 1 (Op_activate_priority Police 12) (SmartTrafficLight_init 0)
                     (new_logger ''traffic_log.txt'')))"
proof -
  have "light_reach (fst (light_apply 1 (Op_activate_priority Police 12) (SmartTrafficLight_init 0)
                     (new_logger ''traffic_log.txt'')))"
    by (intro light_reach.step light_reach.init)
  then show ?thesis by (rule light_reach_inv)
qed

text \<open>
  C19: A priority request overwrites the window instead of stacking: after
  \<^verbatim>\<open>activate_priority\<close> at time t0 for d seconds, a later \<^verbatim>\<open>update_priority\<close> at
  time t leaves the window open exactly when t is at most t0 + d, whatever window was
  open before.
\<close>

theorem priority_window_overwrites:
  "priority_active (fst (update_priority t (fst (activate_priority t0 ty d l lg)) lg')) \<longleftrightarrow>
   t \<le> t0 + of_int d"
  by (auto simp: update_priority_def activate_priority_def)

end
