(* ===== verification/Car.thy ===== *)
theory Car
  imports Traffic_Types
begin

text \<open>
  The vehicle, class \<^verbatim>\<open>Car\<close> (lines 69--120). A car is a record with the fields
  \<^verbatim>\<open>__init__\<close> sets (\<^verbatim>\<open>type\<close> is the field \<open>ctype\<close>); the class table
  \<^verbatim>\<open>CAR_TYPES\<close> is a closed match on \<open>car_type\<close>. Positions are Python numbers
  that start as integers and become floats after a yellow or red step; they are
  \<open>real\<close> here, so the model computes \<^verbatim>\<open>speed * 0.7\<close> exactly where the code
  rounds to the nearest double. The two random draws of the class (the start
  position, the respawn position) come from the generator interface of \<open>Py_Base\<close>.
  \<open>drive\<close> is the movement of \<^verbatim>\<open>move\<close> (lines 90--105), \<open>move\<close> the whole
  method with the respawn at the exit boundary (lines 107--111).
\<close>

record car_info =
  info_emoji :: string
  info_speed :: int
  info_priority :: nat

text \<open>The emoji are written by their Unicode names.\<close>

fun CAR_TYPES :: "config \<Rightarrow> car_type \<Rightarrow> car_info" where
  "CAR_TYPES cfg Normal =
     \<lparr>info_emoji = ''AUTOMOBILE'', info_speed = CAR_SPEED_NORMAL cfg, info_priority = 0\<rparr>"
| "CAR_TYPES cfg Emergency =
     \<lparr>info_emoji = ''AMBULANCE'', info_speed = CAR_SPEED_EMERGENCY cfg, info_priority = 3\<rparr>"
| "CAR_TYPES cfg Police =
     \<lparr>info_emoji = ''POLICE CAR'', info_speed = CAR_SPEED_EMERGENCY cfg, info_priority = 2\<rparr>"
| "CAR_TYPES cfg Fire =
     \<lparr>info_emoji = ''FIRE ENGINE'', info_speed = CAR_SPEED_EMERGENCY cfg, info_priority = 1\<rparr>"
| "CAR_TYPES cfg Truck =
     \<lparr>info_emoji = ''DELIVERY TRUCK'', info_speed = CAR_SPEED_SLOW cfg, info_priority = 0\<rparr>"
| "CAR_TYPES cfg Bus =
     \<lparr>info_emoji = ''BUS'', info_speed = CAR_SPEED_SLOW cfg, info_priority = 0\<rparr>"

text \<open>The table of the second copy (lines 968--975): the normal car is drawn as an
  oncoming automobile; the other entries are those of the first copy.\<close>

fun CAR_TYPES_v2 :: "config \<Rightarrow> car_type \<Rightarrow> car_info" where
  "CAR_TYPES_v2 cfg Normal =
     \<lparr>info_emoji = ''ONCOMING AUTOMOBILE'', info_speed = CAR_SPEED_NORMAL cfg, info_priority = 0\<rparr>"
| "CAR_TYPES_v2 cfg t = CAR_TYPES cfg t"

record car =
  lane :: int
  ctype :: car_type
  position :: real
  speed :: int
  priority :: nat
  emoji :: string
  waiting_time :: nat
  passed :: bool

text \<open>\<^verbatim>\<open>Car(lane, car_type)\<close>: the start position is \<^verbatim>\<open>randint(-100, -20)\<close>;
  \<open>types\<close> is the class table of the copy that builds the car.\<close>

definition Car_init :: "(car_type \<Rightarrow> car_info) \<Rightarrow> 'r rng \<Rightarrow> int \<Rightarrow> car_type \<Rightarrow> 'r \<Rightarrow> car \<times> 'r" where
  "Car_init types g l ty s =
     (let (p, s') = randint_in g (-100) (-20) s;
          info = types ty
      in (\<lparr>lane = l, ctype = ty, position = of_int p, speed = info_speed info,
           priority = info_priority info, emoji = info_emoji info,
           waiting_time = 0, passed = False\<rparr>, s'))"

text \<open>
  One step of \<^verbatim>\<open>move(light_state, priority_active)\<close> before the exit check. The
  red branch counts a waiting tick whether or not the car is past the stop line at 350.
\<close>

definition drive :: "light_state \<Rightarrow> bool \<Rightarrow> car \<Rightarrow> car" where
  "drive ls pa c =
     (if 0 < priority c \<and> pa then c\<lparr>position := position c + of_int (speed c + 5)\<rparr>
      else (case ls of
        Green \<Rightarrow> c\<lparr>position := position c + of_int (speed c)\<rparr>
      | Yellow \<Rightarrow> c\<lparr>position := position c + of_int (speed c) * 0.7\<rparr>
      | Red \<Rightarrow>
          (let c' = c\<lparr>waiting_time := waiting_time c + 1\<rparr>
           in if position c < 350 then c'\<lparr>position := position c + 0\<rparr>
              else c'\<lparr>position := position c + of_int (speed c) * 0.3\<rparr>)))"

text \<open>The whole method: past 900 the car respawns at \<^verbatim>\<open>randint(-200, -50)\<close>.\<close>

definition move :: "'r rng \<Rightarrow> light_state \<Rightarrow> bool \<Rightarrow> car \<Rightarrow> 'r \<Rightarrow> car \<times> 'r" where
  "move g ls pa c s =
     (let c1 = drive ls pa c
      in if 900 < position c1
         then (let (p, s') = randint_in g (-200) (-50) s
               in (c1\<lparr>position := of_int p, passed := True, waiting_time := 0\<rparr>, s'))
         else (c1, s))"

record display_info =
  d_lane :: int
  d_type :: string
  d_position :: real
  d_emoji :: string
  d_waiting_time :: nat

definition get_display_info :: "car \<Rightarrow> display_info" where
  "get_display_info c =
     \<lparr>d_lane = lane c, d_type = car_type_name (ctype c), d_position = position c,
      d_emoji = emoji c, d_waiting_time = waiting_time c\<rparr>"

text \<open>A car for concrete runs: an ambulance built by \<open>Car_init\<close> under \<open>CONFIG\<close>.\<close>

definition demo_ambulance :: car where
  "demo_ambulance = fst (Car_init (CAR_TYPES CONFIG) demo_rng 2 Emergency 7)"

section \<open>Facts on a single step\<close>

lemma demo_ambulance_eq:
  "demo_ambulance =
     \<lparr>lane = 2, ctype = Emergency, position = -93, speed = 15, priority = 3,
      emoji = ''AMBULANCE'', waiting_time = 0, passed = False\<rparr>"
  by (simp add: demo_ambulance_def Car_init_def randint_in_def demo_rng_def CONFIG_def)

text \<open>The cases of \<open>drive\<close>, one per branch of the code.\<close>

lemma drive_priority:
  "0 < priority c \<Longrightarrow> drive ls True c = c\<lparr>position := position c + of_int (speed c + 5)\<rparr>"
  by (simp add: drive_def)

lemma drive_no_priority:
  assumes "\<not> (0 < priority c \<and> pa)"
  shows "drive Green pa c = c\<lparr>position := position c + of_int (speed c)\<rparr>"
    and "drive Yellow pa c = c\<lparr>position := position c + of_int (speed c) * 0.7\<rparr>"
    and "drive Red pa c =
           (if position c < 350 then c\<lparr>waiting_time := waiting_time c + 1\<rparr>
            else c\<lparr>waiting_time := waiting_time c + 1,
                   position := position c + of_int (speed c) * 0.3\<rparr>)"
  using assms by (auto simp: drive_def)

lemma drive_frame [simp]:
  "lane (drive ls pa c) = lane c" "ctype (drive ls pa c) = ctype c"
  "speed (drive ls pa c) = speed c" "priority (drive ls pa c) = priority c"
  "emoji (drive ls pa c) = emoji c" "passed (drive ls pa c) = passed c"
  by (simp_all add: drive_def Let_def split: light_state.split)

lemma move_frame [simp]:
  "lane (fst (move g ls pa c s)) = lane c" "ctype (fst (move g ls pa c s)) = ctype c"
  "speed (fst (move g ls pa c s)) = speed c" "priority (fst (move g ls pa c s)) = priority c"
  "emoji (fst (move g ls pa c s)) = emoji c"
  by (simp_all add: move_def Let_def split: prod.split)

text \<open>Below the exit boundary \<open>move\<close> is \<open>drive\<close> and draws nothing.\<close>

lemma move_stay:
  "position (drive ls pa c) \<le> 900 \<Longrightarrow> move g ls pa c s = (drive ls pa c, s)"
  by (simp add: move_def)

lemma move_exit:
  "900 < position (drive ls pa c) \<Longrightarrow>
   move g ls pa c s =
     (drive ls pa c\<lparr>position := of_int (fst (randint_in g (-200) (-50) s)), passed := True,
                     waiting_time := 0\<rparr>, snd (randint_in g (-200) (-50) s))"
  by (simp add: move_def split: prod.split)

text \<open>A step moves a car forward by at most its boosted speed.\<close>

lemma drive_position_bounds:
  assumes "0 \<le> speed c"
  shows "position c \<le> position (drive ls pa c) \<and>
         position (drive ls pa c) \<le> position c + of_int (speed c + 5)"
  using assms by (auto simp: drive_def Let_def split: light_state.split)

text \<open>\<open>passed\<close> is never reset: a step keeps it or sets it.\<close>

lemma move_passed_mono: "passed c \<Longrightarrow> passed (fst (move g ls pa c s))"
  by (simp add: move_def Let_def split: prod.split)

text \<open>
  A car at or before 800 whose speed is at most 95 cannot reach past 900 in one step, so
  \<open>move\<close> does not respawn it and does not mark it passed.
\<close>

lemma move_no_jump:
  assumes "position c \<le> 800" and "0 \<le> speed c" and "speed c \<le> 95"
  shows "move g ls pa c s = (drive ls pa c, s)"
proof -
  from drive_position_bounds[OF assms(2), of ls pa] assms(1,3)
  have "position (drive ls pa c) \<le> 900" by linarith
  then show ?thesis by (rule move_stay)
qed

section \<open>Properties of a step\<close>

text \<open>
  C11: While a priority window is open, a car of positive priority moves forward by its
  speed plus 5 on any light, as long as it stays within the exit boundary.
\<close>

theorem move_priority_advances:
  assumes "0 < priority c" and "0 \<le> speed c"
    and "position c + of_int (speed c + 5) \<le> 900"
  shows "fst (move g ls True c s) = c\<lparr>position := position c + of_int (speed c + 5)\<rparr> \<and>
         position c < position (fst (move g ls True c s))"
  using assms by (simp add: move_stay drive_priority)

theorem move_priority_advances_witness:
  "fst (move demo_rng Red True demo_ambulance 0) = demo_ambulance\<lparr>position := -73\<rparr> \<and>
   position demo_ambulance < position (fst (move demo_rng Red True demo_ambulance 0))"
  using move_priority_advances[of demo_ambulance demo_rng Red 0]
  by (simp add: demo_ambulance_eq)

text \<open>
  C23: Past the exit boundary every car, priority cars included, is sent back upstream to a
  position in [-200, -50], marked passed, with its waiting time reset: a priority car's
  position does not increase on the step that takes it out.
\<close>

theorem move_exit_respawns:
  assumes "rng_ok g" and "900 < position (drive ls pa c)"
  shows "-200 \<le> position (fst (move g ls pa c s)) \<and> position (fst (move g ls pa c s)) \<le> -50 \<and>
         passed (fst (move g ls pa c s)) \<and> waiting_time (fst (move g ls pa c s)) = 0"
  using assms randint_in_bounds[OF assms(1), of "-200" "-50" s] by (simp add: move_exit)

theorem move_exit_respawns_witness:
  "position (fst (move demo_rng Green True (demo_ambulance\<lparr>position := 890\<rparr>) 4)) = -196 \<and>
   passed (fst (move demo_rng Green True (demo_ambulance\<lparr>position := 890\<rparr>) 4)) \<and>
   waiting_time (fst (move demo_rng Green True (demo_ambulance\<lparr>position := 890\<rparr>) 4)) = 0"
proof -
  have "900 < position (drive Green True (demo_ambulance\<lparr>position := 890\<rparr>))"
    by (simp add: demo_ambulance_eq drive_def)
  with move_exit_respawns[OF rng_ok_demo_rng this, of 4] show ?thesis
    by (simp add: move_exit randint_in_def demo_rng_def)
qed

text \<open>
  C12: On red, a car that is not boosted and is before the stop line at 350 does not move;
  its waiting time grows by one and nothing is drawn from the generator.
\<close>

theorem move_red_stops:
  assumes "\<not> (0 < priority c \<and> pa)" and "position c < 350"
  shows "move g Red pa c s = (c\<lparr>waiting_time := waiting_time c + 1\<rparr>, s)"
  using assms by (simp add: move_stay drive_no_priority)

theorem move_red_stops_witness:
  "move demo_rng Red False demo_ambulance 3 = (demo_ambulance\<lparr>waiting_time := 1\<rparr>, 3)"
  using move_red_stops[of demo_ambulance False demo_rng 3] by (simp add: demo_ambulance_eq)

text \<open>
  C24: On red, a car that is not boosted and is at or past the stop line creeps forward by
  0.3 of its speed and its waiting time grows by one as well.
\<close>

theorem move_red_creeps:
  assumes "\<not> (0 < priority c \<and> pa)" and "350 \<le> position c"
    and "position c + of_int (speed c) * 0.3 \<le> 900"
  shows "move g Red pa c s =
           (c\<lparr>waiting_time := waiting_time c + 1, position := position c + of_int (speed c) * 0.3\<rparr>, s)"
  using assms by (simp add: move_stay drive_no_priority)

theorem move_red_creeps_witness:
  "move demo_rng Red False (demo_ambulance\<lparr>position := 400\<rparr>) 3 =
     (demo_ambulance\<lparr>position := 404.5, waiting_time := 1\<rparr>, 3)"
  using move_red_creeps[of "demo_ambulance\<lparr>position := 400\<rparr>" False demo_rng 3]
  by (simp add: demo_ambulance_eq)

text \<open>
  C22: A step never lowers a car's waiting time, except the step that takes the car out,
  which resets it to 0.
\<close>

theorem move_waiting_time:
  "waiting_time c \<le> waiting_time (fst (move g ls pa c s)) \<or>
   (900 < position (drive ls pa c) \<and> waiting_time (fst (move g ls pa c s)) = 0)"
proof (cases "900 < position (drive ls pa c)")
  case True
  then show ?thesis by (simp add: move_exit)
next
  case False
  then have "move g ls pa c s = (drive ls pa c, s)" by (simp add: move_stay)
  then show ?thesis
    by (simp add: drive_def Let_def split: light_state.split)
qed

end
