(* ===== verification/Sensor.thy ===== *)
theory Sensor
  imports Car Logger "HOL-Library.AList"
begin

text \<open>
  The sensor, class \<^verbatim>\<open>TrafficAISensor\<close> (lines 170--220). The dictionary
  \<^verbatim>\<open>lane_counts = {0: 0, 1: 0, 2: 0, 3: 0}\<close> is an association list in insertion
  order, so that \<^verbatim>\<open>lane_counts[car.lane] += 1\<close> raises \<^verbatim>\<open>KeyError\<close> for a lane
  outside 0..3 and \<^verbatim>\<open>lane_counts.values()\<close> are the counts of lanes 0, 1, 2, 3 in
  that order. \<open>tally_lanes\<close> is the loop of lines 180--183, \<open>max_by_priority\<close>
  CPython's \<^verbatim>\<open>max(..., key=lambda x: x.priority)\<close> (it keeps the first of equal
  keys), \<open>density_of\<close> the conditional expression of line 209, and
  \<open>scan_traffic\<close> the whole method with its history and its log line.
\<close>

record history_entry =
  h_cycle :: nat
  h_lane_counts :: "(int \<times> nat) list"
  h_total :: nat
  h_priority :: "car_type option"
  h_timestamp :: real

record traffic_ai_sensor =
  history :: "history_entry list"
  priority_vehicles_detected :: nat

definition TrafficAISensor_init :: traffic_ai_sensor where
  "TrafficAISensor_init = \<lparr>history = [], priority_vehicles_detected = 0\<rparr>"

record traffic_data =
  td_lane_counts :: "(int \<times> nat) list"
  td_total :: nat
  td_priority :: "car_type option"
  td_density_level :: density_level
  td_emergency_count :: nat

definition empty_lane_counts :: "(int \<times> nat) list" where
  "empty_lane_counts = [(0, 0), (1, 0), (2, 0), (3, 0)]"

fun tally_lanes ::
  "car list \<Rightarrow> (int \<times> nat) list \<Rightarrow> car list \<Rightarrow> py_error + (int \<times> nat) list \<times> car list" where
  "tally_lanes [] lc ev = Inr (lc, ev)"
| "tally_lanes (c # cs) lc ev =
     (case map_of lc (lane c) of
        None \<Rightarrow> Inl KeyError
      | Some n \<Rightarrow>
          tally_lanes cs (AList.update (lane c) (n + 1) lc)
            (if 0 < priority c \<and> \<not> passed c then ev @ [c] else ev))"

fun max_by_priority :: "car \<Rightarrow> car list \<Rightarrow> car" where
  "max_by_priority m [] = m"
| "max_by_priority m (c # cs) = max_by_priority (if priority m < priority c then c else m) cs"

definition density_of :: "nat \<Rightarrow> density_level" where
  "density_of t =
     (if t < 5 then Rat_It else if t < 10 then It else if t < 15 then Trung_Binh
      else if t < 20 then Nhieu else Rat_Nhieu)"

definition scan_traffic ::
  "real \<Rightarrow> car list \<Rightarrow> nat \<Rightarrow> traffic_ai_sensor \<Rightarrow> traffic_logger \<Rightarrow>
   py_error + traffic_data \<times> traffic_ai_sensor \<times> traffic_logger" where
  "scan_traffic now cars cyc sn lg =
     (case tally_lanes cars empty_lane_counts [] of
        Inl e \<Rightarrow> Inl e
      | Inr (lc, ev) \<Rightarrow>
          (let pt = (case ev of [] \<Rightarrow> None | c # cs \<Rightarrow> Some (ctype (max_by_priority c cs)));
               det = (if ev = [] then priority_vehicles_detected sn
                      else priority_vehicles_detected sn + 1);
               tot = sum_list (map snd lc);
               h = history sn @ [\<lparr>h_cycle = cyc, h_lane_counts = lc, h_total = tot,
                                   h_priority = pt, h_timestamp = now\<rparr>];
               h' = (if 10 < length h then tl h else h);
               dl = density_of tot
           in Inr (\<lparr>td_lane_counts = lc, td_total = tot, td_priority = pt,
                    td_density_level = dl, td_emergency_count = length ev\<rparr>,
                   sn\<lparr>history := h', priority_vehicles_detected := det\<rparr>,
                   logger_log now (Msg_scan (map snd lc) tot dl pt) INFO lg)))"

text \<open>Cars for concrete runs: an ambulance, a police car and a normal car.\<close>

definition demo_cars :: "car list" where
  "demo_cars =
     [demo_ambulance, fst (Car_init (CAR_TYPES CONFIG) demo_rng 0 Police 3),
      fst (Car_init (CAR_TYPES CONFIG) demo_rng 3 Normal 11)]"

section \<open>The tally\<close>

text \<open>
  The invariant of the loop: the keys stay 0..3 in order, each count is the number of
  cars of that lane seen so far, and the candidates are the unpassed priority cars seen
  so far, in order.
\<close>

definition lanes_ok :: "car list \<Rightarrow> bool" where
  "lanes_ok cs \<longleftrightarrow> (\<forall>c\<in>set cs. lane c \<in> {0, 1, 2, 3})"

definition count_lane :: "car list \<Rightarrow> int \<Rightarrow> nat" where
  "count_lane cs k = length (filter (\<lambda>c. lane c = k) cs)"

definition candidates :: "car list \<Rightarrow> car list" where
  "candidates cs = filter (\<lambda>c. 0 < priority c \<and> \<not> passed c) cs"

lemma demo_cars_eq:
  "demo_cars =
     [\<lparr>lane = 2, ctype = Emergency, position = -93, speed = 15, priority = 3,
       emoji = ''AMBULANCE'', waiting_time = 0, passed = False\<rparr>,
      \<lparr>lane = 0, ctype = Police, position = -97, speed = 15, priority = 2,
       emoji = ''POLICE CAR'', waiting_time = 0, passed = False\<rparr>,
      \<lparr>lane = 3, ctype = Normal, position = -89, speed = 8, priority = 0,
       emoji = ''AUTOMOBILE'', waiting_time = 0, passed = False\<rparr>]"
  by (simp add: demo_cars_def demo_ambulance_eq Car_init_def randint_in_def demo_rng_def CONFIG_def)

lemma map_fst_update:
  "map_of lc k = Some n \<Longrightarrow> map fst (AList.update k v lc) = map fst lc"
  by (force simp: update_keys dest: map_of_SomeD)

lemma keys_update:
  "map_of lc k = Some n \<Longrightarrow> fst ` set (AList.update k v lc) = fst ` set lc"
  by (force simp: dom_update dest: map_of_SomeD)

lemma map_of_update_same: "map_of (AList.update k v lc) k = Some v"
  by (simp add: update_conv')

lemma map_of_update_other: "k' \<noteq> k \<Longrightarrow> map_of (AList.update k v lc) k' = map_of lc k'"
  by (simp add: update_conv')

lemma tally_lanes_keys:
  "tally_lanes cs lc ev = Inr (lc', ev') \<Longrightarrow> map fst lc' = map fst lc"
proof (induction cs lc ev rule: tally_lanes.induct)
  case (2 c cs lc ev)
  then show ?case
    by (auto split: option.splits simp: map_fst_update)
qed simp

lemma update_pairs:
  "distinct ks \<Longrightarrow> k \<in> set ks \<Longrightarrow> AList.update k v (map (\<lambda>k. (k, f k)) ks) = map (\<lambda>k'. (k', (f(k := v)) k')) ks"
  by (induction ks) auto

lemma map_of_pairs: "k \<in> set ks \<Longrightarrow> map_of (map (\<lambda>k. (k, f k)) ks) k = Some (f k)"
  by (induction ks) auto

lemma count_lane_Cons:
  "count_lane (c # cs) k = count_lane cs k + (if lane c = k then 1 else 0)"
  by (simp add: count_lane_def)

text \<open>The loop in closed form: each lane's count grows by the number of its cars.\<close>

lemma tally_lanes_counts:
  "distinct ks \<Longrightarrow> \<forall>c\<in>set cs. lane c \<in> set ks \<Longrightarrow>
   tally_lanes cs (map (\<lambda>k. (k, f k)) ks) ev =
     Inr (map (\<lambda>k. (k, f k + count_lane cs k)) ks, ev @ candidates cs)"
proof (induction cs arbitrary: f ev)
  case Nil
  then show ?case by (simp add: count_lane_def candidates_def)
next
  case (Cons c cs)
  let ?f = "f(lane c := f (lane c) + 1)"
  from Cons.prems have c: "lane c \<in> set ks" and cs: "\<forall>c\<in>set cs. lane c \<in> set ks"
    by auto
  have "\<And>k. ?f k + count_lane cs k = f k + count_lane (c # cs) k"
    by (simp add: count_lane_Cons)
  with Cons.IH[OF Cons.prems(1) cs, of ?f] c Cons.prems(1) show ?case
    by (simp add: map_of_pairs update_pairs candidates_def)
qed

text \<open>A car outside the known lanes raises \<^verbatim>\<open>KeyError\<close>, wherever it is in the list.\<close>

lemma tally_lanes_KeyError:
  "\<exists>c\<in>set cs. lane c \<notin> fst ` set lc \<Longrightarrow> tally_lanes cs lc ev = Inl KeyError"
proof (induction cs lc ev rule: tally_lanes.induct)
  case (2 c cs lc ev)
  show ?case
  proof (cases "map_of lc (lane c)")
    case (Some n)
    then have "lane c \<in> fst ` set lc" by (force dest: map_of_SomeD)
    with "2.prems" have "\<exists>c'\<in>set cs. lane c' \<notin> fst ` set lc"
      by auto
    then have "\<exists>c'\<in>set cs. lane c' \<notin> fst ` set (AList.update (lane c) (n + 1) lc)"
      using Some by (simp add: keys_update)
    with "2.IH"[OF Some] Some show ?thesis by simp
  qed simp
qed simp

lemma sum_count_lane:
  "distinct ks \<Longrightarrow> \<forall>c\<in>set cs. lane c \<in> set ks \<Longrightarrow> sum_list (map (count_lane cs) ks) = length cs"
proof (induction cs)
  case Nil
  then show ?case by (simp add: count_lane_def)
next
  case (Cons c cs)
  have "sum_list (map (count_lane (c # cs)) ks) =
        sum_list (map (\<lambda>k. count_lane cs k + (if lane c = k then 1 else 0)) ks)"
    by (rule arg_cong[where f = sum_list], rule map_cong) (simp_all add: count_lane_Cons)
  also have "\<dots> = sum_list (map (count_lane cs) ks) +
                   sum_list (map (\<lambda>k. if lane c = k then 1 else 0) ks)"
    by (rule sum_list_addf)
  also have "sum_list (map (\<lambda>k. if lane c = k then 1 else (0::nat)) ks) =
             (\<Sum>k\<in>set ks. if lane c = k then 1 else 0)"
    using Cons.prems(1) by (rule sum_list_distinct_conv_sum_set)
  also have "\<dots> = 1"
    using Cons.prems(2) by simp
  finally show ?case using Cons by simp
qed

section \<open>The maximum by priority\<close>

text \<open>
  \<open>max_by_priority\<close> replaces its current maximum only by a strictly greater key, so
  it returns the first car whose priority is the greatest of the list.
\<close>

lemma Max_priority_Cons_le:
  assumes "priority c \<le> priority m" shows "Max (priority ` set (m # c # cs)) = Max (priority ` set (m # cs))"
proof -
  have "priority ` set (m # c # cs) = insert (priority c) (priority ` set (m # cs))" by auto
  moreover have "priority c \<le> Max (priority ` set (m # cs))"
    using assms by (intro order.trans[OF _ Max_ge]) auto
  ultimately show ?thesis by (simp add: max_def)
qed

lemma Max_priority_Cons_less:
  assumes "priority m < priority c" shows "Max (priority ` set (m # c # cs)) = Max (priority ` set (c # cs))"
proof -
  have "priority ` set (m # c # cs) = insert (priority m) (priority ` set (c # cs))" by auto
  moreover have "priority c \<le> Max (priority ` set (c # cs))"
    by (intro Max_ge) auto
  with assms have "priority m \<le> Max (priority ` set (c # cs))" by linarith
  ultimately show ?thesis by (simp add: max_def)
qed

theorem max_by_priority_first_max:
  "find (\<lambda>x. priority x = Max (priority ` set (m # cs))) (m # cs) = Some (max_by_priority m cs)"
proof (induction cs arbitrary: m)
  case Nil
  then show ?case by simp
next
  case (Cons c cs)
  let ?M = "Max (priority ` set (m # c # cs))"
  let ?P = "\<lambda>x. priority x = ?M"
  have M_ge: "priority x \<le> ?M" if "x \<in> set (m # c # cs)" for x
    using that by (intro Max_ge) auto
  show ?case
  proof (cases "priority m < priority c")
    case True
    have "priority m \<noteq> ?M" using M_ge[of c] True by simp
    then have "find ?P (m # c # cs) = find ?P (c # cs)"
      by (simp only: find.simps if_False)
    also have "\<dots> = Some (max_by_priority c cs)"
      using Cons.IH[of c] by (simp only: Max_priority_Cons_less[OF True])
    finally show ?thesis using True by simp
  next
    case False
    then have le: "priority c \<le> priority m" by simp
    have IH: "find ?P (m # cs) = Some (max_by_priority m cs)"
      using Cons.IH[of m] by (simp only: Max_priority_Cons_le[OF le])
    have step: "max_by_priority m (c # cs) = max_by_priority m cs"
      using False by simp
    show ?thesis
    proof (cases "priority m = ?M")
      case True
      then have "find ?P (m # cs) = Some m" and "find ?P (m # c # cs) = Some m"
        by (simp_all only: find.simps refl if_True)
      with IH step show ?thesis by simp
    next
      case mM: False
      with M_ge[of m] le have "priority c \<noteq> ?M" by simp
      with mM have "find ?P (m # c # cs) = find ?P cs" and "find ?P (m # cs) = find ?P cs"
        by (simp_all only: find.simps if_False)
      with IH step show ?thesis by simp
    qed
  qed
qed
section \<open>The scan\<close>

lemma empty_lane_counts_pairs: "empty_lane_counts = map (\<lambda>k. (k, 0)) [0, 1, 2, 3]"
  by (simp add: empty_lane_counts_def)

lemma tally_lanes_scan:
  "lanes_ok cars \<Longrightarrow>
   tally_lanes cars empty_lane_counts [] =
     Inr (map (\<lambda>k. (k, count_lane cars k)) [0, 1, 2, 3], candidates cars)"
  using tally_lanes_counts[of "[0, 1, 2, 3]" cars "\<lambda>_. 0" "[]"]
  by (simp add: empty_lane_counts_pairs lanes_ok_def)

lemma sum_lane_counts:
  "lanes_ok cars \<Longrightarrow>
   count_lane cars 0 + (count_lane cars 1 + (count_lane cars 2 + count_lane cars 3)) = length cars"
  using sum_count_lane[of "[0, 1, 2, 3]" cars] by (simp add: lanes_ok_def)

lemma scan_traffic_no_error:
  "lanes_ok cars \<Longrightarrow>
   \<exists>td sn' m. scan_traffic now cars cyc sn lg = Inr (td, sn', logger_log now m INFO lg) \<and>
     (\<exists>a b c d. m = Msg_scan a b c d)"
  by (simp add: scan_traffic_def tally_lanes_scan Let_def) blast

lemma scan_traffic_result:
  assumes "lanes_ok cars"
  shows "\<exists>sn' lg'. scan_traffic now cars cyc sn lg =
           Inr (\<lparr>td_lane_counts = map (\<lambda>k. (k, count_lane cars k)) [0, 1, 2, 3],
                 td_total = length cars,
                 td_priority = (case candidates cars of [] \<Rightarrow> None
                                | c # cs \<Rightarrow> Some (ctype (max_by_priority c cs))),
                 td_density_level = density_of (length cars),
                 td_emergency_count = length (candidates cars)\<rparr>, sn', lg')"
  using assms by (simp add: scan_traffic_def tally_lanes_scan sum_lane_counts Let_def)

text \<open>
  C7: On cars whose lanes are all 0..3 the scan succeeds: every lane's count is the number
  of its cars, the total is the number of cars, and the priority type is the type of
  the \<open>max_by_priority\<close> of the unpassed priority cars.
\<close>

theorem scan_traffic_ok:
  assumes "lanes_ok cars"
  shows "\<exists>sn' lg'. scan_traffic now cars cyc sn lg =
           Inr (\<lparr>td_lane_counts = map (\<lambda>k. (k, count_lane cars k)) [0, 1, 2, 3],
                 td_total = length cars,
                 td_priority = (case candidates cars of [] \<Rightarrow> None
                                | c # cs \<Rightarrow> Some (ctype (max_by_priority c cs))),
                 td_density_level = density_of (length cars),
                 td_emergency_count = length (candidates cars)\<rparr>, sn', lg')"
  using assms by (rule scan_traffic_result)

theorem scan_traffic_ok_witness:
  "lanes_ok demo_cars \<and>
   (\<exists>sn' lg'. scan_traffic 0 demo_cars 1 TrafficAISensor_init (new_logger ''traffic_log.txt'') =
      Inr (\<lparr>td_lane_counts = [(0, 1), (1, 0), (2, 1), (3, 1)], td_total = 3,
            td_priority = Some Emergency, td_density_level = Rat_It, td_emergency_count = 2\<rparr>,
           sn', lg'))"
proof -
  have ok: "lanes_ok demo_cars" by (simp add: lanes_ok_def demo_cars_eq)
  from scan_traffic_ok[OF ok, of 0 1 TrafficAISensor_init "new_logger ''traffic_log.txt''"] ok
  show ?thesis
    by (simp add: demo_cars_eq count_lane_def candidates_def density_of_def numeral_eq_Suc)
qed

lemma scan_traffic_bad_lane:
  "\<not> lanes_ok cars \<Longrightarrow> scan_traffic now cars cyc sn lg = Inl KeyError"
proof -
  assume "\<not> lanes_ok cars"
  then have "\<exists>c\<in>set cars. lane c \<notin> fst ` set empty_lane_counts"
    by (auto simp: lanes_ok_def empty_lane_counts_def)
  then show ?thesis by (simp add: scan_traffic_def tally_lanes_KeyError)
qed

text \<open>
  C20: A car whose lane is not one of 0, 1, 2, 3 makes the scan raise \<^verbatim>\<open>KeyError\<close>.
\<close>

theorem scan_traffic_KeyError:
  "\<not> lanes_ok cars \<Longrightarrow> scan_traffic now cars cyc sn lg = Inl KeyError"
  by (rule scan_traffic_bad_lane)

theorem scan_traffic_KeyError_witness:
  "scan_traffic 0 (demo_cars @ [demo_ambulance\<lparr>lane := 4\<rparr>]) 1 TrafficAISensor_init
     (new_logger ''traffic_log.txt'') = Inl KeyError"
  by (rule scan_traffic_KeyError) (simp add: lanes_ok_def)

lemma scan_traffic_Inr_lanes_ok:
  "scan_traffic now cars cyc sn lg = Inr r \<Longrightarrow> lanes_ok cars"
  using scan_traffic_bad_lane by fastforce

text \<open>
  C3: The priority type the scan reports is the type of the first unpassed priority car
  whose priority is the greatest among them, and \<^verbatim>\<open>"none"\<close> when there is none.
\<close>

theorem scan_traffic_priority:
  "scan_traffic now cars cyc sn lg = Inr (d, sn', lg') \<Longrightarrow>
   td_priority d =
     map_option ctype (find (\<lambda>c. priority c = Max (priority ` set (candidates cars))) (candidates cars))"
proof -
  assume r: "scan_traffic now cars cyc sn lg = Inr (d, sn', lg')"
  then have ok: "lanes_ok cars" by (rule scan_traffic_Inr_lanes_ok)
  from scan_traffic_result[OF ok, of now cyc sn lg] r
  have td: "td_priority d = (case candidates cars of [] \<Rightarrow> None
                             | c # cs \<Rightarrow> Some (ctype (max_by_priority c cs)))"
    by auto
  show ?thesis
  proof (cases "candidates cars")
    case Nil
    with td show ?thesis by simp
  next
    case (Cons c cs)
    with td max_by_priority_first_max[of c cs] show ?thesis by simp
  qed
qed

lemma scan_demo_cars:
  "\<exists>d sn' lg'. scan_traffic now demo_cars cyc sn lg = Inr (d, sn', lg')"
proof -
  have "lanes_ok demo_cars" by (simp add: lanes_ok_def demo_cars_eq)
  from scan_traffic_result[OF this] show ?thesis by blast
qed

theorem scan_traffic_priority_witness:
  "\<exists>d sn' lg'. scan_traffic 0 demo_cars 1 TrafficAISensor_init (new_logger ''traffic_log.txt'') =
      Inr (d, sn', lg') \<and> td_priority d = Some Emergency"
proof -
  obtain d sn' lg' where r:
    "scan_traffic 0 demo_cars 1 TrafficAISensor_init (new_logger ''traffic_log.txt'') = Inr (d, sn', lg')"
    using scan_demo_cars by blast
  from scan_traffic_priority[OF r] have "td_priority d = Some Emergency"
    by (simp add: demo_cars_eq candidates_def)
  with r show ?thesis by blast
qed

text \<open>C32: The sensor history never grows beyond the ten newest scans.\<close>

theorem scan_traffic_history_bound:
  "length (history sn) \<le> 10 \<Longrightarrow> scan_traffic now cars cyc sn lg = Inr (d, sn', lg') \<Longrightarrow>
   length (history sn') \<le> 10"
  by (auto simp: scan_traffic_def Let_def split: sum.splits prod.splits if_splits)

theorem scan_traffic_history_bound_witness:
  "\<exists>d sn' lg'. scan_traffic 0 demo_cars 1 TrafficAISensor_init (new_logger ''traffic_log.txt'') =
      Inr (d, sn', lg') \<and> length (history sn') \<le> 10"
proof -
  obtain d sn' lg' where r:
    "scan_traffic 0 demo_cars 1 TrafficAISensor_init (new_logger ''traffic_log.txt'') = Inr (d, sn', lg')"
    using scan_demo_cars by blast
  have "length (history TrafficAISensor_init) \<le> 10" by (simp add: TrafficAISensor_init_def)
  from scan_traffic_history_bound[OF this r] r show ?thesis by blast
qed

section \<open>Density\<close>

text \<open>
  The density tier is the lowest for fewer than 5 vehicles and moves up one tier at
  5, 10, 15 and 20 vehicles: a boundary value belongs to the tier above it.
\<close>

theorem density_of_thresholds:
  "(density_of t = Rat_It \<longleftrightarrow> t < 5) \<and>
   (density_of t = It \<longleftrightarrow> 5 \<le> t \<and> t < 10) \<and>
   (density_of t = Trung_Binh \<longleftrightarrow> 10 \<le> t \<and> t < 15) \<and>
   (density_of t = Nhieu \<longleftrightarrow> 15 \<le> t \<and> t < 20) \<and>
   (density_of t = Rat_Nhieu \<longleftrightarrow> 20 \<le> t)"
  by (simp add: density_of_def)

text \<open>The density tier never goes down when the vehicle count grows.\<close>

theorem density_of_mono: "t \<le> t' \<Longrightarrow> density_of t \<le> density_of t'"
  by (simp add: density_of_def less_eq_density_level_def)

theorem density_of_mono_witness: "density_of 7 \<le> density_of 12 \<and> density_of 12 = Trung_Binh"
  using density_of_mono[of 7 12] by (simp add: density_of_def)

end
