(* ===== verification/Decision.thy ===== *)
theory Decision
  imports Sensor
begin

text \<open>
  The timing rule, class \<^verbatim>\<open>LightDecisionAlgorithm\<close>. The source file holds the
  engine twice: \<^verbatim>\<open>calculate_light_times\<close> at lines 233--266 and again at lines
  1131--1164, the two differing only in the red time and the green cap of the priority
  branch (15 and 23 in the first copy, 2 and 12 in the second). \<open>decide_light_times\<close>
  is the method with these two constants as parameters; \<open>calculate_light_times\<close>
  and \<open>calculate_light_times_v2\<close> are the two copies. The method does not read
  \<^verbatim>\<open>self.base_times\<close> nor \<^verbatim>\<open>lane_counts\<close>; the yellow time is the
  configured \<^verbatim>\<open>randint\<close>, which raises \<^verbatim>\<open>ValueError\<close> on an empty range.
\<close>

record light_decision_algorithm =
  base_times :: "(light_state \<times> int) list"

definition LightDecisionAlgorithm_init :: "config \<Rightarrow> light_decision_algorithm" where
  "LightDecisionAlgorithm_init cfg =
     \<lparr>base_times = [(Red, LIGHT_MIN cfg), (Green, LIGHT_MIN cfg), (Yellow, YELLOW_MIN cfg)]\<rparr>"

text \<open>The green time of the density branch (lines 247--260).\<close>

definition green_time_for :: "config \<Rightarrow> nat \<Rightarrow> nat \<Rightarrow> int" where
  "green_time_for cfg total_vehicles current_cycle =
     (let base_green = LIGHT_MIN cfg;
          g0 = (if 15 < total_vehicles then min (LIGHT_MAX cfg) (base_green + 8)
                else if 10 < total_vehicles then min (LIGHT_MAX cfg) (base_green + 5)
                else if 5 < total_vehicles then min (LIGHT_MAX cfg) (base_green + 3)
                else base_green)
      in if 5 < current_cycle then min (g0 + 2) (LIGHT_MAX cfg) else g0)"

definition decide_light_times ::
  "int \<Rightarrow> int \<Rightarrow> config \<Rightarrow> 'r rng \<Rightarrow> real \<Rightarrow> traffic_data \<Rightarrow> nat \<Rightarrow> 'r \<Rightarrow>
   traffic_logger \<Rightarrow> py_error + (int \<times> int \<times> int) \<times> 'r \<times> traffic_logger" where
  "decide_light_times prio_red prio_green_cap cfg g now td current_cycle s lg =
     (if td_priority td \<noteq> None
      then (let red_time = prio_red;
                green_time = min prio_green_cap (LIGHT_MAX cfg + 2);
                yellow_time = YELLOW_MAX cfg
            in Inr ((red_time, green_time, yellow_time), s,
                    logger_log now (Msg_decision_priority red_time green_time) PRIORITY lg))
      else (let green_time = green_time_for cfg (td_total td) current_cycle;
                red_time = max (LIGHT_MIN cfg) (green_time - 2)
            in case randint g (YELLOW_MIN cfg) (YELLOW_MAX cfg) s of
                 Inl e \<Rightarrow> Inl e
               | Inr (yellow_time, s') \<Rightarrow>
                   Inr ((red_time, green_time, yellow_time), s',
                        logger_log now (Msg_decision red_time green_time yellow_time) INFO lg)))"

definition calculate_light_times ::
  "config \<Rightarrow> 'r rng \<Rightarrow> real \<Rightarrow> traffic_data \<Rightarrow> nat \<Rightarrow> 'r \<Rightarrow>
   traffic_logger \<Rightarrow> py_error + (int \<times> int \<times> int) \<times> 'r \<times> traffic_logger" where
  "calculate_light_times = decide_light_times 15 23"

definition calculate_light_times_v2 ::
  "config \<Rightarrow> 'r rng \<Rightarrow> real \<Rightarrow> traffic_data \<Rightarrow> nat \<Rightarrow> 'r \<Rightarrow>
   traffic_logger \<Rightarrow> py_error + (int \<times> int \<times> int) \<times> 'r \<times> traffic_logger" where
  "calculate_light_times_v2 = decide_light_times 2 12"

text \<open>The configuration ranges the timing rule relies on.\<close>

definition config_ok :: "config \<Rightarrow> bool" where
  "config_ok cfg \<longleftrightarrow> LIGHT_MIN cfg \<le> LIGHT_MAX cfg \<and> YELLOW_MIN cfg \<le> YELLOW_MAX cfg"

text \<open>Readings for concrete runs: a sparse and a dense one, and one with an ambulance.\<close>

definition demo_reading_sparse :: traffic_data where
  "demo_reading_sparse =
     \<lparr>td_lane_counts = [(0, 1), (1, 1), (2, 0), (3, 1)], td_total = 3, td_priority = None,
      td_density_level = Rat_It, td_emergency_count = 0\<rparr>"

definition demo_reading_dense :: traffic_data where
  "demo_reading_dense =
     \<lparr>td_lane_counts = [(0, 3), (1, 4), (2, 2), (3, 3)], td_total = 12, td_priority = None,
      td_density_level = Trung_Binh, td_emergency_count = 0\<rparr>"

definition demo_reading_priority :: traffic_data where
  "demo_reading_priority =
     \<lparr>td_lane_counts = [(0, 1), (1, 0), (2, 0), (3, 0)], td_total = 1,
      td_priority = Some Emergency, td_density_level = Rat_It, td_emergency_count = 1\<rparr>"

section \<open>Facts\<close>

lemma config_ok_CONFIG: "config_ok CONFIG"
  by (simp add: config_ok_def CONFIG_def)

lemma demo_readings_eval:
  "calculate_light_times CONFIG demo_rng 0 demo_reading_sparse 7 5 lg =
     Inr ((8, 10, 5), 6, logger_log 0 (Msg_decision 8 10 5) INFO lg)"
  "calculate_light_times CONFIG demo_rng 0 demo_reading_dense 7 5 lg =
     Inr ((13, 15, 5), 6, logger_log 0 (Msg_decision 13 15 5) INFO lg)"
  "calculate_light_times CONFIG demo_rng 0 demo_reading_priority 9 5 lg =
     Inr ((15, 17, 5), 5, logger_log 0 (Msg_decision_priority 15 17) PRIORITY lg)"
  by (simp_all add: calculate_light_times_def decide_light_times_def green_time_for_def
      demo_reading_sparse_def demo_reading_dense_def demo_reading_priority_def CONFIG_def
      randint_def randint_in_def demo_rng_def Let_def)

lemma green_time_for_bounds:
  "LIGHT_MIN cfg \<le> LIGHT_MAX cfg \<Longrightarrow>
   LIGHT_MIN cfg \<le> green_time_for cfg t c \<and> green_time_for cfg t c \<le> LIGHT_MAX cfg"
  by (auto simp: green_time_for_def Let_def min_def)

lemma green_time_for_mono_total:
  "LIGHT_MIN cfg \<le> LIGHT_MAX cfg \<Longrightarrow> t \<le> t' \<Longrightarrow> green_time_for cfg t c \<le> green_time_for cfg t' c"
  by (auto simp: green_time_for_def Let_def min_def)

lemma green_time_for_mono_cycle:
  "LIGHT_MIN cfg \<le> LIGHT_MAX cfg \<Longrightarrow> c \<le> c' \<Longrightarrow> green_time_for cfg t c \<le> green_time_for cfg t c'"
  by (auto simp: green_time_for_def Let_def min_def)

lemma decide_priority:
  "td_priority td \<noteq> None \<Longrightarrow>
   decide_light_times pr pg cfg g now td c s lg =
     Inr ((pr, min pg (LIGHT_MAX cfg + 2), YELLOW_MAX cfg), s,
          logger_log now (Msg_decision_priority pr (min pg (LIGHT_MAX cfg + 2))) PRIORITY lg)"
  by (simp add: decide_light_times_def Let_def)

lemma decide_density:
  "td_priority td = None \<Longrightarrow> YELLOW_MIN cfg \<le> YELLOW_MAX cfg \<Longrightarrow>
   decide_light_times pr pg cfg g now td c s lg =
     (let gt = green_time_for cfg (td_total td) c; rt = max (LIGHT_MIN cfg) (gt - 2);
          (yt, s') = randint_in g (YELLOW_MIN cfg) (YELLOW_MAX cfg) s
      in Inr ((rt, gt, yt), s', logger_log now (Msg_decision rt gt yt) INFO lg))"
  by (simp add: decide_light_times_def randint_valid Let_def split: prod.split)

section \<open>Properties of the timing rule\<close>

lemma calculate_density_result:
  assumes "config_ok cfg" and "rng_ok g" and "td_priority td = None"
  shows "\<exists>y s' lg'. calculate_light_times cfg g now td c s lg =
           Inr ((max (LIGHT_MIN cfg) (green_time_for cfg (td_total td) c - 2),
                 green_time_for cfg (td_total td) c, y), s', lg') \<and>
           YELLOW_MIN cfg \<le> y \<and> y \<le> YELLOW_MAX cfg"
proof -
  from assms(1) have y: "YELLOW_MIN cfg \<le> YELLOW_MAX cfg" by (simp add: config_ok_def)
  obtain yv s' where r: "randint_in g (YELLOW_MIN cfg) (YELLOW_MAX cfg) s = (yv, s')"
    by (cases "randint_in g (YELLOW_MIN cfg) (YELLOW_MAX cfg) s")
  from randint_in_bounds[OF assms(2) y, of s] r
  have "YELLOW_MIN cfg \<le> yv \<and> yv \<le> YELLOW_MAX cfg" by simp
  with r assms(3) y show ?thesis
    by (simp add: calculate_light_times_def decide_density Let_def)
qed

lemma calculate_light_times_CONFIG_ok:
  assumes "rng_ok g"
  shows "\<exists>r gr y s' lg'. calculate_light_times CONFIG g now td c s lg = Inr ((r, gr, y), s', lg') \<and>
           8 \<le> r \<and> r \<le> 15 \<and> 8 \<le> gr \<and> gr \<le> 17 \<and> 3 \<le> y \<and> y \<le> 5"
proof (cases "td_priority td = None")
  case True
  have "LIGHT_MIN CONFIG \<le> LIGHT_MAX CONFIG" by (simp add: CONFIG_def)
  from green_time_for_bounds[OF this, of "td_total td" c]
  have "8 \<le> green_time_for CONFIG (td_total td) c \<and> green_time_for CONFIG (td_total td) c \<le> 15"
    by (simp add: CONFIG_def)
  with calculate_density_result[OF config_ok_CONFIG assms True, of now c s lg] show ?thesis
    by (auto simp: CONFIG_def)
next
  case False
  then show ?thesis
    by (simp add: calculate_light_times_def decide_priority CONFIG_def)
qed

lemma decide_light_times_log:
  "decide_light_times pr pg cfg g now td c s lg = Inr (tm, s', lg') \<Longrightarrow>
   \<exists>m lvl. lg' = logger_log now m lvl lg \<and>
     ((\<exists>a b. m = Msg_decision_priority a b) \<or> (\<exists>a b d. m = Msg_decision a b d))"
  by (auto simp: decide_light_times_def Let_def split: if_splits sum.splits prod.splits)

lemma decide_light_times_no_error:
  "YELLOW_MIN cfg \<le> YELLOW_MAX cfg \<Longrightarrow> \<exists>r. decide_light_times pr pg cfg g now td c s lg = Inr r"
  by (cases "td_priority td = None")
     (simp_all add: decide_density decide_priority Let_def split: prod.split)

text \<open>
  C2: Under the shipped configuration the timing rule never fails and, for every
  reading and cycle, returns a red time in [8, 15], a green time in [8, 17] and a
  yellow time in [3, 5].
\<close>

theorem calculate_light_times_CONFIG_bounds:
  assumes "rng_ok g"
  shows "\<exists>r gr y s' lg'. calculate_light_times CONFIG g now td c s lg = Inr ((r, gr, y), s', lg') \<and>
           8 \<le> r \<and> r \<le> 15 \<and> 8 \<le> gr \<and> gr \<le> 17 \<and> 3 \<le> y \<and> y \<le> 5"
  using assms by (rule calculate_light_times_CONFIG_ok)

theorem calculate_light_times_CONFIG_bounds_witness:
  "\<exists>r gr y s' lg'.
     calculate_light_times CONFIG demo_rng 0
       \<lparr>td_lane_counts = [(0, 3), (1, 4), (2, 2), (3, 3)], td_total = 12, td_priority = None,
        td_density_level = Trung_Binh, td_emergency_count = 0\<rparr> 7 5 (new_logger ''traffic_log.txt'') =
       Inr ((r, gr, y), s', lg') \<and>
     8 \<le> r \<and> r \<le> 15 \<and> 8 \<le> gr \<and> gr \<le> 17 \<and> 3 \<le> y \<and> y \<le> 5"
  by (rule calculate_light_times_CONFIG_bounds[OF rng_ok_demo_rng])

text \<open>
  C14: When the reading names a priority vehicle, the timing rule returns red 15, green
  min(23, LIGHT_MAX + 2) and yellow YELLOW_MAX, whatever the vehicle count and the cycle
  number, without drawing from the generator.
\<close>

theorem calculate_light_times_priority:
  "td_priority td \<noteq> None \<Longrightarrow>
   \<exists>lg'. calculate_light_times cfg g now td c s lg =
          Inr ((15, min 23 (LIGHT_MAX cfg + 2), YELLOW_MAX cfg), s, lg')"
  by (simp add: calculate_light_times_def decide_priority)

theorem calculate_light_times_priority_witness:
  "\<exists>lg'. calculate_light_times CONFIG demo_rng 0
           \<lparr>td_lane_counts = [(0, 1), (1, 0), (2, 0), (3, 0)], td_total = 1,
            td_priority = Some Emergency, td_density_level = Rat_It, td_emergency_count = 1\<rparr>
           9 5 (new_logger ''traffic_log.txt'') =
         Inr ((15, 17, 5), 5, lg')"
  using calculate_light_times_priority[of
      "\<lparr>td_lane_counts = [(0, 1), (1, 0), (2, 0), (3, 0)], td_total = 1,
        td_priority = Some Emergency, td_density_level = Rat_It, td_emergency_count = 1\<rparr>"
      CONFIG demo_rng 0 9 5 "new_logger ''traffic_log.txt''"]
  by (simp add: CONFIG_def)

text \<open>
  C28: Under the shipped configuration the red time of the priority branch (15) is longer
  than the red time of every reading without a priority vehicle (at most 13): the
  priority cycle starts with the longest red the rule ever gives.
\<close>

theorem priority_red_longest:
  assumes "rng_ok g" and "td_priority td = None" and "td_priority tdp \<noteq> None"
    and "calculate_light_times CONFIG g now td c s lg = Inr ((r, gr, y), s1, lg1)"
    and "calculate_light_times CONFIG g2 now2 tdp c2 s2 lg2 = Inr ((rp, grp, yp), s3, lg3)"
  shows "r < rp"
proof -
  have le: "LIGHT_MIN CONFIG \<le> LIGHT_MAX CONFIG" by (simp add: CONFIG_def)
  from calculate_density_result[OF config_ok_CONFIG assms(1,2), of now c s lg] assms(4)
  have "r = max 8 (green_time_for CONFIG (td_total td) c - 2)" by (auto simp: CONFIG_def)
  moreover from green_time_for_bounds[OF le, of "td_total td" c]
  have "green_time_for CONFIG (td_total td) c \<le> 15" by (simp add: CONFIG_def)
  moreover from assms(3,5) have "rp = 15"
    by (simp add: calculate_light_times_def decide_priority)
  ultimately show ?thesis by simp
qed

theorem priority_red_longest_witness: "(13::int) < 15"
proof -
  have "td_priority demo_reading_dense = None" and "td_priority demo_reading_priority \<noteq> None"
    by (simp_all add: demo_reading_dense_def demo_reading_priority_def)
  from priority_red_longest[OF rng_ok_demo_rng this demo_readings_eval(2) demo_readings_eval(3)]
  show ?thesis .
qed

text \<open>
  C29: The second copy of the timing rule (lines 1131--1164) answers a priority reading
  with red 2 and green 12: a red time below the configured minimum LIGHT_MIN = 8, unlike
  the first copy's 15.
\<close>

theorem calculate_light_times_v2_priority:
  "td_priority td \<noteq> None \<Longrightarrow>
   (\<exists>lg'. calculate_light_times_v2 CONFIG g now td c s lg = Inr ((2, 12, 5), s, lg')) \<and>
   2 < LIGHT_MIN CONFIG"
  by (simp add: calculate_light_times_v2_def decide_priority CONFIG_def)

theorem calculate_light_times_v2_priority_witness:
  "(\<exists>lg'. calculate_light_times_v2 CONFIG demo_rng 0
           \<lparr>td_lane_counts = [(0, 0), (1, 1), (2, 0), (3, 0)], td_total = 1,
            td_priority = Some Fire, td_density_level = Rat_It, td_emergency_count = 1\<rparr>
           2 0 (new_logger ''traffic_log.txt'') = Inr ((2, 12, 5), 0, lg')) \<and>
   2 < LIGHT_MIN CONFIG"
  by (rule calculate_light_times_v2_priority) simp

text \<open>
  C30: A configuration whose yellow range is empty (YELLOW_MAX < YELLOW_MIN) is not
  clamped: on a reading without a priority vehicle the rule raises ValueError.
\<close>

theorem calculate_light_times_ValueError:
  "td_priority td = None \<Longrightarrow> YELLOW_MAX cfg < YELLOW_MIN cfg \<Longrightarrow>
   calculate_light_times cfg g now td c s lg = Inl ValueError"
  by (simp add: calculate_light_times_def decide_light_times_def randint_empty Let_def)

theorem calculate_light_times_ValueError_witness:
  "calculate_light_times (CONFIG\<lparr>YELLOW_MIN := 6\<rparr>) demo_rng 0
     \<lparr>td_lane_counts = [(0, 0), (1, 0), (2, 0), (3, 0)], td_total = 0, td_priority = None,
      td_density_level = Rat_It, td_emergency_count = 0\<rparr> 1 0 (new_logger ''traffic_log.txt'') =
   Inl ValueError"
  by (rule calculate_light_times_ValueError) (simp_all add: CONFIG_def)

text \<open>
  C31: Without a priority vehicle the green time never decreases when the vehicle count
  grows, and the red time follows it as max(LIGHT_MIN, green - 2).
\<close>

theorem calculate_light_times_mono:
  assumes "config_ok cfg" and "rng_ok g" and "td_priority td = None" and "td_priority td2 = None"
    and "td_total td \<le> td_total td2"
    and "calculate_light_times cfg g now td c s lg = Inr ((r, gr, y), s1, lg1)"
    and "calculate_light_times cfg g now2 td2 c s2 lg2 = Inr ((r2, gr2, y2), s3, lg3)"
  shows "gr \<le> gr2 \<and> r \<le> r2 \<and> r = max (LIGHT_MIN cfg) (gr - 2)"
proof -
  from assms(1) have le: "LIGHT_MIN cfg \<le> LIGHT_MAX cfg" by (simp add: config_ok_def)
  from calculate_density_result[OF assms(1,2,3), of now c s lg] assms(6)
  have r: "gr = green_time_for cfg (td_total td) c \<and> r = max (LIGHT_MIN cfg) (gr - 2)" by auto
  from calculate_density_result[OF assms(1,2,4), of now2 c s2 lg2] assms(7)
  have r2: "gr2 = green_time_for cfg (td_total td2) c \<and> r2 = max (LIGHT_MIN cfg) (gr2 - 2)" by auto
  from green_time_for_mono_total[OF le assms(5), of c] r r2 show ?thesis by auto
qed

theorem calculate_light_times_mono_witness:
  "(10::int) \<le> 15 \<and> (8::int) \<le> 13 \<and> (8::int) = max (LIGHT_MIN CONFIG) (10 - 2)"
proof -
  have "td_priority demo_reading_sparse = None" and "td_priority demo_reading_dense = None"
    and "td_total demo_reading_sparse \<le> td_total demo_reading_dense"
    by (simp_all add: demo_reading_sparse_def demo_reading_dense_def)
  from calculate_light_times_mono[OF config_ok_CONFIG rng_ok_demo_rng this
      demo_readings_eval(1) demo_readings_eval(2)]
  show ?thesis .
qed

end
