(* ===== verification/Manager.thy ===== *)
theory Manager
  imports Light Decision
begin

text \<open>
  The orchestrator, class \<^verbatim>\<open>TrafficManager\<close> (lines 271--384): its state, the
  spawning of cars (\<^verbatim>\<open>spawn_cars\<close>), their movement and the pass count
  (\<^verbatim>\<open>update_cars\<close>), the snapshot (\<^verbatim>\<open>write_simulation_data\<close>), and one
  iteration of the phase loop of \<^verbatim>\<open>run_cycle\<close> (lines 352--364) as \<open>tick\<close>.
  The manager, the global logger, the generator state and the file
  \<^verbatim>\<open>traffic_data.json\<close> together are the \<open>world\<close> a tick transforms. The file
  holds the latest snapshot: the simulation thread is its only writer.
  \<open>update_loop\<close> is the \<^verbatim>\<open>for\<close> loop of \<^verbatim>\<open>update_cars\<close>. It threads the light,
  because every iteration reads \<^verbatim>\<open>self.light\<close> and may call
  \<^verbatim>\<open>vehicle_passed()\<close> on it.
\<close>

record traffic_manager =
  cars :: "car list"
  light :: smart_traffic_light
  sensor :: traffic_ai_sensor
  decision_algorithm :: light_decision_algorithm
  last_spawn_time :: real
  spawn_interval :: int

definition TrafficManager_init :: "config \<Rightarrow> real \<Rightarrow> traffic_manager" where
  "TrafficManager_init cfg now =
     \<lparr>cars = [], light = SmartTrafficLight_init now, sensor = TrafficAISensor_init,
      decision_algorithm = LightDecisionAlgorithm_init cfg, last_spawn_time = now,
      spawn_interval = 2\<rparr>"

text \<open>The car type of a new car: the cumulative table of lines 297--307.\<close>

definition pick_car_type :: "config \<Rightarrow> 'r rng \<Rightarrow> 'r \<Rightarrow> car_type \<times> 'r" where
  "pick_car_type cfg g s =
     (let (rand_val, s1) = rng_random g s
      in if rand_val < EMERGENCY_PROB cfg then (Emergency, s1)
         else if rand_val < EMERGENCY_PROB cfg + POLICE_PROB cfg then (Police, s1)
         else if rand_val < EMERGENCY_PROB cfg + POLICE_PROB cfg + FIRE_PROB cfg then (Fire, s1)
         else if rand_val < 0.8 then py_choice g [Normal, Truck, Bus] s1
         else (Normal, s1))"

text \<open>What \<^verbatim>\<open>Car(lane, car_type)\<close> yields when the lane is drawn by \<^verbatim>\<open>randint(0, 3)\<close>.\<close>

definition spawned_car :: "config \<Rightarrow> car \<Rightarrow> bool" where
  "spawned_car cfg c \<longleftrightarrow>
     lane c \<in> {0, 1, 2, 3} \<and> -100 \<le> position c \<and> position c \<le> -20 \<and>
     waiting_time c = 0 \<and> \<not> passed c \<and>
     speed c = info_speed (CAR_TYPES cfg (ctype c)) \<and>
     priority c = info_priority (CAR_TYPES cfg (ctype c))"

definition spawn_cars ::
  "config \<Rightarrow> (car_type \<Rightarrow> car_info) \<Rightarrow> 'r rng \<Rightarrow> real \<Rightarrow> traffic_manager \<Rightarrow> 'r \<Rightarrow> traffic_manager \<times> 'r" where
  "spawn_cars cfg types g now m s =
     (if now - last_spawn_time m < of_int (spawn_interval m) then (m, s)
      else
        (let m1 = m\<lparr>last_spawn_time := now\<rparr>
         in if MAX_CARS_PER_LANE cfg * 4 \<le> int (length (cars m1)) then (m1, s)
            else
              (let (p, s1) = rng_random g s
               in if p < CAR_SPAWN_PROB cfg
                  then (let (l, s2) = randint_in g 0 3 s1;
                            (ty, s3) = pick_car_type cfg g s2;
                            (c, s4) = Car_init types g l ty s3
                        in (m1\<lparr>cars := cars m1 @ [c]\<rparr>, s4))
                  else (m1, s1))))"

fun update_loop ::
  "'r rng \<Rightarrow> car list \<Rightarrow> smart_traffic_light \<Rightarrow> 'r \<Rightarrow> car list \<times> smart_traffic_light \<times> 'r" where
  "update_loop g [] l s = ([], l, s)"
| "update_loop g (c # cs) l s =
     (let (c1, s1) = move g (state l) (priority_active l) c s
      in if 800 < position c1 \<and> \<not> passed c1
         then (let (cs', l', s') = update_loop g cs (vehicle_passed l) s1
               in (c1\<lparr>passed := True\<rparr> # cs', l', s'))
         else (let (cs', l', s') = update_loop g cs l s1 in (c1 # cs', l', s')))"

definition update_cars :: "'r rng \<Rightarrow> traffic_manager \<Rightarrow> 'r \<Rightarrow> traffic_manager \<times> 'r" where
  "update_cars g m s =
     (let (cs, l, s') = update_loop g (cars m) (light m) s
      in (m\<lparr>cars := filter (\<lambda>c. position c < 900 \<or> \<not> passed c) cs, light := l\<rparr>, s'))"

text \<open>
  The light keeps \<^verbatim>\<open>priority_type\<close> as a string, \<^verbatim>\<open>"none"\<close> when no window is
  open (lines 131 and 158); the model's \<open>None\<close> is that string.
\<close>

fun priority_type_name :: "car_type option \<Rightarrow> string" where
  "priority_type_name None = ''none''"
| "priority_type_name (Some t) = car_type_name t"

text \<open>The snapshot object of \<^verbatim>\<open>write_simulation_data\<close> (lines 370--381).\<close>

record snapshot =
  snap_light_state :: string
  snap_cars :: "display_info list"
  snap_current_cycle :: nat
  snap_max_cycles :: int
  snap_remaining_time :: real
  snap_priority_type :: string
  snap_priority_active :: bool
  snap_total_vehicles_passed :: nat
  snap_log :: "log_entry list"

definition write_simulation_data ::
  "config \<Rightarrow> real \<Rightarrow> nat \<Rightarrow> traffic_manager \<Rightarrow> traffic_logger \<Rightarrow> snapshot" where
  "write_simulation_data cfg now current_cycle m lg =
     \<lparr>snap_light_state = light_state_name (state (light m)),
      snap_cars = map get_display_info (cars m),
      snap_current_cycle = current_cycle,
      snap_max_cycles = MAX_CYCLES cfg,
      snap_remaining_time = time_left now (light m),
      snap_priority_type = priority_type_name (priority_type (light m)),
      snap_priority_active = priority_active (light m),
      snap_total_vehicles_passed = total_vehicles_passed (light m),
      snap_log = get_recent_logs 10 lg\<rparr>"

record 'r world =
  manager :: traffic_manager
  logger :: traffic_logger
  rng_state :: 'r
  data_file :: "snapshot option"

text \<open>
  One iteration of the phase loop at clock reading \<open>now\<close>: expire the priority
  window, spawn, move, write the snapshot.
\<close>

definition tick :: "config \<Rightarrow> 'r rng \<Rightarrow> nat \<Rightarrow> real \<Rightarrow> 'r world \<Rightarrow> 'r world" where
  "tick cfg g current_cycle now w =
     (let (l, lg) = update_priority now (light (manager w)) (logger w);
          m1 = (manager w)\<lparr>light := l\<rparr>;
          (m2, s1) = spawn_cars cfg (CAR_TYPES cfg) g now m1 (rng_state w);
          (m3, s2) = update_cars g m2 s1
      in w\<lparr>manager := m3, logger := lg, rng_state := s2,
           data_file := Some (write_simulation_data cfg now current_cycle m3 lg)\<rparr>)"

text \<open>
  What one iteration of the \<^verbatim>\<open>update_cars\<close> loop keeps: each car's lane, type,
  speed and priority; a car once marked passed stays passed, and every car beyond 800
  is marked passed.
\<close>

definition car_frame :: "car \<Rightarrow> car \<Rightarrow> bool" where
  "car_frame c c' \<longleftrightarrow>
     lane c' = lane c \<and> ctype c' = ctype c \<and> speed c' = speed c \<and> priority c' = priority c \<and>
     (passed c \<longrightarrow> passed c') \<and> (800 < position c' \<longrightarrow> passed c')"

text \<open>
  One iteration of the \<^verbatim>\<open>update_cars\<close> loop in full, under the light's phase
  \<open>ls\<close> and priority flag \<open>pa\<close>: the frame above, and the car's move: below the exit
  boundary its position and waiting time are those \<open>drive\<close> gives, beyond it the car is
  respawned in [-200, -50], marked passed, with no waiting time.
\<close>

definition car_moved :: "light_state \<Rightarrow> bool \<Rightarrow> car \<Rightarrow> car \<Rightarrow> bool" where
  "car_moved ls pa c c' \<longleftrightarrow>
     car_frame c c' \<and>
     (if 900 < position (drive ls pa c)
      then passed c' \<and> waiting_time c' = 0 \<and> -200 \<le> position c' \<and> position c' \<le> -50
      else position c' = position (drive ls pa c) \<and> waiting_time c' = waiting_time (drive ls pa c))"

text \<open>
  The condition under which every crossing is counted: a car is either marked passed or
  not beyond 800, and its speed is within [0, 95], so that no step jumps from at most 800
  to beyond 900.
\<close>

definition car_ok :: "car \<Rightarrow> bool" where
  "car_ok c \<longleftrightarrow> (position c \<le> 800 \<or> passed c) \<and> 0 \<le> speed c \<and> speed c \<le> 95"

text \<open>
  The invariant of the manager: every car is in a lane 0..3 (so the sensor's
  \<^verbatim>\<open>lane_counts[car.lane]\<close> never fails); there are at most
  \<open>MAX_CARS_PER_LANE * 4\<close> cars; every car is \<open>car_ok\<close>; and the cars marked passed
  are no more than the pass counter.
\<close>

definition mgr_inv :: "config \<Rightarrow> traffic_manager \<Rightarrow> bool" where
  "mgr_inv cfg m \<longleftrightarrow>
     lanes_ok (cars m) \<and> int (length (cars m)) \<le> MAX_CARS_PER_LANE cfg * 4 \<and>
     (\<forall>c\<in>set (cars m). car_ok c) \<and>
     length (filter passed (cars m)) \<le> total_vehicles_passed (light m)"

text \<open>The configured speeds keep a boosted step within 100.\<close>

definition speeds_ok :: "config \<Rightarrow> bool" where
  "speeds_ok cfg \<longleftrightarrow>
     0 \<le> CAR_SPEED_NORMAL cfg \<and> CAR_SPEED_NORMAL cfg \<le> 95 \<and>
     0 \<le> CAR_SPEED_EMERGENCY cfg \<and> CAR_SPEED_EMERGENCY cfg \<le> 95 \<and>
     0 \<le> CAR_SPEED_SLOW cfg \<and> CAR_SPEED_SLOW cfg \<le> 95"

text \<open>A world for concrete runs: a fresh manager under \<open>CONFIG\<close> at time 0.\<close>

definition demo_world :: "nat world" where
  "demo_world =
     \<lparr>manager = TrafficManager_init CONFIG 0, logger = new_logger ''traffic_log.txt'',
      rng_state = 0, data_file = None\<rparr>"

lemma car_type_name_not_none: "car_type_name t \<noteq> ''none''"
  by (cases t) simp_all

lemma priority_type_name_none [simp]: "priority_type_name p = ''none'' \<longleftrightarrow> p = None"
  by (cases p) (simp_all add: car_type_name_not_none)

section \<open>Spawning\<close>

lemma spawn_cars_rate_limited:
  "now - last_spawn_time m < of_int (spawn_interval m) \<Longrightarrow> spawn_cars cfg (CAR_TYPES cfg) g now m s = (m, s)"
  by (simp add: spawn_cars_def)

lemma Car_init_spawned:
  assumes "rng_ok g" and "l \<in> {0, 1, 2, 3}"
  shows "spawned_car cfg (fst (Car_init (CAR_TYPES cfg) g l ty s))"
proof -
  obtain p s' where r: "randint_in g (-100) (-20) s = (p, s')"
    by (cases "randint_in g (-100) (-20) s")
  from randint_in_bounds[OF assms(1), of "-100" "-20" s] r have "-100 \<le> p \<and> p \<le> -20"
    by simp
  then have "-100 \<le> (of_int p :: real) \<and> (of_int p :: real) \<le> -20"
    by linarith
  with r assms(2) show ?thesis by (simp add: spawned_car_def Car_init_def Let_def)
qed

lemma randint_lane [rng_facts]:
  "rng_ok g \<Longrightarrow> fst (randint_in g 0 3 s) \<in> {0, 1, 2, 3}"
  using randint_in_bounds[of g 0 3 s] by auto

text \<open>
  A spawn leaves the cars as they were or appends one fresh car, and only when there
  were fewer than \<open>MAX_CARS_PER_LANE * 4\<close>; nothing but the car list and the spawn
  time changes.
\<close>

lemma spawn_cars_cases:
  assumes "rng_ok g"
  shows "fst (spawn_cars cfg (CAR_TYPES cfg) g now m s) = m \<or>
         fst (spawn_cars cfg (CAR_TYPES cfg) g now m s) = m\<lparr>last_spawn_time := now\<rparr> \<or>
         (\<exists>c. fst (spawn_cars cfg (CAR_TYPES cfg) g now m s) = m\<lparr>last_spawn_time := now, cars := cars m @ [c]\<rparr> \<and>
              int (length (cars m)) < MAX_CARS_PER_LANE cfg * 4 \<and> spawned_car cfg c)"
proof -
  obtain p s1 where p: "rng_random g s = (p, s1)" by (cases "rng_random g s")
  obtain l s2 where l: "randint_in g 0 3 s1 = (l, s2)" by (cases "randint_in g 0 3 s1")
  obtain ty s3 where ty: "pick_car_type cfg g s2 = (ty, s3)" by (cases "pick_car_type cfg g s2")
  have lane: "l \<in> {0, 1, 2, 3}" using randint_lane[OF assms, of s1] l by simp
  have "spawned_car cfg (fst (Car_init (CAR_TYPES cfg) g l ty s3))"
    by (rule Car_init_spawned[OF assms lane])
  then show ?thesis
    using p l ty by (auto simp: spawn_cars_def Let_def split: prod.split)
qed

lemma spawn_cars_light [simp]: "light (fst (spawn_cars cfg (CAR_TYPES cfg) g now m s)) = light m"
  by (simp add: spawn_cars_def Let_def split: prod.split)

section \<open>Moving and counting\<close>

lemma update_loop_light:
  "update_loop g cs l s = (cs', l', s') \<Longrightarrow>
   \<exists>k. l' = l\<lparr>total_vehicles_passed := total_vehicles_passed l + k\<rparr>"
proof (induction g cs l s arbitrary: cs' l' s' rule: update_loop.induct)
  case (1 g l s)
  then show ?case by (intro exI[of _ 0]) simp
next
  case (2 g c cs l s)
  obtain c1 s1 where m: "move g (state l) (priority_active l) c s = (c1, s1)"
    by (cases "move g (state l) (priority_active l) c s")
  show ?case
  proof (cases "800 < position c1 \<and> \<not> passed c1")
    case True
    obtain cs2 l2 s2 where r: "update_loop g cs (vehicle_passed l) s1 = (cs2, l2, s2)"
      by (cases "update_loop g cs (vehicle_passed l) s1")
    from "2.IH"(1)[OF m[symmetric] refl True r] obtain k
      where "l2 = (vehicle_passed l)\<lparr>total_vehicles_passed := total_vehicles_passed (vehicle_passed l) + k\<rparr>"
      by blast
    with "2.prems" m True r show ?thesis
      by (intro exI[of _ "Suc k"]) (simp add: vehicle_passed_def)
  next
    case False
    obtain cs2 l2 s2 where r: "update_loop g cs l s1 = (cs2, l2, s2)"
      by (cases "update_loop g cs l s1")
    from "2.IH"(2)[OF m[symmetric] refl False r] "2.prems" m False r show ?thesis
      by simp
  qed
qed

lemma update_loop_cars:
  "update_loop g cs l s = (cs', l', s') \<Longrightarrow> list_all2 car_frame cs cs'"
proof (induction g cs l s arbitrary: cs' l' s' rule: update_loop.induct)
  case (2 g c cs l s)
  obtain c1 s1 where m: "move g (state l) (priority_active l) c s = (c1, s1)"
    by (cases "move g (state l) (priority_active l) c s")
  have mono: "passed c \<Longrightarrow> passed c1"
    using move_passed_mono[of c g "state l" "priority_active l" s] m by simp
  have fr: "lane c1 = lane c \<and> ctype c1 = ctype c \<and> speed c1 = speed c \<and> priority c1 = priority c"
    using move_frame[of g "state l" "priority_active l" c s] m by simp
  show ?case
  proof (cases "800 < position c1 \<and> \<not> passed c1")
    case True
    obtain cs2 l2 s2 where r: "update_loop g cs (vehicle_passed l) s1 = (cs2, l2, s2)"
      by (cases "update_loop g cs (vehicle_passed l) s1")
    from "2.IH"(1)[OF m[symmetric] refl True r] "2.prems" m True r fr show ?thesis
      by (auto simp: car_frame_def)
  next
    case False
    obtain cs2 l2 s2 where r: "update_loop g cs l s1 = (cs2, l2, s2)"
      by (cases "update_loop g cs l s1")
    from "2.IH"(2)[OF m[symmetric] refl False r] "2.prems" m False r fr mono show ?thesis
      by (auto simp: car_frame_def)
  qed
qed simp

lemma move_car_moved:
  assumes "rng_ok g" and "move g ls pa c s = (c1, s1)"
  shows "car_moved ls pa c (if 800 < position c1 \<and> \<not> passed c1 then c1\<lparr>passed := True\<rparr> else c1)"
proof (cases "900 < position (drive ls pa c)")
  case True
  from move_exit[OF True, of g s] assms(2)
  have "c1 = drive ls pa c\<lparr>position := of_int (fst (randint_in g (-200) (-50) s)), passed := True,
                           waiting_time := 0\<rparr>" by simp
  with randint_in_bounds[OF assms(1), of "-200" "-50" s] True show ?thesis
    by (simp add: car_moved_def car_frame_def)
next
  case False
  with move_stay[of ls pa c g s] assms(2) have "c1 = drive ls pa c" by simp
  with False show ?thesis by (auto simp: car_moved_def car_frame_def)
qed

lemma update_loop_moved:
  "rng_ok g \<Longrightarrow> update_loop g cs l s = (cs', l', s') \<Longrightarrow>
   list_all2 (car_moved (state l) (priority_active l)) cs cs'"
proof (induction g cs l s arbitrary: cs' l' s' rule: update_loop.induct)
  case (2 g c cs l s)
  obtain c1 s1 where m: "move g (state l) (priority_active l) c s = (c1, s1)"
    by (cases "move g (state l) (priority_active l) c s")
  note mv = move_car_moved[OF "2.prems"(1) m]
  show ?case
  proof (cases "800 < position c1 \<and> \<not> passed c1")
    case True
    obtain cs2 l2 s2 where r: "update_loop g cs (vehicle_passed l) s1 = (cs2, l2, s2)"
      by (cases "update_loop g cs (vehicle_passed l) s1")
    from m r True have "update_loop g (c # cs) l s = (c1\<lparr>passed := True\<rparr> # cs2, l2, s2)" by simp
    with "2.prems"(2) have "cs' = c1\<lparr>passed := True\<rparr> # cs2" by simp
    with "2.IH"(1)[OF m[symmetric] refl True "2.prems"(1) r] True mv show ?thesis
      by (simp add: vehicle_passed_def)
  next
    case False
    obtain cs2 l2 s2 where r: "update_loop g cs l s1 = (cs2, l2, s2)"
      by (cases "update_loop g cs l s1")
    from m r False have "update_loop g (c # cs) l s = (c1 # cs2, l2, s2)" by (simp add: if_not_P)
    with "2.prems"(2) have "cs' = c1 # cs2" by simp
    with "2.IH"(2)[OF m[symmetric] refl False "2.prems"(1) r] False mv show ?thesis
      by (simp add: if_not_P)
  qed
qed simp

text \<open>
  Every increment of the pass counter marks a car that was not marked before, and (under
  \<open>car_ok\<close>) every car newly marked was counted: the counter grows by exactly the number
  of cars newly marked passed.
\<close>

lemma update_loop_count:
  "update_loop g cs l s = (cs', l', s') \<Longrightarrow> \<forall>c\<in>set cs. car_ok c \<Longrightarrow>
   total_vehicles_passed l' + length (filter passed cs) =
   total_vehicles_passed l + length (filter passed cs')"
proof (induction g cs l s arbitrary: cs' l' s' rule: update_loop.induct)
  case (2 g c cs l s)
  obtain c1 s1 where m: "move g (state l) (priority_active l) c s = (c1, s1)"
    by (cases "move g (state l) (priority_active l) c s")
  from "2.prems"(2) have ok: "car_ok c" and oks: "\<forall>c\<in>set cs. car_ok c" by auto
  have mono: "passed c \<Longrightarrow> passed c1"
    using move_passed_mono[of c g "state l" "priority_active l" s] m by simp
  have keep: "\<not> passed c \<Longrightarrow> \<not> passed c1"
  proof -
    assume np: "\<not> passed c"
    with ok have "position c \<le> 800" "0 \<le> speed c" "speed c \<le> 95" by (auto simp: car_ok_def)
    from move_no_jump[OF this, of g "state l" "priority_active l" s] m
    have "c1 = drive (state l) (priority_active l) c" by simp
    with np show "\<not> passed c1" by simp
  qed
  show ?case
  proof (cases "800 < position c1 \<and> \<not> passed c1")
    case True
    obtain cs2 l2 s2 where r: "update_loop g cs (vehicle_passed l) s1 = (cs2, l2, s2)"
      by (cases "update_loop g cs (vehicle_passed l) s1")
    from "2.IH"(1)[OF m[symmetric] refl True r oks] "2.prems"(1) m True r mono show ?thesis
      by (auto simp: vehicle_passed_def)
  next
    case False
    obtain cs2 l2 s2 where r: "update_loop g cs l s1 = (cs2, l2, s2)"
      by (cases "update_loop g cs l s1")
    from m r have e: "update_loop g (c # cs) l s = (c1 # cs2, l2, s2)"
      by (simp add: if_not_P[OF False])
    have "passed c1 = passed c" using mono keep by blast
    with "2.IH"(2)[OF m[symmetric] refl False r oks] "2.prems"(1) e show ?thesis
      by simp
  qed
qed simp

section \<open>The invariant of the manager\<close>

lemma speeds_ok_CONFIG: "speeds_ok CONFIG"
  by (simp add: speeds_ok_def CONFIG_def)

lemma CAR_TYPES_speed:
  "speeds_ok cfg \<Longrightarrow> 0 \<le> info_speed (CAR_TYPES cfg t) \<and> info_speed (CAR_TYPES cfg t) \<le> 95"
  by (cases t) (simp_all add: speeds_ok_def)

lemma spawned_car_ok: "speeds_ok cfg \<Longrightarrow> spawned_car cfg c \<Longrightarrow> car_ok c"
  using CAR_TYPES_speed[of cfg "ctype c"] by (simp add: spawned_car_def car_ok_def)

lemma mgr_inv_init: "0 \<le> MAX_CARS_PER_LANE cfg \<Longrightarrow> mgr_inv cfg (TrafficManager_init cfg now)"
  by (simp add: mgr_inv_def TrafficManager_init_def lanes_ok_def)

lemma spawn_cars_inv:
  assumes "rng_ok g" and "speeds_ok cfg" and "mgr_inv cfg m"
  shows "mgr_inv cfg (fst (spawn_cars cfg (CAR_TYPES cfg) g now m s))"
  using spawn_cars_cases[OF assms(1), of cfg now m s]
proof (elim disjE exE conjE)
  fix c
  assume e: "fst (spawn_cars cfg (CAR_TYPES cfg) g now m s) = m\<lparr>last_spawn_time := now, cars := cars m @ [c]\<rparr>"
    and len: "int (length (cars m)) < MAX_CARS_PER_LANE cfg * 4" and sp: "spawned_car cfg c"
  from sp have "lane c \<in> {0, 1, 2, 3}" and "\<not> passed c" by (simp_all add: spawned_car_def)
  with spawned_car_ok[OF assms(2) sp] assms(3) len e show ?thesis
    by (simp add: mgr_inv_def lanes_ok_def)
qed (use assms(3) in \<open>simp_all add: mgr_inv_def\<close>)

lemma update_cars_inv:
  assumes "mgr_inv cfg m"
  shows "mgr_inv cfg (fst (update_cars g m s))"
proof -
  obtain cs l s' where r: "update_loop g (cars m) (light m) s = (cs, l, s')"
    by (cases "update_loop g (cars m) (light m) s")
  have rel: "list_all2 car_frame (cars m) cs" by (rule update_loop_cars[OF r])
  from assms have oks: "\<forall>c\<in>set (cars m). car_ok c" by (simp add: mgr_inv_def)
  have cnt: "total_vehicles_passed l + length (filter passed (cars m)) =
             total_vehicles_passed (light m) + length (filter passed cs)"
    by (rule update_loop_count[OF r oks])
  have len: "length cs = length (cars m)" using rel by (rule list_all2_lengthD[symmetric])
  have "\<forall>c\<in>set (cars m). lane c \<in> {0, 1, 2, 3}"
    using assms by (simp add: mgr_inv_def lanes_ok_def)
  then have lanes: "lanes_ok cs"
    unfolding lanes_ok_def by (rule list_all2_set_transfer[OF rel]) (simp add: car_frame_def)
  have cok: "\<forall>c\<in>set cs. car_ok c"
    by (rule list_all2_set_transfer[OF rel oks]) (auto simp: car_frame_def car_ok_def)
  let ?keep = "\<lambda>c. position c < 900 \<or> \<not> passed c"
  have "filter passed (filter ?keep cs) = filter ?keep (filter passed cs)"
    by (simp add: filter_filter conj_commute)
  then have "length (filter passed (filter ?keep cs)) \<le> length (filter passed cs)"
    by (metis length_filter_le)
  moreover have "length (filter passed cs) \<le> total_vehicles_passed l"
    using cnt assms by (simp add: mgr_inv_def)
  moreover have "length (filter ?keep cs) \<le> length cs" by (rule length_filter_le)
  ultimately show ?thesis
    using r lanes cok len assms
    by (auto simp: mgr_inv_def update_cars_def lanes_ok_def)
qed

section \<open>The tick\<close>

lemma mgr_inv_light_update:
  "total_vehicles_passed l = total_vehicles_passed (light m) \<Longrightarrow>
   mgr_inv cfg (m\<lparr>light := l\<rparr>) = mgr_inv cfg m"
  by (simp add: mgr_inv_def)

lemma tick_unfold:
  "tick cfg g cyc now w =
     (let l = fst (update_priority now (light (manager w)) (logger w));
          lg = snd (update_priority now (light (manager w)) (logger w));
          m2 = fst (spawn_cars cfg (CAR_TYPES cfg) g now ((manager w)\<lparr>light := l\<rparr>) (rng_state w));
          s1 = snd (spawn_cars cfg (CAR_TYPES cfg) g now ((manager w)\<lparr>light := l\<rparr>) (rng_state w));
          m3 = fst (update_cars g m2 s1)
      in w\<lparr>manager := m3, logger := lg, rng_state := snd (update_cars g m2 s1),
           data_file := Some (write_simulation_data cfg now cyc m3 lg)\<rparr>)"
  by (simp add: tick_def Let_def split: prod.split)

lemma update_cars_light:
  "\<exists>k. light (fst (update_cars g m s)) =
        (light m)\<lparr>total_vehicles_passed := total_vehicles_passed (light m) + k\<rparr>"
proof -
  obtain cs l s' where r: "update_loop g (cars m) (light m) s = (cs, l, s')"
    by (cases "update_loop g (cars m) (light m) s")
  from update_loop_light[OF r] r show ?thesis by (simp add: update_cars_def)
qed

text \<open>A tick leaves the phase, its timer and the cycle counter alone; its only log is the
  expiry of a priority window.\<close>

lemma tick_frame:
  "state (light (manager (tick cfg g cyc now w))) = state (light (manager w)) \<and>
   timer (light (manager (tick cfg g cyc now w))) = timer (light (manager w)) \<and>
   start_time (light (manager (tick cfg g cyc now w))) = start_time (light (manager w)) \<and>
   cycle_count (light (manager (tick cfg g cyc now w))) = cycle_count (light (manager w)) \<and>
   total_vehicles_passed (light (manager w)) \<le> total_vehicles_passed (light (manager (tick cfg g cyc now w))) \<and>
   logger (tick cfg g cyc now w) = snd (update_priority now (light (manager w)) (logger w))"
proof -
  let ?m1 = "(manager w)\<lparr>light := fst (update_priority now (light (manager w)) (logger w))\<rparr>"
  let ?m2 = "fst (spawn_cars cfg (CAR_TYPES cfg) g now ?m1 (rng_state w))"
  obtain k where "light (fst (update_cars g ?m2 (snd (spawn_cars cfg (CAR_TYPES cfg) g now ?m1 (rng_state w))))) =
                  (light ?m2)\<lparr>total_vehicles_passed := total_vehicles_passed (light ?m2) + k\<rparr>"
    using update_cars_light[of g ?m2 "snd (spawn_cars cfg (CAR_TYPES cfg) g now ?m1 (rng_state w))"] by blast
  then show ?thesis by (simp add: tick_unfold Let_def)
qed

lemma tick_inv:
  assumes "rng_ok g" and "speeds_ok cfg" and "mgr_inv cfg (manager w)"
  shows "mgr_inv cfg (manager (tick cfg g cyc now w))"
proof -
  let ?l = "fst (update_priority now (light (manager w)) (logger w))"
  have "mgr_inv cfg ((manager w)\<lparr>light := ?l\<rparr>)"
    using assms(3) by (simp add: mgr_inv_light_update)
  then have "mgr_inv cfg (fst (spawn_cars cfg (CAR_TYPES cfg) g now ((manager w)\<lparr>light := ?l\<rparr>) (rng_state w)))"
    by (rule spawn_cars_inv[OF assms(1,2)])
  then show ?thesis
    by (simp add: tick_unfold Let_def update_cars_inv)
qed

text \<open>
  C4: Every tick keeps the invariant of the manager: lanes stay in 0..3, the population
  stays within MAX_CARS_PER_LANE * 4, every car is either marked passed or not beyond
  800, and the cars marked passed never outnumber the pass counter.
\<close>

theorem tick_mgr_inv:
  assumes "rng_ok g" and "speeds_ok cfg" and "mgr_inv cfg (manager w)"
  shows "mgr_inv cfg (manager (tick cfg g cyc now w))"
  using assms by (rule tick_inv)

theorem tick_mgr_inv_witness:
  "mgr_inv CONFIG (manager (tick CONFIG demo_rng 1 3 demo_world))"
proof -
  have "mgr_inv CONFIG (manager demo_world)"
    by (simp add: demo_world_def mgr_inv_init CONFIG_def)
  then show ?thesis by (rule tick_mgr_inv[OF rng_ok_demo_rng speeds_ok_CONFIG])
qed

text \<open>
  C13: \<^verbatim>\<open>update_cars\<close> moves every car one step under the light's phase and
  priority flag (as \<open>drive\<close> below the exit, respawned in [-200, -50] beyond it),
  never unmarks a car, keeps the cars before 900 or not passed, and raises the pass
  counter by exactly the number of cars it newly marks passed, when every car is either
  marked or not beyond 800 and drives at most 95 per tick.
\<close>

theorem update_cars_pass_count:
  assumes "rng_ok g" and "\<forall>c\<in>set (cars m). car_ok c"
  shows "\<exists>cs. list_all2 (car_moved (state (light m)) (priority_active (light m))) (cars m) cs \<and>
              cars (fst (update_cars g m s)) = filter (\<lambda>c. position c < 900 \<or> \<not> passed c) cs \<and>
              total_vehicles_passed (light (fst (update_cars g m s))) + length (filter passed (cars m)) =
              total_vehicles_passed (light m) + length (filter passed cs)"
proof -
  obtain cs l s' where r: "update_loop g (cars m) (light m) s = (cs, l, s')"
    by (cases "update_loop g (cars m) (light m) s")
  from update_loop_moved[OF assms(1) r] update_loop_count[OF r assms(2)] r show ?thesis
    by (auto simp: update_cars_def)
qed

theorem update_cars_pass_count_witness:
  "\<exists>cs. list_all2 (car_moved Red False) demo_cars cs \<and>
        cars (fst (update_cars demo_rng ((manager demo_world)\<lparr>cars := demo_cars\<rparr>) 0)) =
          filter (\<lambda>c. position c < 900 \<or> \<not> passed c) cs \<and>
        total_vehicles_passed (light (fst (update_cars demo_rng ((manager demo_world)\<lparr>cars := demo_cars\<rparr>) 0))) +
          length (filter passed demo_cars) =
        total_vehicles_passed (light ((manager demo_world)\<lparr>cars := demo_cars\<rparr>)) + length (filter passed cs)"
proof -
  have "\<forall>c\<in>set (cars ((manager demo_world)\<lparr>cars := demo_cars\<rparr>)). car_ok c"
    by (simp add: demo_cars_eq car_ok_def)
  from update_cars_pass_count[OF rng_ok_demo_rng this, of 0] show ?thesis
    by (simp add: demo_world_def TrafficManager_init_def SmartTrafficLight_init_def)
qed

text \<open>
  C21: A car already marked passed never increases the pass counter again: after a car is
  respawned (which keeps it marked), its later crossings of 800 are not counted.
\<close>

theorem update_loop_passed_not_counted:
  "\<forall>c\<in>set cs. passed c \<Longrightarrow> update_loop g cs l s = (cs', l', s') \<Longrightarrow>
   total_vehicles_passed l' = total_vehicles_passed l"
proof (induction g cs l s arbitrary: cs' l' s' rule: update_loop.induct)
  case (2 g c cs l s)
  obtain c1 s1 where m: "move g (state l) (priority_active l) c s = (c1, s1)"
    by (cases "move g (state l) (priority_active l) c s")
  from "2.prems"(1) have "passed c1"
    using move_passed_mono[of c g "state l" "priority_active l" s] m by simp
  then have nc: "\<not> (800 < position c1 \<and> \<not> passed c1)" by simp
  obtain cs2 l2 s2 where r: "update_loop g cs l s1 = (cs2, l2, s2)"
    by (cases "update_loop g cs l s1")
  from m r have "update_loop g (c # cs) l s = (c1 # cs2, l2, s2)"
    by (simp add: if_not_P[OF nc])
  moreover from "2.prems"(1) have "\<forall>c\<in>set cs. passed c" by simp
  ultimately show ?case using "2.IH"(2)[OF m[symmetric] refl nc _ r] "2.prems"(2) by simp
qed simp

theorem update_loop_passed_not_counted_witness:
  "total_vehicles_passed (fst (snd (update_loop demo_rng
      [demo_ambulance\<lparr>position := 795, passed := True\<rparr>] (SmartTrafficLight_init 0) 0))) = 0 \<and>
   800 < position (hd (fst (update_loop demo_rng
      [demo_ambulance\<lparr>position := 795, passed := True\<rparr>]
      ((SmartTrafficLight_init 0)\<lparr>state := Green\<rparr>) 0)))"
proof -
  have "\<forall>c\<in>set [demo_ambulance\<lparr>position := 795, passed := True\<rparr>]. passed c" by simp
  from update_loop_passed_not_counted[OF this, of demo_rng "SmartTrafficLight_init 0" 0]
  have "total_vehicles_passed (fst (snd (update_loop demo_rng
      [demo_ambulance\<lparr>position := 795, passed := True\<rparr>] (SmartTrafficLight_init 0) 0))) = 0"
    by (metis prod.collapse SmartTrafficLight_init_def smart_traffic_light.select_convs(8))
  moreover have "800 < position (hd (fst (update_loop demo_rng
      [demo_ambulance\<lparr>position := 795, passed := True\<rparr>]
      ((SmartTrafficLight_init 0)\<lparr>state := Green\<rparr>) 0)))"
    by (simp add: SmartTrafficLight_init_def demo_ambulance_eq move_def drive_def)
  ultimately show ?thesis by blast
qed

text \<open>
  The snapshot a tick writes is taken after the spawn and the move of that tick: it
  shows the tick's final cars, light and log.
\<close>

theorem tick_snapshot_current:
  "data_file (tick cfg g cyc now w) =
   Some (write_simulation_data cfg now cyc (manager (tick cfg g cyc now w)) (logger (tick cfg g cyc now w)))"
  by (simp add: tick_def Let_def split: prod.split)

end
