(* ===== verification/Cycle.thy ===== *)
theory Cycle
  imports Manager
begin

text \<open>
  The control loops: \<^verbatim>\<open>TrafficManager.run_cycle\<close> (lines 325--368) and
  \<^verbatim>\<open>run_simulation\<close> with the module-level start-up (lines 859--894), and their
  second copies (lines 1223--1282 and 1755--1790).

  \<^bold>\<open>Clock.\<close> The phase loop \<^verbatim>\<open>while time.time() - start_state_time < duration\<close>
  ends when the clock says so. The model takes the clock readings as a list: each
  iteration consumes one reading, used for its guard and for every clock read in its body.
  The code's reads within one iteration are microseconds apart. A reading that fails the
  guard ends the phase and starts the next one. Running out of readings is \<open>None\<close>:
  the run did not finish within the readings given. \<open>ideal_clock\<close> is the clock of the
  \<^verbatim>\<open>time.sleep(0.5)\<close> pacing with no time spent computing: with it a phase of
  \<open>d\<close> seconds runs exactly \<open>2 d\<close> ticks.

  \<^bold>\<open>Two copies.\<close> \<open>run_cycle_with\<close> is the method body with its two
  collaborators as parameters: the timing rule and the loop body.
  \<open>run_cycle\<close> is the first copy, with \<open>calculate_light_times\<close> and \<open>tick\<close>.
  \<open>run_cycle_v2\<close> is the second copy, with \<open>calculate_light_times_v2\<close> and
  \<open>tick_v2\<close>. In that copy \<^verbatim>\<open>write_simulation_data\<close> is a local function nested
  in \<^verbatim>\<open>run_cycle\<close> (line 1268), not a method, so \<^verbatim>\<open>self.write_simulation_data\<close>
  at line 1260 raises \<^verbatim>\<open>AttributeError\<close> after the move. A cycle whose loops never
  run a body ends in the method's last statements, \<open>tail_v2\<close>.

  \<^bold>\<open>Priority windows.\<close> A window opened at the start of a cycle lasts green + 2
  seconds; \<open>run_cycle_closes_window\<close> shows that under the pacing clock the last tick
  of the yellow phase comes after it, so the window has closed when the cycle ends.

  \<^bold>\<open>Results.\<close> A run ends in \<open>Inl (w, t, e)\<close> when exception \<open>e\<close> is raised
  at clock reading \<open>t\<close> in world \<open>w\<close>, and in \<open>Inr (w, t, ts)\<close> when it finishes
  at reading \<open>t\<close> with readings \<open>ts\<close> left.
\<close>

type_synonym 'r run_result = "('r world \<times> real \<times> py_error + 'r world \<times> real \<times> real list) option"

text \<open>The loop body of the second copy: as \<open>tick\<close>, but the snapshot call raises.\<close>

definition tick_v2 :: "config \<Rightarrow> 'r rng \<Rightarrow> nat \<Rightarrow> real \<Rightarrow> 'r world \<Rightarrow> py_error + 'r world" where
  "tick_v2 cfg g current_cycle now w =
     (let (l, lg) = update_priority now (light (manager w)) (logger w);
          m1 = (manager w)\<lparr>light := l\<rparr>;
          (m2, s1) = spawn_cars cfg (CAR_TYPES_v2 cfg) g now m1 (rng_state w);
          (m3, s2) = update_cars g m2 s1
      in Inl AttributeError)"

text \<open>
  The world a \<open>tick_v2\<close> leaves behind when it raises: the spawn and the move have
  happened, the snapshot has not.
\<close>

definition tick_v2_state :: "config \<Rightarrow> 'r rng \<Rightarrow> real \<Rightarrow> 'r world \<Rightarrow> 'r world" where
  "tick_v2_state cfg g now w =
     (let (l, lg) = update_priority now (light (manager w)) (logger w);
          m1 = (manager w)\<lparr>light := l\<rparr>;
          (m2, s1) = spawn_cars cfg (CAR_TYPES_v2 cfg) g now m1 (rng_state w);
          (m3, s2) = update_cars g m2 s1
      in w\<lparr>manager := m3, logger := lg, rng_state := s2\<rparr>)"

text \<open>The phase loop, lines 350--364, with a loop body that may raise.\<close>

fun run_phase ::
  "(real \<Rightarrow> 'r world \<Rightarrow> py_error + 'r world) \<Rightarrow> (real \<Rightarrow> 'r world \<Rightarrow> 'r world) \<Rightarrow>
   real \<Rightarrow> int \<Rightarrow> real list \<Rightarrow> 'r world \<Rightarrow> 'r run_result" where
  "run_phase body err_state start dur [] w = None"
| "run_phase body err_state start dur (t # ts) w =
     (if t - start < of_int dur
      then (case body t w of
              Inl e \<Rightarrow> Some (Inl (err_state t w, t, e))
            | Inr w' \<Rightarrow> run_phase body err_state start dur ts w')
      else Some (Inr (w, t, ts)))"

text \<open>
  The phases of \<^verbatim>\<open>light_sequence\<close>, in order (lines 347--366). Each phase takes one
  clock reading for \<^verbatim>\<open>set_state\<close> and \<^verbatim>\<open>start_state_time\<close>, then the readings of
  its loop; the reading that ends the loop stamps the phase-end log. The reading argument
  is the last one consumed.
\<close>

fun run_phases ::
  "(real \<Rightarrow> 'r world \<Rightarrow> py_error + 'r world) \<Rightarrow> (real \<Rightarrow> 'r world \<Rightarrow> 'r world) \<Rightarrow> nat \<Rightarrow>
   (light_state \<times> int) list \<Rightarrow> real \<Rightarrow> real list \<Rightarrow> 'r world \<Rightarrow> 'r run_result" where
  "run_phases body err_state cyc [] t ts w = Some (Inr (w, t, ts))"
| "run_phases body err_state cyc (p # ps) t [] w = None"
| "run_phases body err_state cyc ((st, dur) # ps) t (t0 # ts) w =
     (let (l, lg) = set_state t0 st dur (light (manager w)) (logger w);
          w1 = w\<lparr>manager := (manager w)\<lparr>light := l\<rparr>, logger := lg\<rparr>
      in case run_phase body err_state t0 dur ts w1 of
           None \<Rightarrow> None
         | Some (Inl r) \<Rightarrow> Some (Inl r)
         | Some (Inr (w2, t2, ts2)) \<Rightarrow>
             run_phases body err_state cyc ps t2 ts2
               (w2\<lparr>logger := logger_log t2 (Msg_phase_end st cyc) INFO (logger w2)\<rparr>))"

text \<open>
  \<^verbatim>\<open>run_cycle(cycle_number)\<close> at the clock reading \<open>t\<close> that starts the cycle:
  log, scan, decide, open a priority window if the scan found a priority vehicle, run
  the three phases, count the cycle.
\<close>

definition run_cycle_with ::
  "('r rng \<Rightarrow> real \<Rightarrow> traffic_data \<Rightarrow> nat \<Rightarrow> 'r \<Rightarrow> traffic_logger \<Rightarrow>
      py_error + (int \<times> int \<times> int) \<times> 'r \<times> traffic_logger) \<Rightarrow>
   (nat \<Rightarrow> real \<Rightarrow> 'r world \<Rightarrow> py_error + 'r world) \<Rightarrow> (real \<Rightarrow> 'r world \<Rightarrow> 'r world) \<Rightarrow>
   ('r world \<Rightarrow> 'r world \<times> py_error option) \<Rightarrow>
   'r rng \<Rightarrow> nat \<Rightarrow> real \<Rightarrow> real list \<Rightarrow> 'r world \<Rightarrow> 'r run_result" where
  "run_cycle_with decide body err_state tail g cycle_number t ts w =
     (let lg0 = logger_log t (Msg_cycle_start cycle_number) CYCLE (logger w);
          m = manager w
      in case scan_traffic t (cars m) cycle_number (sensor m) lg0 of
           Inl e \<Rightarrow> Some (Inl (w\<lparr>logger := lg0\<rparr>, t, e))
         | Inr (td, sn, lg1) \<Rightarrow>
             (case decide g t td cycle_number (rng_state w) lg1 of
                Inl e \<Rightarrow> Some (Inl (w\<lparr>manager := m\<lparr>sensor := sn\<rparr>, logger := lg1\<rparr>, t, e))
              | Inr ((red_time, green_time, yellow_time), s, lg2) \<Rightarrow>
                  (let (l, lg3) = (case td_priority td of
                                     None \<Rightarrow> (light m, lg2)
                                   | Some ty \<Rightarrow> activate_priority t ty (green_time + 2) (light m) lg2);
                       w1 = w\<lparr>manager := m\<lparr>sensor := sn, light := l\<rparr>, logger := lg3, rng_state := s\<rparr>
                   in case run_phases (body cycle_number) err_state cycle_number
                             [(Red, red_time), (Green, green_time), (Yellow, yellow_time)] t ts w1 of
                        None \<Rightarrow> None
                      | Some (Inl r) \<Rightarrow> Some (Inl r)
                      | Some (Inr (w2, t2, ts2)) \<Rightarrow>
                          (let w3 = w2\<lparr>manager := (manager w2)\<lparr>light := increment_cycle (light (manager w2))\<rparr>\<rparr>
                           in case tail w3 of
                                (w4, None) \<Rightarrow> Some (Inr (w4, t2, ts2))
                              | (w4, Some e) \<Rightarrow> Some (Inl (w4, t2, e))))))"

definition run_cycle :: "config \<Rightarrow> 'r rng \<Rightarrow> nat \<Rightarrow> real \<Rightarrow> real list \<Rightarrow> 'r world \<Rightarrow> 'r run_result" where
  "run_cycle cfg g =
     run_cycle_with (calculate_light_times cfg) (\<lambda>c t w. Inr (tick cfg g c t w)) (\<lambda>t w. w)
       (\<lambda>w. (w, None)) g"

text \<open>
  The end of the second copy's \<^verbatim>\<open>run_cycle\<close> (lines 1268--1281): the nested
  \<^verbatim>\<open>def\<close> binds only a local function; the \<^verbatim>\<open>with\<close> block after it is part of
  \<^verbatim>\<open>run_cycle\<close>, opens the snapshot file for writing (truncating it) and reads the
  unbound name \<^verbatim>\<open>data\<close>.
\<close>

definition tail_v2 :: "'r world \<Rightarrow> 'r world \<times> py_error option" where
  "tail_v2 w = (w\<lparr>data_file := None\<rparr>, Some NameError)"

definition run_cycle_v2 :: "config \<Rightarrow> 'r rng \<Rightarrow> nat \<Rightarrow> real \<Rightarrow> real list \<Rightarrow> 'r world \<Rightarrow> 'r run_result" where
  "run_cycle_v2 cfg g =
     run_cycle_with (calculate_light_times_v2 cfg) (tick_v2 cfg g) (tick_v2_state cfg g)
       tail_v2 g"

text \<open>
  The cycle loop of \<^verbatim>\<open>run_simulation\<close> (lines 876--881); the next cycle starts at the
  next clock reading, after the pause of \<^verbatim>\<open>time.sleep(2)\<close>.
\<close>

fun run_cycles ::
  "(nat \<Rightarrow> real \<Rightarrow> real list \<Rightarrow> 'r world \<Rightarrow> 'r run_result) \<Rightarrow> nat list \<Rightarrow>
   real \<Rightarrow> real list \<Rightarrow> 'r world \<Rightarrow> 'r run_result" where
  "run_cycles cyc_fn [] t ts w = Some (Inr (w, t, ts))"
| "run_cycles cyc_fn (c # cs) t ts w =
     (case cyc_fn c t ts w of
        None \<Rightarrow> None
      | Some (Inl r) \<Rightarrow> Some (Inl r)
      | Some (Inr (w', t', ts')) \<Rightarrow>
          (if cs = [] then Some (Inr (w', t', ts'))
           else case ts' of [] \<Rightarrow> None | t'' # ts'' \<Rightarrow> run_cycles cyc_fn cs t'' ts'' w'))"

text \<open>
  \<^verbatim>\<open>run_simulation()\<close> (lines 872--887): \<open>bound\<close> says whether the global name
  \<^verbatim>\<open>traffic_manager\<close> is bound when the thread runs. Any exception of a cycle is
  caught, logged at level ERROR, and ends the run.
\<close>

definition run_simulation ::
  "config \<Rightarrow> (nat \<Rightarrow> real \<Rightarrow> real list \<Rightarrow> 'r world \<Rightarrow> 'r run_result) \<Rightarrow> bool \<Rightarrow>
   real \<Rightarrow> real list \<Rightarrow> 'r world \<Rightarrow> 'r world option" where
  "run_simulation cfg cyc_fn bound t ts w =
     (let w0 = w\<lparr>logger := logger_log t Msg_sim_start SYSTEM (logger w)\<rparr>
      in if \<not> bound
         then Some (w0\<lparr>logger := logger_log t (Msg_sim_error NameError) ERROR (logger w0)\<rparr>)
         else (case run_cycles cyc_fn [1..<nat (MAX_CYCLES cfg) + 1] t ts w0 of
                 None \<Rightarrow> None
               | Some (Inl (w1, t1, e)) \<Rightarrow>
                   Some (w1\<lparr>logger := logger_log t1 (Msg_sim_error e) ERROR (logger w1)\<rparr>)
               | Some (Inr (w1, t1, ts1)) \<Rightarrow>
                   Some (w1\<lparr>logger := logger_log t1
                                (Msg_sim_done (total_vehicles_passed (light (manager w1)))) SYSTEM
                                (logger w1)\<rparr>)))"

text \<open>
  The module-level start-up of the first copy (lines 866--891). Because of its
  indentation, \<^verbatim>\<open>traffic_manager = TrafficManager()\<close> (line 870) is inside
  \<^verbatim>\<open>if os.path.exists(LOG_FILE):\<close>, so the manager is bound only when a log file was
  left by an earlier run. The second copy's \<^verbatim>\<open>main\<close> (lines 1755--1787) always binds it.
\<close>

definition initial_world :: "config \<Rightarrow> real \<Rightarrow> 'r \<Rightarrow> 'r world" where
  "initial_world cfg t s =
     \<lparr>manager = TrafficManager_init cfg t, logger = new_logger (LOG_FILE cfg), rng_state = s,
      data_file = None\<rparr>"

definition main_v1 ::
  "config \<Rightarrow> 'r rng \<Rightarrow> bool \<Rightarrow> real \<Rightarrow> real list \<Rightarrow> 'r \<Rightarrow> 'r world option" where
  "main_v1 cfg g log_exists t ts s =
     run_simulation cfg (run_cycle cfg g) log_exists t ts (initial_world cfg t s)"

definition main_v2 ::
  "config \<Rightarrow> 'r rng \<Rightarrow> real \<Rightarrow> real list \<Rightarrow> 'r \<Rightarrow> 'r world option" where
  "main_v2 cfg g t ts s =
     run_simulation cfg (run_cycle_v2 cfg g) True t ts (initial_world cfg t s)"

text \<open>The clock of the 0.5 s pacing: \<open>n\<close> readings from \<open>start\<close> on.\<close>

definition ideal_clock :: "real \<Rightarrow> nat \<Rightarrow> real list" where
  "ideal_clock start n = map (\<lambda>k. start + of_nat k / 2) [0..<n]"

definition phase_clock :: "real \<Rightarrow> int \<Rightarrow> real list" where
  "phase_clock t0 d = t0 # ideal_clock t0 (2 * nat d + 1)"

text \<open>The readings of consecutive phases of the given lengths, the first starting at \<open>t\<close>.\<close>

fun phases_clock :: "real \<Rightarrow> int list \<Rightarrow> real list" where
  "phases_clock t [] = []"
| "phases_clock t (d # ds) = phase_clock t d @ phases_clock (t + of_int d) ds"

text \<open>The messages that mark the phases: a light set and a phase end.\<close>

fun phase_msg :: "log_msg \<Rightarrow> bool" where
  "phase_msg (Msg_light_set st d) = True"
| "phase_msg (Msg_phase_end st c) = True"
| "phase_msg m = False"

definition phase_trace :: "traffic_logger \<Rightarrow> log_msg list" where
  "phase_trace lg = filter phase_msg (map message (entries lg))"

text \<open>A configuration for concrete runs: one cycle of one-second phases.\<close>

definition quick_config :: config where
  "quick_config =
     CONFIG\<lparr>LIGHT_MIN := 1, LIGHT_MAX := 1, YELLOW_MIN := 1, YELLOW_MAX := 1, MAX_CYCLES := 1\<rparr>"

text \<open>A priority window, if open, ends at \<open>E\<close>.\<close>

definition window_until :: "real \<Rightarrow> smart_traffic_light \<Rightarrow> bool" where
  "window_until E l \<longleftrightarrow> (priority_active l \<longrightarrow> priority_end_time l = E)"

section \<open>The phase loop\<close>

lemma foldl_inv:
  "P w \<Longrightarrow> (\<And>t w. P w \<Longrightarrow> P (f t w)) \<Longrightarrow> P (foldl (\<lambda>w t. f t w) w xs)"
  by (induction xs arbitrary: w) auto

lemma run_phase_prefix:
  assumes "\<forall>x\<in>set xs. x - start < of_int dur" and "\<not> t - start < of_int dur"
  shows "run_phase (\<lambda>t w. Inr (f t w)) es start dur (xs @ t # ys) w =
         Some (Inr (foldl (\<lambda>w t. f t w) w xs, t, ys))"
  using assms(1) by (induction xs arbitrary: w) (simp_all add: assms(2))

lemma run_phase_result:
  "run_phase (\<lambda>t w. Inr (f t w)) es start dur ts w = Some r \<Longrightarrow>
   \<exists>xs t ys. ts = xs @ t # ys \<and> (\<forall>x\<in>set xs. x - start < of_int dur) \<and>
             of_int dur \<le> t - start \<and> r = Inr (foldl (\<lambda>w t. f t w) w xs, t, ys)"
proof (induction ts arbitrary: w)
  case (Cons t ts)
  show ?case
  proof (cases "t - start < of_int dur")
    case True
    with Cons.prems obtain xs t' ys where
      "ts = xs @ t' # ys" "\<forall>x\<in>set xs. x - start < of_int dur" "of_int dur \<le> t' - start"
      "r = Inr (foldl (\<lambda>w t. f t w) (f t w) xs, t', ys)"
      using Cons.IH[of "f t w"] by auto
    with True show ?thesis by (intro exI[of _ "t # xs"]) auto
  next
    case False
    with Cons.prems show ?thesis by (intro exI[of _ "[]"]) auto
  qed
qed simp

lemma run_phase_inv:
  "run_phase (\<lambda>t w. Inr (f t w)) es start dur ts w = Some (Inr (w', t', ts')) \<Longrightarrow> P w \<Longrightarrow>
   (\<And>t w. P w \<Longrightarrow> P (f t w)) \<Longrightarrow> P w'"
  by (auto dest!: run_phase_result intro: foldl_inv)

lemma ideal_clock_Suc: "ideal_clock s (Suc n) = ideal_clock s n @ [s + of_nat n / 2]"
  by (simp add: ideal_clock_def)

lemma ideal_clock_before:
  "x \<in> set (ideal_clock t0 (2 * nat d)) \<Longrightarrow> x - t0 < of_int d"
  by (auto simp: ideal_clock_def)

lemma run_phase_ideal:
  assumes "0 \<le> d"
  shows "run_phase (\<lambda>t w. Inr (f t w)) es t0 d (ideal_clock t0 (2 * nat d + 1) @ ys) w =
         Some (Inr (foldl (\<lambda>w t. f t w) w (ideal_clock t0 (2 * nat d)), t0 + of_int d, ys))"
proof -
  have e: "real (nat d) = of_int d" using assms by simp
  have "\<forall>x\<in>set (ideal_clock t0 (2 * nat d)). x - t0 < of_int d"
    by (blast intro: ideal_clock_before)
  from run_phase_prefix[OF this, of "t0 + of_int d" f es ys w] show ?thesis
    by (simp add: ideal_clock_Suc e)
qed

lemma run_phases_ideal:
  assumes "\<forall>p\<in>set ps. 0 \<le> snd p"
  shows "\<exists>w'. run_phases (\<lambda>t w. Inr (f t w)) es cyc ps t0 (phases_clock t0 (map snd ps) @ ys) w =
              Some (Inr (w', t0 + of_int (sum_list (map snd ps)), ys))"
  using assms
proof (induction ps arbitrary: t0 w)
  case (Cons p ps)
  obtain st d where p: "p = (st, d)" by (cases p)
  with Cons.prems have d: "0 \<le> d" by simp
  obtain l lg where ss: "set_state t0 st d (light (manager w)) (logger w) = (l, lg)"
    by (cases "set_state t0 st d (light (manager w)) (logger w)")
  let ?w1 = "w\<lparr>manager := (manager w)\<lparr>light := l\<rparr>, logger := lg\<rparr>"
  let ?w2 = "foldl (\<lambda>w t. f t w) ?w1 (ideal_clock t0 (2 * nat d))"
  have r: "run_phase (\<lambda>t w. Inr (f t w)) es t0 d
             (ideal_clock t0 (2 * nat d + 1) @ phases_clock (t0 + of_int d) (map snd ps) @ ys) ?w1 =
           Some (Inr (?w2, t0 + of_int d, phases_clock (t0 + of_int d) (map snd ps) @ ys))"
    by (rule run_phase_ideal[OF d])
  from Cons.prems have "\<forall>p\<in>set ps. 0 \<le> snd p" by simp
  from Cons.IH[OF this, of "t0 + of_int d"] obtain w' where
    "run_phases (\<lambda>t w. Inr (f t w)) es cyc ps (t0 + of_int d) (phases_clock (t0 + of_int d) (map snd ps) @ ys)
       (?w2\<lparr>logger := logger_log (t0 + of_int d) (Msg_phase_end st cyc) INFO (logger ?w2)\<rparr>) =
     Some (Inr (w', t0 + of_int d + of_int (sum_list (map snd ps)), ys))"
    by blast
  with r show ?case
    by (simp add: p phase_clock_def ss algebra_simps)
qed simp

section \<open>The phases of a cycle\<close>

lemma phase_trace_log [simp]:
  "phase_trace (logger_log now m lvl lg) = phase_trace lg @ (if phase_msg m then [m] else [])"
  by (simp add: phase_trace_def)

lemma phase_trace_update_priority [simp]:
  "phase_trace (snd (update_priority now l lg)) = phase_trace lg"
  by (simp add: update_priority_def)

lemma run_phase_never_raises:
  "run_phase (\<lambda>t w. Inr (f t w)) es start dur ts w \<noteq> Some (Inl r)"
  by (induction ts arbitrary: w) auto

lemma run_phases_never_raises:
  "run_phases (\<lambda>t w. Inr (f t w)) es cyc ps t ts w \<noteq> Some (Inl r)"
proof (induction ps arbitrary: t ts w)
  case (Cons p ps)
  show ?case
  proof (cases ts)
    case (Cons t0 ts')
    obtain st d where "p = (st, d)" by (cases p)
    with Cons Cons.IH run_phase_never_raises[of f es t0 d ts'] show ?thesis
      by (auto simp: Let_def split: prod.split option.split sum.split)
  qed simp
qed simp

text \<open>A property kept by the loop body, by setting the light and by logging is kept by the
  phases.\<close>

lemma run_phases_inv:
  assumes "run_phases (\<lambda>t w. Inr (f t w)) es cyc ps t ts w = Some (Inr (w', t', ts'))"
    and "P w"
    and body: "\<And>t w. P w \<Longrightarrow> P (f t w)"
    and set: "\<And>t st d w. P w \<Longrightarrow>
               P (w\<lparr>manager := (manager w)\<lparr>light := fst (set_state t st d (light (manager w)) (logger w))\<rparr>,
                    logger := snd (set_state t st d (light (manager w)) (logger w))\<rparr>)"
    and log: "\<And>t m lvl w. P w \<Longrightarrow> P (w\<lparr>logger := logger_log t m lvl (logger w)\<rparr>)"
  shows "P w'"
  using assms(1,2)
proof (induction ps arbitrary: t ts w)
  case Nil
  then show ?case by simp
next
  case (Cons p ps)
  obtain st dur where p: "p = (st, dur)" by (cases p)
  obtain t0 ts0 where ts: "ts = t0 # ts0"
    using Cons.prems(1) by (cases ts) auto
  let ?w1 = "w\<lparr>manager := (manager w)\<lparr>light := fst (set_state t0 st dur (light (manager w)) (logger w))\<rparr>,
               logger := snd (set_state t0 st dur (light (manager w)) (logger w))\<rparr>"
  from Cons.prems(1) obtain w2 t2 ts2 where
    r: "run_phase (\<lambda>t w. Inr (f t w)) es t0 dur ts0 ?w1 = Some (Inr (w2, t2, ts2))" and
    rest: "run_phases (\<lambda>t w. Inr (f t w)) es cyc ps t2 ts2
             (w2\<lparr>logger := logger_log t2 (Msg_phase_end st cyc) INFO (logger w2)\<rparr>) = Some (Inr (w', t', ts'))"
    by (auto simp: p ts Let_def split: prod.splits option.splits sum.splits)
  have "P ?w1" using set Cons.prems(2) by blast
  then have "P w2" using run_phase_inv[OF r] body by blast
  then have "P (w2\<lparr>logger := logger_log t2 (Msg_phase_end st cyc) INFO (logger w2)\<rparr>)" by (rule log)
  with Cons.IH rest show ?case by blast
qed

lemma run_phases_tick_trace:
  assumes "run_phases (\<lambda>t w. Inr (tick cfg g c t w)) es c ps t ts w = Some (Inr (w', t', ts'))"
  shows "phase_trace (logger w') =
           phase_trace (logger w) @ concat (map (\<lambda>(st, d). [Msg_light_set st d, Msg_phase_end st c]) ps) \<and>
         cycle_count (light (manager w')) = cycle_count (light (manager w))"
  using assms
proof (induction ps arbitrary: t ts w)
  case Nil
  then show ?case by simp
next
  case (Cons p ps)
  obtain st dur where p: "p = (st, dur)" by (cases p)
  obtain t0 ts0 where ts: "ts = t0 # ts0"
    using Cons.prems(1) by (cases ts) auto
  let ?w1 = "w\<lparr>manager := (manager w)\<lparr>light := fst (set_state t0 st dur (light (manager w)) (logger w))\<rparr>,
               logger := snd (set_state t0 st dur (light (manager w)) (logger w))\<rparr>"
  from Cons.prems(1) obtain w2 t2 ts2 where
    r: "run_phase (\<lambda>t w. Inr (tick cfg g c t w)) es t0 dur ts0 ?w1 = Some (Inr (w2, t2, ts2))" and
    rest: "run_phases (\<lambda>t w. Inr (tick cfg g c t w)) es c ps t2 ts2
             (w2\<lparr>logger := logger_log t2 (Msg_phase_end st c) INFO (logger w2)\<rparr>) = Some (Inr (w', t', ts'))"
    by (auto simp: p ts Let_def split: prod.splits option.splits sum.splits)
  let ?P = "\<lambda>w. phase_trace (logger w) = phase_trace (logger ?w1) \<and>
                cycle_count (light (manager w)) = cycle_count (light (manager ?w1))"
  have "?P w2"
    by (rule run_phase_inv[OF r, of ?P]) (simp_all add: tick_frame)
  with Cons.IH[OF rest] show ?case
    by (simp add: p set_state_def)
qed

lemma run_cycle_with_Inr:
  assumes "run_cycle_with decide body es tail g c t ts w = Some (Inr (w', t', ts'))"
  shows "\<exists>td sn lg1 r gr y s lg2 w2.
     scan_traffic t (cars (manager w)) c (sensor (manager w))
       (logger_log t (Msg_cycle_start c) CYCLE (logger w)) = Inr (td, sn, lg1) \<and>
     decide g t td c (rng_state w) lg1 = Inr ((r, gr, y), s, lg2) \<and>
     run_phases (body c) es c [(Red, r), (Green, gr), (Yellow, y)] t ts
       (w\<lparr>manager := (manager w)\<lparr>sensor := sn,
            light := fst (case td_priority td of None \<Rightarrow> (light (manager w), lg2)
                          | Some ty \<Rightarrow> activate_priority t ty (gr + 2) (light (manager w)) lg2)\<rparr>,
          logger := snd (case td_priority td of None \<Rightarrow> (light (manager w), lg2)
                          | Some ty \<Rightarrow> activate_priority t ty (gr + 2) (light (manager w)) lg2),
          rng_state := s\<rparr>) = Some (Inr (w2, t', ts')) \<and>
     tail (w2\<lparr>manager := (manager w2)\<lparr>light := increment_cycle (light (manager w2))\<rparr>\<rparr>) = (w', None)"
  using assms
  by (auto simp: run_cycle_with_def Let_def split: sum.splits prod.splits option.splits)

lemma scan_phase_trace:
  "scan_traffic now cs cyc sn lg = Inr (td, sn', lg') \<Longrightarrow> phase_trace lg' = phase_trace lg"
  by (auto simp: scan_traffic_def Let_def split: sum.splits prod.splits)

lemma decide_phase_trace:
  "decide_light_times pr pg cfg g now td c s lg = Inr (tm, s', lg') \<Longrightarrow> phase_trace lg' = phase_trace lg"
  by (auto dest!: decide_light_times_log)

text \<open>
  C5: A cycle of the first copy that completes has set the light red, green, yellow in
  this order, each phase ended before the next was set, and has counted exactly one more
  cycle.
\<close>

theorem run_cycle_phase_order:
  assumes "run_cycle cfg g c t ts w = Some (Inr (w', t', ts'))"
  shows "\<exists>r gr y. phase_trace (logger w') =
           phase_trace (logger w) @
             [Msg_light_set Red r, Msg_phase_end Red c, Msg_light_set Green gr, Msg_phase_end Green c,
              Msg_light_set Yellow y, Msg_phase_end Yellow c] \<and>
         cycle_count (light (manager w')) = Suc (cycle_count (light (manager w)))"
proof -
  from run_cycle_with_Inr[OF assms[unfolded run_cycle_def]] obtain td sn lg1 r gr y s lg2 w2 where
    sc: "scan_traffic t (cars (manager w)) c (sensor (manager w))
           (logger_log t (Msg_cycle_start c) CYCLE (logger w)) = Inr (td, sn, lg1)" and
    dc: "calculate_light_times cfg g t td c (rng_state w) lg1 = Inr ((r, gr, y), s, lg2)" and
    ph: "run_phases (\<lambda>t w. Inr (tick cfg g c t w)) (\<lambda>t w. w) c [(Red, r), (Green, gr), (Yellow, y)] t ts
       (w\<lparr>manager := (manager w)\<lparr>sensor := sn,
            light := fst (case td_priority td of None \<Rightarrow> (light (manager w), lg2)
                          | Some ty \<Rightarrow> activate_priority t ty (gr + 2) (light (manager w)) lg2)\<rparr>,
          logger := snd (case td_priority td of None \<Rightarrow> (light (manager w), lg2)
                          | Some ty \<Rightarrow> activate_priority t ty (gr + 2) (light (manager w)) lg2),
          rng_state := s\<rparr>) = Some (Inr (w2, t', ts'))" and
    tl: "(w2\<lparr>manager := (manager w2)\<lparr>light := increment_cycle (light (manager w2))\<rparr>\<rparr>, None) = (w', None)"
    by auto
  have t1: "phase_trace lg1 = phase_trace (logger w)" using scan_phase_trace[OF sc] by simp
  have t2: "phase_trace lg2 = phase_trace lg1"
    using dc unfolding calculate_light_times_def by (rule decide_phase_trace)
  from run_phases_tick_trace[OF ph] t1 t2 tl show ?thesis
    by (cases "td_priority td")
       (auto simp: activate_priority_def increment_cycle_def)
qed

lemma quick_cycle_runs:
  "\<exists>w' t' ts'. run_cycle quick_config demo_rng 1 0 (phases_clock 0 [1, 1, 1]) demo_world =
     Some (Inr (w', t', ts'))"
proof -
  have "case run_cycle quick_config demo_rng 1 0 (phases_clock 0 [1, 1, 1]) demo_world of
          Some (Inr _) \<Rightarrow> True | _ \<Rightarrow> False"
    by code_simp
  then show ?thesis by (auto split: option.splits sum.splits)
qed

theorem run_cycle_phase_order_witness:
  "\<exists>w' t' ts'. run_cycle quick_config demo_rng 1 0 (phases_clock 0 [1, 1, 1]) demo_world =
     Some (Inr (w', t', ts')) \<and>
     (\<exists>r gr y. phase_trace (logger w') =
        phase_trace (logger demo_world) @
          [Msg_light_set Red r, Msg_phase_end Red 1, Msg_light_set Green gr, Msg_phase_end Green 1,
           Msg_light_set Yellow y, Msg_phase_end Yellow 1] \<and>
        cycle_count (light (manager w')) = Suc (cycle_count (light (manager demo_world))))"
proof -
  obtain w' t' ts' where
    r: "run_cycle quick_config demo_rng 1 0 (phases_clock 0 [1, 1, 1]) demo_world = Some (Inr (w', t', ts'))"
    using quick_cycle_runs by blast
  show ?thesis using r run_cycle_phase_order[OF r] by blast
qed

section \<open>Whole runs of the first copy\<close>

lemma run_cycle_with_Inl:
  assumes "run_cycle_with decide (\<lambda>c t w. Inr (f c t w)) es (\<lambda>w. (w, None)) g c t ts w = Some (Inl x)"
  shows "(\<exists>e. scan_traffic t (cars (manager w)) c (sensor (manager w))
                (logger_log t (Msg_cycle_start c) CYCLE (logger w)) = Inl e) \<or>
         (\<exists>td sn lg1 e. scan_traffic t (cars (manager w)) c (sensor (manager w))
                (logger_log t (Msg_cycle_start c) CYCLE (logger w)) = Inr (td, sn, lg1) \<and>
              decide g t td c (rng_state w) lg1 = Inl e)"
  using assms
  by (auto simp: run_cycle_with_def Let_def run_phases_never_raises
           split: sum.splits prod.splits option.splits)

text \<open>A cycle of the first copy on a manager that keeps the invariant never raises, keeps
  the invariant and counts one cycle.\<close>

lemma run_cycle_inv:
  assumes g: "rng_ok g" and cfg: "config_ok cfg" "speeds_ok cfg" and inv: "mgr_inv cfg (manager w)"
    and run: "run_cycle cfg g c t ts w = Some r"
  shows "\<exists>w' t' ts'. r = Inr (w', t', ts') \<and> mgr_inv cfg (manager w') \<and>
           cycle_count (light (manager w')) = Suc (cycle_count (light (manager w)))"
proof (cases r)
  case (Inl x)
  from inv have "lanes_ok (cars (manager w))" by (simp add: mgr_inv_def)
  from scan_traffic_no_error[OF this] obtain td0 sn0 m0 where
    sc: "scan_traffic t (cars (manager w)) c (sensor (manager w))
           (logger_log t (Msg_cycle_start c) CYCLE (logger w)) = Inr (td0, sn0, logger_log t m0 INFO
              (logger_log t (Msg_cycle_start c) CYCLE (logger w)))"
    by blast
  from cfg have y: "YELLOW_MIN cfg \<le> YELLOW_MAX cfg" by (simp add: config_ok_def)
  from run_cycle_with_Inl[OF run[unfolded run_cycle_def Inl]] sc
  have "\<exists>e. calculate_light_times cfg g t td0 c (rng_state w)
              (logger_log t m0 INFO (logger_log t (Msg_cycle_start c) CYCLE (logger w))) = Inl e"
    by auto
  then obtain e where "calculate_light_times cfg g t td0 c (rng_state w)
              (logger_log t m0 INFO (logger_log t (Msg_cycle_start c) CYCLE (logger w))) = Inl e" ..
  moreover obtain r' where "calculate_light_times cfg g t td0 c (rng_state w)
              (logger_log t m0 INFO (logger_log t (Msg_cycle_start c) CYCLE (logger w))) = Inr r'"
    using decide_light_times_no_error[OF y, of 15 23 g t td0 c "rng_state w"]
    unfolding calculate_light_times_def by blast
  ultimately show ?thesis by simp
next
  case (Inr y)
  then obtain w' t' ts' where y: "r = Inr (w', t', ts')" by (cases y) auto
  from run_cycle_with_Inr[OF run[unfolded run_cycle_def y]] obtain td sn lg1 rt gt yt s lg2 w2 where
    "scan_traffic t (cars (manager w)) c (sensor (manager w))
           (logger_log t (Msg_cycle_start c) CYCLE (logger w)) = Inr (td, sn, lg1)" and
    "calculate_light_times cfg g t td c (rng_state w) lg1 = Inr ((rt, gt, yt), s, lg2)" and
    ph: "run_phases (\<lambda>t w. Inr (tick cfg g c t w)) (\<lambda>t w. w) c [(Red, rt), (Green, gt), (Yellow, yt)] t ts
       (w\<lparr>manager := (manager w)\<lparr>sensor := sn,
            light := fst (case td_priority td of None \<Rightarrow> (light (manager w), lg2)
                          | Some ty \<Rightarrow> activate_priority t ty (gt + 2) (light (manager w)) lg2)\<rparr>,
          logger := snd (case td_priority td of None \<Rightarrow> (light (manager w), lg2)
                          | Some ty \<Rightarrow> activate_priority t ty (gt + 2) (light (manager w)) lg2),
          rng_state := s\<rparr>) = Some (Inr (w2, t', ts'))" and
    tl: "(w2\<lparr>manager := (manager w2)\<lparr>light := increment_cycle (light (manager w2))\<rparr>\<rparr>, None) = (w', None)"
    by auto
  let ?P = "\<lambda>v. mgr_inv cfg (manager v)"
  have start: "?P (w\<lparr>manager := (manager w)\<lparr>sensor := sn,
            light := fst (case td_priority td of None \<Rightarrow> (light (manager w), lg2)
                          | Some ty \<Rightarrow> activate_priority t ty (gt + 2) (light (manager w)) lg2)\<rparr>,
          logger := snd (case td_priority td of None \<Rightarrow> (light (manager w), lg2)
                          | Some ty \<Rightarrow> activate_priority t ty (gt + 2) (light (manager w)) lg2),
          rng_state := s\<rparr>)"
    using inv by (cases "td_priority td") (simp_all add: mgr_inv_def activate_priority_def)
  have "?P w2"
    using ph start by (rule run_phases_inv[where P = ?P])
       (simp_all add: tick_inv[OF g cfg(2)] mgr_inv_light_update set_state_def)
  moreover have "cycle_count (light (manager w2)) = cycle_count (light (manager w))"
    using run_phases_tick_trace[OF ph]
    by (cases "td_priority td") (simp_all add: activate_priority_def)
  ultimately show ?thesis
    using tl y by (auto simp: mgr_inv_light_update increment_cycle_def)
qed

lemma run_cycles_inv:
  assumes g: "rng_ok g" and cfg: "config_ok cfg" "speeds_ok cfg"
    and "mgr_inv cfg (manager w)" and "run_cycles (run_cycle cfg g) cs t ts w = Some r"
  shows "\<exists>w' t' ts'. r = Inr (w', t', ts') \<and> mgr_inv cfg (manager w') \<and>
           cycle_count (light (manager w')) = cycle_count (light (manager w)) + length cs"
  using assms(4,5)
proof (induction cs arbitrary: t ts w)
  case Nil
  then show ?case by auto
next
  case (Cons c cs)
  obtain r1 where r1: "run_cycle cfg g c t ts w = Some r1"
    using Cons.prems(2) by (cases "run_cycle cfg g c t ts w") auto
  from run_cycle_inv[OF g cfg Cons.prems(1) r1] obtain w1 t1 ts1 where
    e: "r1 = Inr (w1, t1, ts1)" and i: "mgr_inv cfg (manager w1)" and
    n: "cycle_count (light (manager w1)) = Suc (cycle_count (light (manager w)))"
    by blast
  show ?case
  proof (cases "cs = []")
    case True
    with Cons.prems(2) r1 e i n show ?thesis by auto
  next
    case False
    then obtain t2 ts2 where ts1: "ts1 = t2 # ts2"
      using Cons.prems(2) r1 e by (cases ts1) auto
    with Cons.prems(2) r1 e False
    have "run_cycles (run_cycle cfg g) cs t2 ts2 w1 = Some r" by simp
    from Cons.IH[OF i this] n show ?thesis by simp
  qed
qed

lemma main_v1_unfold:
  "main_v1 cfg g True t ts s =
     (case run_cycles (run_cycle cfg g) [1..<nat (MAX_CYCLES cfg) + 1] t ts
             ((initial_world cfg t s)\<lparr>logger := logger_log t Msg_sim_start SYSTEM (new_logger (LOG_FILE cfg))\<rparr>) of
        None \<Rightarrow> None
      | Some (Inl (w1, t1, e)) \<Rightarrow> Some (w1\<lparr>logger := logger_log t1 (Msg_sim_error e) ERROR (logger w1)\<rparr>)
      | Some (Inr (w1, t1, ts1)) \<Rightarrow>
          Some (w1\<lparr>logger := logger_log t1 (Msg_sim_done (total_vehicles_passed (light (manager w1)))) SYSTEM
                       (logger w1)\<rparr>))"
  by (simp add: main_v1_def run_simulation_def initial_world_def)

text \<open>
  C1: When the manager is bound at start-up, a run of the first copy that ends has run
  all MAX_CYCLES cycles without an exception, keeps the manager's invariant, and its last
  log entry is the SYSTEM report of the pass counter.
\<close>

theorem main_v1_completes:
  assumes g: "rng_ok g" and cfg: "config_ok cfg" "speeds_ok cfg" and cap: "0 \<le> MAX_CARS_PER_LANE cfg"
    and run: "main_v1 cfg g True t ts s = Some w"
  shows "cycle_count (light (manager w)) = nat (MAX_CYCLES cfg) \<and> mgr_inv cfg (manager w) \<and>
         level (last (entries (logger w))) = SYSTEM \<and>
         message (last (entries (logger w))) = Msg_sim_done (total_vehicles_passed (light (manager w)))"
proof -
  let ?w0 = "(initial_world cfg t s)\<lparr>logger := logger_log t Msg_sim_start SYSTEM (new_logger (LOG_FILE cfg))\<rparr>"
  have i0: "mgr_inv cfg (manager ?w0)" using cap by (simp add: initial_world_def mgr_inv_init)
  obtain r where r: "run_cycles (run_cycle cfg g) [1..<nat (MAX_CYCLES cfg) + 1] t ts ?w0 = Some r"
    using run by (cases "run_cycles (run_cycle cfg g) [1..<nat (MAX_CYCLES cfg) + 1] t ts ?w0")
                 (simp_all add: main_v1_unfold)
  from run_cycles_inv[OF g cfg i0 r] obtain w1 t1 ts1 where
    "r = Inr (w1, t1, ts1)" "mgr_inv cfg (manager w1)"
    "cycle_count (light (manager w1)) = cycle_count (light (manager ?w0)) + nat (MAX_CYCLES cfg)"
    by auto
  with run r show ?thesis
    by (auto simp: main_v1_unfold initial_world_def TrafficManager_init_def SmartTrafficLight_init_def
             mgr_inv_def)
qed

lemma quick_config_ok: "config_ok quick_config \<and> speeds_ok quick_config \<and> 0 \<le> MAX_CARS_PER_LANE quick_config"
  by (simp add: quick_config_def CONFIG_def config_ok_def speeds_ok_def)

lemma quick_run_v1:
  "\<exists>w. main_v1 quick_config demo_rng True 0 (phases_clock 0 [1, 1, 1]) 0 = Some w"
proof -
  have "case main_v1 quick_config demo_rng True 0 (phases_clock 0 [1, 1, 1]) 0 of
          Some _ \<Rightarrow> True | None \<Rightarrow> False"
    by code_simp
  then show ?thesis by (auto split: option.splits)
qed

theorem main_v1_completes_witness:
  "\<exists>w. main_v1 quick_config demo_rng True 0 (phases_clock 0 [1, 1, 1]) 0 = Some w \<and>
     cycle_count (light (manager w)) = 1 \<and>
     message (last (entries (logger w))) = Msg_sim_done (total_vehicles_passed (light (manager w)))"
proof -
  obtain w where r: "main_v1 quick_config demo_rng True 0 (phases_clock 0 [1, 1, 1]) 0 = Some w"
    using quick_run_v1 by blast
  have ok: "config_ok quick_config" "speeds_ok quick_config" "0 \<le> MAX_CARS_PER_LANE quick_config"
    using quick_config_ok by simp_all
  from main_v1_completes[OF rng_ok_demo_rng ok r] r show ?thesis
    by (simp add: quick_config_def CONFIG_def)
qed

section \<open>The second copy\<close>

lemma tick_v2_raises: "tick_v2 cfg g c = (\<lambda>t w. Inl AttributeError)"
  by (simp add: tick_v2_def Let_def fun_eq_iff split: prod.split)

lemma tick_v2_state_data_file [simp]: "data_file (tick_v2_state cfg g t w) = data_file w"
  by (simp add: tick_v2_state_def Let_def split: prod.split)

lemma run_phase_raising:
  "run_phase (\<lambda>t w. Inl e) es start dur ts w =
     (case ts of [] \<Rightarrow> None
      | t # ts' \<Rightarrow> if t - start < of_int dur then Some (Inl (es t w, t, e)) else Some (Inr (w, t, ts')))"
  by (cases ts) simp_all

text \<open>With a loop body that always raises, the phases end in that exception or run no body;
  what the error state, the light setting and the logging keep, the result keeps.\<close>

lemma run_phases_raising:
  assumes "run_phases (\<lambda>t w. Inl e) es cyc ps t ts w = Some r" and "P w"
    and err: "\<And>t w. P w \<Longrightarrow> P (es t w)"
    and set: "\<And>t st d w. P w \<Longrightarrow>
               P (w\<lparr>manager := (manager w)\<lparr>light := fst (set_state t st d (light (manager w)) (logger w))\<rparr>,
                    logger := snd (set_state t st d (light (manager w)) (logger w))\<rparr>)"
    and log: "\<And>t m lvl w. P w \<Longrightarrow> P (w\<lparr>logger := logger_log t m lvl (logger w)\<rparr>)"
  shows "P (case_sum fst fst r) \<and> (\<forall>x. r = Inl x \<longrightarrow> snd (snd x) = e)"
  using assms(1,2)
proof (induction ps arbitrary: t ts w)
  case Nil
  then show ?case by auto
next
  case (Cons p ps)
  obtain st dur where p: "p = (st, dur)" by (cases p)
  obtain t0 ts0 where ts: "ts = t0 # ts0"
    using Cons.prems(1) by (cases ts) auto
  let ?w1 = "w\<lparr>manager := (manager w)\<lparr>light := fst (set_state t0 st dur (light (manager w)) (logger w))\<rparr>,
               logger := snd (set_state t0 st dur (light (manager w)) (logger w))\<rparr>"
  have p1: "P ?w1" using set Cons.prems(2) by blast
  obtain t1 ts1 where ts0: "ts0 = t1 # ts1"
    using Cons.prems(1) by (cases ts0) (auto simp: p ts Let_def split: prod.splits)
  show ?case
  proof (cases "t1 - t0 < of_int dur")
    case True
    with Cons.prems(1) have "r = Inl (es t1 ?w1, t1, e)"
      by (auto simp: p ts ts0 Let_def split: prod.splits)
    with err[OF p1] show ?thesis by simp
  next
    case False
    with Cons.prems(1)
    have "run_phases (\<lambda>t w. Inl e) es cyc ps t1 ts1
            (?w1\<lparr>logger := logger_log t1 (Msg_phase_end st cyc) INFO (logger ?w1)\<rparr>) = Some r"
      by (auto simp: p ts ts0 Let_def split: prod.splits)
    from Cons.IH[OF this log[OF p1]] show ?thesis .
  qed
qed

lemma run_phases_raising_Inr:
  assumes "run_phases (\<lambda>t w. Inl e) es cyc ps t ts w = Some (Inr (w', t', ts'))"
  shows "phase_trace (logger w') =
           phase_trace (logger w) @ concat (map (\<lambda>(st, d). [Msg_light_set st d, Msg_phase_end st cyc]) ps) \<and>
         (\<exists>rd. ts = concat (map (\<lambda>(a, b). [a, b]) rd) @ ts' \<and>
               list_all2 (\<lambda>(st, d) (a, b). of_int d \<le> b - a) ps rd)"
  using assms
proof (induction ps arbitrary: t ts w)
  case Nil
  then show ?case by simp
next
  case (Cons p ps)
  obtain st dur where p: "p = (st, dur)" by (cases p)
  obtain t0 ts0 where ts: "ts = t0 # ts0"
    using Cons.prems by (cases ts) auto
  let ?w1 = "w\<lparr>manager := (manager w)\<lparr>light := fst (set_state t0 st dur (light (manager w)) (logger w))\<rparr>,
               logger := snd (set_state t0 st dur (light (manager w)) (logger w))\<rparr>"
  obtain t1 ts1 where ts0: "ts0 = t1 # ts1"
    using Cons.prems by (cases ts0) (auto simp: p ts Let_def split: prod.splits)
  have le: "of_int dur \<le> t1 - t0"
  proof (rule ccontr)
    assume "\<not> of_int dur \<le> t1 - t0"
    with Cons.prems show False by (auto simp: p ts ts0 Let_def split: prod.splits)
  qed
  with Cons.prems have rest:
    "run_phases (\<lambda>t w. Inl e) es cyc ps t1 ts1
       (?w1\<lparr>logger := logger_log t1 (Msg_phase_end st cyc) INFO (logger ?w1)\<rparr>) = Some (Inr (w', t', ts'))"
    by (auto simp: p ts ts0 Let_def not_less split: prod.splits)
  from Cons.IH[OF rest] obtain rd where
    tr: "phase_trace (logger w') = phase_trace (logger (?w1\<lparr>logger := logger_log t1 (Msg_phase_end st cyc) INFO (logger ?w1)\<rparr>)) @
            concat (map (\<lambda>(st, d). [Msg_light_set st d, Msg_phase_end st cyc]) ps)" and
    rd: "ts1 = concat (map (\<lambda>(a, b). [a, b]) rd) @ ts'" "list_all2 (\<lambda>(st, d) (a, b). of_int d \<le> b - a) ps rd"
    by blast
  have "ts = concat (map (\<lambda>(a, b). [a, b]) ((t0, t1) # rd)) @ ts' \<and>
        list_all2 (\<lambda>(st, d) (a, b). of_int d \<le> b - a) (p # ps) ((t0, t1) # rd)"
    using rd le by (simp add: p ts ts0)
  moreover have "phase_trace (logger w') =
      phase_trace (logger w) @ concat (map (\<lambda>(st, d). [Msg_light_set st d, Msg_phase_end st cyc]) (p # ps))"
    using tr by (simp add: p set_state_def)
  ultimately show ?case by blast
qed

lemma run_phases_raising_Inl:
  assumes "run_phases (\<lambda>t w. Inl e) es cyc ps t ts w = Some (Inl (w', t', e'))"
    and es: "\<And>t w. phase_trace (logger (es t w)) = phase_trace (logger w)"
  shows "\<exists>k<length ps. phase_trace (logger w') =
           phase_trace (logger w) @ concat (map (\<lambda>(st, d). [Msg_light_set st d, Msg_phase_end st cyc]) (take k ps)) @
           [Msg_light_set (fst (ps ! k)) (snd (ps ! k))]"
  using assms(1)
proof (induction ps arbitrary: t ts w)
  case Nil
  then show ?case by simp
next
  case (Cons p ps)
  obtain st dur where p: "p = (st, dur)" by (cases p)
  obtain t0 ts0 where ts: "ts = t0 # ts0"
    using Cons.prems by (cases ts) auto
  let ?w1 = "w\<lparr>manager := (manager w)\<lparr>light := fst (set_state t0 st dur (light (manager w)) (logger w))\<rparr>,
               logger := snd (set_state t0 st dur (light (manager w)) (logger w))\<rparr>"
  obtain t1 ts1 where ts0: "ts0 = t1 # ts1"
    using Cons.prems by (cases ts0) (auto simp: p ts Let_def split: prod.splits)
  show ?case
  proof (cases "t1 - t0 < of_int dur")
    case True
    with Cons.prems have "w' = es t1 ?w1"
      by (auto simp: p ts ts0 Let_def split: prod.splits)
    then show ?thesis
      by (intro exI[of _ 0]) (simp add: p es set_state_def)
  next
    case False
    with Cons.prems have
      "run_phases (\<lambda>t w. Inl e) es cyc ps t1 ts1
         (?w1\<lparr>logger := logger_log t1 (Msg_phase_end st cyc) INFO (logger ?w1)\<rparr>) = Some (Inl (w', t', e'))"
      by (auto simp: p ts ts0 Let_def split: prod.splits)
    from Cons.IH[OF this] obtain k where "k < length ps" and
      "phase_trace (logger w') =
         phase_trace (logger (?w1\<lparr>logger := logger_log t1 (Msg_phase_end st cyc) INFO (logger ?w1)\<rparr>)) @
         concat (map (\<lambda>(st, d). [Msg_light_set st d, Msg_phase_end st cyc]) (take k ps)) @
         [Msg_light_set (fst (ps ! k)) (snd (ps ! k))]"
      by blast
    then show ?thesis
      by (intro exI[of _ "Suc k"]) (simp add: p set_state_def)
  qed
qed

lemma tick_v2_state_phase_trace [simp]:
  "phase_trace (logger (tick_v2_state cfg g t w)) = phase_trace (logger w)"
proof -
  obtain l lg where u: "update_priority t (light (manager w)) (logger w) = (l, lg)"
    by (cases "update_priority t (light (manager w)) (logger w)")
  have "phase_trace lg = phase_trace (logger w)"
    using phase_trace_update_priority[of t "light (manager w)" "logger w"] u by simp
  with u show ?thesis by (simp add: tick_v2_state_def Let_def split: prod.split)
qed

lemma length_phase_msgs:
  "length (concat (map (\<lambda>(st, d). [Msg_light_set st d, Msg_phase_end st c]) xs)) = 2 * length xs"
  by (induction xs) auto

lemma run_cycle_v2_Inl:
  assumes run: "run_cycle_v2 cfg g c t ts w = Some (Inl (w', t', e))"
    and lanes: "lanes_ok (cars (manager w))" and y: "YELLOW_MIN cfg \<le> YELLOW_MAX cfg"
    and df: "data_file w = None"
  shows "(e = AttributeError \<or> e = NameError) \<and> data_file w' = None \<and>
         (e = NameError \<longleftrightarrow>
            (\<exists>r gr yt a0 b0 a1 b1 a2 b2 rest.
               ts = a0 # b0 # a1 # b1 # a2 # b2 # rest \<and>
               of_int r \<le> b0 - a0 \<and> of_int gr \<le> b1 - a1 \<and> of_int yt \<le> b2 - a2 \<and>
               phase_trace (logger w') = phase_trace (logger w) @
                 [Msg_light_set Red r, Msg_phase_end Red c, Msg_light_set Green gr, Msg_phase_end Green c,
                  Msg_light_set Yellow yt, Msg_phase_end Yellow c]))"
proof -
  from scan_traffic_no_error[OF lanes] obtain td sn m where
    sc: "scan_traffic t (cars (manager w)) c (sensor (manager w))
           (logger_log t (Msg_cycle_start c) CYCLE (logger w)) = Inr (td, sn, logger_log t m INFO
              (logger_log t (Msg_cycle_start c) CYCLE (logger w)))"
    by blast
  let ?lg1 = "logger_log t m INFO (logger_log t (Msg_cycle_start c) CYCLE (logger w))"
  obtain rt gt yt s lg2 where
    dc: "calculate_light_times_v2 cfg g t td c (rng_state w) ?lg1 = Inr ((rt, gt, yt), s, lg2)"
    using decide_light_times_no_error[OF y, of 2 12 g t td c "rng_state w" ?lg1]
    unfolding calculate_light_times_v2_def by auto
  let ?act = "case td_priority td of None \<Rightarrow> (light (manager w), lg2)
              | Some ty \<Rightarrow> activate_priority t ty (gt + 2) (light (manager w)) lg2"
  let ?w1 = "w\<lparr>manager := (manager w)\<lparr>sensor := sn, light := fst ?act\<rparr>, logger := snd ?act,
               rng_state := s\<rparr>"
  let ?ps = "[(Red, rt), (Green, gt), (Yellow, yt)]"
  let ?six = "[Msg_light_set Red rt, Msg_phase_end Red c, Msg_light_set Green gt, Msg_phase_end Green c,
               Msg_light_set Yellow yt, Msg_phase_end Yellow c]"
  have df1: "data_file ?w1 = None" using df by simp
  have t1: "phase_trace ?lg1 = phase_trace (logger w)"
    using scan_phase_trace[OF sc] by simp
  have t2: "phase_trace lg2 = phase_trace ?lg1"
    using dc unfolding calculate_light_times_v2_def by (rule decide_phase_trace)
  have tw1: "phase_trace (logger ?w1) = phase_trace (logger w)"
    using t1 t2 by (cases "td_priority td") (simp_all add: activate_priority_def)
  obtain r where ph: "run_phases (\<lambda>t w. Inl AttributeError) (tick_v2_state cfg g) c ?ps t ts ?w1 = Some r"
    using run sc dc
    by (cases "run_phases (\<lambda>t w. Inl AttributeError) (tick_v2_state cfg g) c ?ps t ts ?w1")
       (auto simp: run_cycle_v2_def run_cycle_with_def tick_v2_raises Let_def split: prod.splits option.splits)
  from run_phases_raising[OF ph, where P = "\<lambda>v. data_file v = None", OF df1]
  have res: "data_file (case_sum fst fst r) = None \<and> (\<forall>x. r = Inl x \<longrightarrow> snd (snd x) = AttributeError)"
    by (simp add: set_state_def)
  show ?thesis
  proof (cases r)
    case (Inl x)
    obtain w2 t2 e2 where x: "x = (w2, t2, e2)" by (cases x)
    from run sc dc ph Inl x have we: "w' = w2 \<and> e = e2"
      by (auto simp: run_cycle_v2_def run_cycle_with_def tick_v2_raises Let_def split: prod.splits)
    from res Inl x we have ea: "e = AttributeError" "data_file w' = None" by simp_all
    from run_phases_raising_Inl[OF ph[unfolded Inl x] tick_v2_state_phase_trace] obtain k where
      "k < length ?ps" and tk: "phase_trace (logger w2) = phase_trace (logger ?w1) @
         concat (map (\<lambda>(st, d). [Msg_light_set st d, Msg_phase_end st c]) (take k ?ps)) @
         [Msg_light_set (fst (?ps ! k)) (snd (?ps ! k))]"
      by blast
    have "length (phase_trace (logger w')) = length (phase_trace (logger w)) + (2 * k + 1)"
      using tk we tw1 \<open>k < length ?ps\<close> by (simp add: length_phase_msgs min_def)
    with \<open>k < length ?ps\<close> have "length (phase_trace (logger w')) \<noteq> length (phase_trace (logger w)) + 6"
      by simp
    with ea show ?thesis by force
  next
    case (Inr x)
    obtain w2 t2 ts2 where x: "x = (w2, t2, ts2)" by (cases x)
    from run sc dc ph Inr x have we: "e = NameError \<and>
        w' = w2\<lparr>manager := (manager w2)\<lparr>light := increment_cycle (light (manager w2))\<rparr>, data_file := None\<rparr>"
      by (auto simp: run_cycle_v2_def run_cycle_with_def tick_v2_raises tail_v2_def Let_def
               split: prod.splits)
    from run_phases_raising_Inr[OF ph[unfolded Inr x]] obtain rd where
      tr: "phase_trace (logger w2) = phase_trace (logger ?w1) @ ?six" and
      rd: "ts = concat (map (\<lambda>(a, b). [a, b]) rd) @ ts2" "list_all2 (\<lambda>(st, d) (a, b). of_int d \<le> b - a) ?ps rd"
      by auto
    from rd(2) obtain a0 b0 a1 b1 a2 b2 where
      "rd = [(a0, b0), (a1, b1), (a2, b2)]" "of_int rt \<le> b0 - a0" "of_int gt \<le> b1 - a1" "of_int yt \<le> b2 - a2"
      by (auto simp: list_all2_Cons1)
    with rd(1) tr tw1 we have
      "ts = a0 # b0 # a1 # b1 # a2 # b2 # ts2 \<and>
       of_int rt \<le> b0 - a0 \<and> of_int gt \<le> b1 - a1 \<and> of_int yt \<le> b2 - a2 \<and>
       phase_trace (logger w') = phase_trace (logger w) @ ?six"
      by simp
    with we show ?thesis by simp
  qed
qed

lemma run_cycle_v2_no_Inr: "run_cycle_v2 cfg g c t ts w \<noteq> Some (Inr r)"
  by (auto simp: run_cycle_v2_def run_cycle_with_def tail_v2_def Let_def
           split: sum.splits prod.splits option.splits)

lemma main_v2_unfold:
  "main_v2 cfg g t ts s =
     (case run_cycles (run_cycle_v2 cfg g) [1..<nat (MAX_CYCLES cfg) + 1] t ts
             ((initial_world cfg t s)\<lparr>logger := logger_log t Msg_sim_start SYSTEM (new_logger (LOG_FILE cfg))\<rparr>) of
        None \<Rightarrow> None
      | Some (Inl (w1, t1, e)) \<Rightarrow> Some (w1\<lparr>logger := logger_log t1 (Msg_sim_error e) ERROR (logger w1)\<rparr>)
      | Some (Inr (w1, t1, ts1)) \<Rightarrow>
          Some (w1\<lparr>logger := logger_log t1 (Msg_sim_done (total_vehicles_passed (light (manager w1)))) SYSTEM
                       (logger w1)\<rparr>))"
  by (simp add: main_v2_def run_simulation_def initial_world_def)

text \<open>
  C8: A run of the second copy that ends has ended in the exception of its first cycle,
  and has never written a snapshot for the page. The exception is NameError exactly when
  the three phases each found their deadline passed at the first test of their loop
  (no loop body ran), so that the cycle reached the nested write_simulation_data and its
  unbound \<^verbatim>\<open>data\<close>; otherwise the first loop body raised AttributeError.
\<close>

theorem main_v2_fails:
  assumes y: "YELLOW_MIN cfg \<le> YELLOW_MAX cfg" and m: "1 \<le> MAX_CYCLES cfg"
    and run: "main_v2 cfg g t ts s = Some w"
  shows "\<exists>w1 t1 e.
           run_cycle_v2 cfg g 1 t ts
             ((initial_world cfg t s)\<lparr>logger := logger_log t Msg_sim_start SYSTEM (new_logger (LOG_FILE cfg))\<rparr>) =
             Some (Inl (w1, t1, e)) \<and>
           w = w1\<lparr>logger := logger_log t1 (Msg_sim_error e) ERROR (logger w1)\<rparr> \<and>
           data_file w = None \<and> (e = AttributeError \<or> e = NameError) \<and>
           (e = NameError \<longleftrightarrow>
              (\<exists>r gr yt a0 b0 a1 b1 a2 b2 rest.
                 ts = a0 # b0 # a1 # b1 # a2 # b2 # rest \<and>
                 of_int r \<le> b0 - a0 \<and> of_int gr \<le> b1 - a1 \<and> of_int yt \<le> b2 - a2 \<and>
                 phase_trace (logger w) =
                   [Msg_light_set Red r, Msg_phase_end Red 1, Msg_light_set Green gr, Msg_phase_end Green 1,
                    Msg_light_set Yellow yt, Msg_phase_end Yellow 1]))"
proof -
  let ?w0 = "(initial_world cfg t s)\<lparr>logger := logger_log t Msg_sim_start SYSTEM (new_logger (LOG_FILE cfg))\<rparr>"
  from m have "(1::nat) < nat (MAX_CYCLES cfg) + 1" by simp
  then have cs: "[1..<nat (MAX_CYCLES cfg) + 1] = 1 # [Suc 1..<nat (MAX_CYCLES cfg) + 1]"
    by (rule upt_conv_Cons)
  have l0: "lanes_ok (cars (manager ?w0))"
    by (simp add: initial_world_def TrafficManager_init_def lanes_ok_def)
  have d0: "data_file ?w0 = None" by (simp add: initial_world_def)
  have p0: "phase_trace (logger ?w0) = []"
    by (simp add: initial_world_def new_logger_def phase_trace_def)
  note run' = run[unfolded main_v2_unfold cs run_cycles.simps(2)]
  obtain r where r: "run_cycle_v2 cfg g 1 t ts ?w0 = Some r"
    using run' by (cases "run_cycle_v2 cfg g 1 t ts ?w0") simp_all
  then obtain w1 t1 e where e: "r = Inl (w1, t1, e)"
    using r run_cycle_v2_no_Inr[of cfg g 1 t ts ?w0] by (cases r) auto
  from run' r e have w: "w = w1\<lparr>logger := logger_log t1 (Msg_sim_error e) ERROR (logger w1)\<rparr>"
    by simp
  have "phase_trace (logger w) = phase_trace (logger w1)" by (simp add: w)
  with run_cycle_v2_Inl[OF r[unfolded e] l0 y d0] p0 w r e show ?thesis
    by (intro exI[of _ w1] exI[of _ t1] exI[of _ e]) (simp; blast)
qed

lemma quick_run_v2:
  "\<exists>w. main_v2 quick_config demo_rng 0 (phases_clock 0 [1, 1, 1]) 0 = Some w"
proof -
  have "case main_v2 quick_config demo_rng 0 (phases_clock 0 [1, 1, 1]) 0 of
          Some _ \<Rightarrow> True | None \<Rightarrow> False"
    by code_simp
  then show ?thesis by (auto split: option.splits)
qed

theorem main_v2_fails_witness:
  "\<exists>w. main_v2 quick_config demo_rng 0 (phases_clock 0 [1, 1, 1]) 0 = Some w \<and> data_file w = None"
proof -
  obtain w where r: "main_v2 quick_config demo_rng 0 (phases_clock 0 [1, 1, 1]) 0 = Some w"
    using quick_run_v2 by blast
  have "YELLOW_MIN quick_config \<le> YELLOW_MAX quick_config" "1 \<le> MAX_CYCLES quick_config"
    by (simp_all add: quick_config_def CONFIG_def)
  from main_v2_fails[OF this r] r show ?thesis by blast
qed

section \<open>Termination of the phase loop\<close>

text \<open>
  C9: Under the shipped configuration and the ideal 0.5 s clock, every cycle of the first
  copy on a manager that keeps the invariant completes, after red, green and yellow
  phases of 8..15, 8..17 and 3..5 seconds, at the reading start + red + green + yellow,
  and consumes exactly the readings of its phases.
\<close>

theorem run_cycle_ideal_clock:
  assumes g: "rng_ok g" and inv: "mgr_inv CONFIG (manager w)"
  shows "\<exists>r gr y w'. 8 \<le> r \<and> r \<le> 15 \<and> 8 \<le> gr \<and> gr \<le> 17 \<and> 3 \<le> y \<and> y \<le> 5 \<and>
           run_cycle CONFIG g c t (phases_clock t [r, gr, y] @ ys) w =
             Some (Inr (w', t + of_int (r + gr + y), ys))"
proof -
  from inv have "lanes_ok (cars (manager w))" by (simp add: mgr_inv_def)
  from scan_traffic_no_error[OF this] obtain td sn m where
    sc: "scan_traffic t (cars (manager w)) c (sensor (manager w))
           (logger_log t (Msg_cycle_start c) CYCLE (logger w)) = Inr (td, sn, logger_log t m INFO
              (logger_log t (Msg_cycle_start c) CYCLE (logger w)))"
    by blast
  let ?lg1 = "logger_log t m INFO (logger_log t (Msg_cycle_start c) CYCLE (logger w))"
  from calculate_light_times_CONFIG_ok[OF g, of t td c "rng_state w" ?lg1]
  obtain r gr y s lg2 where
    dc: "calculate_light_times CONFIG g t td c (rng_state w) ?lg1 = Inr ((r, gr, y), s, lg2)" and
    b: "8 \<le> r \<and> r \<le> 15 \<and> 8 \<le> gr \<and> gr \<le> 17 \<and> 3 \<le> y \<and> y \<le> 5"
    by blast
  let ?act = "case td_priority td of None \<Rightarrow> (light (manager w), lg2)
              | Some ty \<Rightarrow> activate_priority t ty (gr + 2) (light (manager w)) lg2"
  let ?w1 = "w\<lparr>manager := (manager w)\<lparr>sensor := sn, light := fst ?act\<rparr>, logger := snd ?act,
               rng_state := s\<rparr>"
  have "\<forall>p\<in>set [(Red, r), (Green, gr), (Yellow, y)]. 0 \<le> snd p" using b by auto
  from run_phases_ideal[OF this, of "\<lambda>t w. tick CONFIG g c t w" "\<lambda>t w. w" c t ys ?w1]
  obtain w2 where ph: "run_phases (\<lambda>t w. Inr (tick CONFIG g c t w)) (\<lambda>t w. w) c
      [(Red, r), (Green, gr), (Yellow, y)] t (phases_clock t [r, gr, y] @ ys) ?w1 =
      Some (Inr (w2, t + of_int (r + gr + y), ys))"
    by (auto simp: algebra_simps)
  have "run_cycle CONFIG g c t (phases_clock t [r, gr, y] @ ys) w =
          Some (Inr (w2\<lparr>manager := (manager w2)\<lparr>light := increment_cycle (light (manager w2))\<rparr>\<rparr>,
                     t + of_int (r + gr + y), ys))"
    using sc dc ph
    by (cases "td_priority td") (auto simp: run_cycle_def run_cycle_with_def Let_def split: prod.split)
  with b show ?thesis by blast
qed

theorem run_cycle_ideal_clock_witness:
  "\<exists>r gr y w'. 8 \<le> r \<and> r \<le> 15 \<and> 8 \<le> gr \<and> gr \<le> 17 \<and> 3 \<le> y \<and> y \<le> 5 \<and>
     run_cycle CONFIG demo_rng 1 0 (phases_clock 0 [r, gr, y] @ []) demo_world =
       Some (Inr (w', 0 + of_int (r + gr + y), []))"
proof -
  have "mgr_inv CONFIG (manager demo_world)"
    by (simp add: demo_world_def mgr_inv_init CONFIG_def)
  then show ?thesis by (rule run_cycle_ideal_clock[OF rng_ok_demo_rng])
qed

section \<open>Priority windows close\<close>

lemma run_phases_append:
  "run_phases b es c (ps1 @ ps2) t ts w =
     (case run_phases b es c ps1 t ts w of
        None \<Rightarrow> None
      | Some (Inl r) \<Rightarrow> Some (Inl r)
      | Some (Inr (w', t', ts')) \<Rightarrow> run_phases b es c ps2 t' ts' w')"
proof (induction ps1 arbitrary: t ts w)
  case (Cons p ps1)
  obtain st d where p: "p = (st, d)" by (cases p)
  show ?case
  proof (cases ts)
    case (Cons t0 ts0)
    with Cons.IH show ?thesis
      by (simp add: p Let_def split: prod.split option.split sum.split)
  qed (simp add: p)
qed simp

lemma phases_clock_append:
  "phases_clock t (ds1 @ ds2) = phases_clock t ds1 @ phases_clock (t + of_int (sum_list ds1)) ds2"
  by (induction ds1 arbitrary: t) (simp_all add: algebra_simps)

lemma tick_priority:
  "priority_active (light (manager (tick cfg g c now w))) =
     priority_active (fst (update_priority now (light (manager w)) (logger w))) \<and>
   priority_end_time (light (manager (tick cfg g c now w))) =
     priority_end_time (fst (update_priority now (light (manager w)) (logger w)))"
proof -
  let ?l = "fst (update_priority now (light (manager w)) (logger w))"
  let ?m1 = "(manager w)\<lparr>light := ?l\<rparr>"
  let ?m2 = "fst (spawn_cars cfg (CAR_TYPES cfg) g now ?m1 (rng_state w))"
  obtain k where "light (fst (update_cars g ?m2 (snd (spawn_cars cfg (CAR_TYPES cfg) g now ?m1 (rng_state w))))) =
                  (light ?m2)\<lparr>total_vehicles_passed := total_vehicles_passed (light ?m2) + k\<rparr>"
    using update_cars_light[of g ?m2 "snd (spawn_cars cfg (CAR_TYPES cfg) g now ?m1 (rng_state w))"] by blast
  then show ?thesis by (simp add: tick_unfold Let_def)
qed

lemma window_until_tick:
  "window_until E (light (manager w)) \<Longrightarrow> window_until E (light (manager (tick cfg g c now w)))"
  using tick_priority[of cfg g c now w] by (simp add: window_until_def update_priority_def)

lemma tick_closes:
  "window_until E (light (manager w)) \<Longrightarrow> E < now \<Longrightarrow> \<not> priority_active (light (manager (tick cfg g c now w)))"
  using tick_priority[of cfg g c now w] by (auto simp: window_until_def update_priority_def)


lemma tick_keeps_closed:
  "\<not> priority_active (light (manager w)) \<Longrightarrow> \<not> priority_active (light (manager (tick cfg g c now w)))"
  using tick_priority[of cfg g c now w] by (simp add: update_priority_def)

lemma foldl_tick_closes:
  assumes "window_until E (light (manager w))" and "E < t"
  shows "\<not> priority_active (light (manager (foldl (\<lambda>w t. tick cfg g c t w) w (xs @ [t]))))"
proof -
  have "window_until E (light (manager (foldl (\<lambda>w t. tick cfg g c t w) w xs)))"
    by (rule foldl_inv[where P = "\<lambda>v. window_until E (light (manager v))", OF assms(1)])
       (rule window_until_tick)
  with assms(2) show ?thesis by (simp add: tick_closes)
qed

text \<open>The last phase of a cycle under the pacing clock: its last tick comes half a second
  before its deadline.\<close>

lemma run_last_phase_closes:
  assumes y: "1 \<le> y" and E: "E < t2 + of_int y - 1 / 2" and win: "window_until E (light (manager w))"
    and run: "run_phases (\<lambda>t w. Inr (tick cfg g c t w)) es c [(st, y)] t0 (phases_clock t2 [y] @ ys) w =
              Some (Inr (w', t', ts'))"
  shows "\<not> priority_active (light (manager w'))"
proof -
  let ?w1 = "w\<lparr>manager := (manager w)\<lparr>light := fst (set_state t2 st y (light (manager w)) (logger w))\<rparr>,
               logger := snd (set_state t2 st y (light (manager w)) (logger w))\<rparr>"
  obtain k where k: "2 * nat y = Suc k" using y by (intro that[of "2 * nat y - 1"]) simp
  have last: "t2 + of_nat k / 2 = t2 + of_int y - 1 / 2"
  proof -
    from k y have "real k = 2 * of_int y - 1" by linarith
    then show ?thesis by simp
  qed
  have split: "ideal_clock t2 (2 * nat y) = ideal_clock t2 k @ [t2 + of_nat k / 2]"
    by (simp only: k ideal_clock_Suc)
  have r: "run_phase (\<lambda>t w. Inr (tick cfg g c t w)) es t2 y (ideal_clock t2 (2 * nat y + 1) @ ys) ?w1 =
           Some (Inr (foldl (\<lambda>w t. tick cfg g c t w) ?w1 (ideal_clock t2 (2 * nat y)), t2 + of_int y, ys))"
    using y by (intro run_phase_ideal) simp
  let ?W = "(foldl (\<lambda>w t. tick cfg g c t w) ?w1 (ideal_clock t2 (2 * nat y)))
                 \<lparr>logger := logger_log (t2 + of_int y) (Msg_phase_end st c) INFO
                    (logger (foldl (\<lambda>w t. tick cfg g c t w) ?w1 (ideal_clock t2 (2 * nat y))))\<rparr>"
  have eq: "run_phases (\<lambda>t w. Inr (tick cfg g c t w)) es c [(st, y)] t0 (phases_clock t2 [y] @ ys) w =
            Some (Inr (?W, t2 + of_int y, ys))"
    by (simp only: phases_clock.simps phase_clock_def append_Nil2 append_Cons run_phases.simps
                   Let_def case_prod_beta r append_assoc) simp
  have w': "w' = ?W" using run eq by simp
  have "window_until E (light (manager ?w1))"
    using win by (simp add: window_until_def set_state_def)
  from foldl_tick_closes[OF this, of "t2 + of_nat k / 2" cfg g c "ideal_clock t2 k"] E last
  have "\<not> priority_active (light (manager (foldl (\<lambda>w t. tick cfg g c t w) ?w1 (ideal_clock t2 (2 * nat y)))))"
    by (simp only: split) simp
  then show ?thesis by (simp add: w')
qed


text \<open>
  C10: Under the shipped configuration and the 0.5 s pacing clock, a cycle that starts with
  no priority window open completes, and any window it opened for a priority vehicle has
  closed by its end: the last tick of the yellow phase comes after the window's end.
\<close>

theorem run_cycle_closes_window:
  assumes g: "rng_ok g" and inv: "mgr_inv CONFIG (manager w)"
    and closed: "\<not> priority_active (light (manager w))"
  shows "\<exists>r gr y w'. run_cycle CONFIG g c t (phases_clock t [r, gr, y] @ ys) w =
             Some (Inr (w', t + of_int (r + gr + y), ys)) \<and>
           \<not> priority_active (light (manager w'))"
proof -
  from inv have "lanes_ok (cars (manager w))" by (simp add: mgr_inv_def)
  from scan_traffic_no_error[OF this] obtain td sn m where
    sc: "scan_traffic t (cars (manager w)) c (sensor (manager w))
           (logger_log t (Msg_cycle_start c) CYCLE (logger w)) = Inr (td, sn, logger_log t m INFO
              (logger_log t (Msg_cycle_start c) CYCLE (logger w)))"
    by blast
  let ?lg1 = "logger_log t m INFO (logger_log t (Msg_cycle_start c) CYCLE (logger w))"
  from calculate_light_times_CONFIG_ok[OF g, of t td c "rng_state w" ?lg1]
  obtain r gr y s lg2 where
    dc: "calculate_light_times CONFIG g t td c (rng_state w) ?lg1 = Inr ((r, gr, y), s, lg2)" and
    b: "8 \<le> r \<and> r \<le> 15 \<and> 8 \<le> gr \<and> gr \<le> 17 \<and> 3 \<le> y \<and> y \<le> 5"
    by blast
  let ?act = "case td_priority td of None \<Rightarrow> (light (manager w), lg2)
              | Some ty \<Rightarrow> activate_priority t ty (gr + 2) (light (manager w)) lg2"
  let ?w1 = "w\<lparr>manager := (manager w)\<lparr>sensor := sn, light := fst ?act\<rparr>, logger := snd ?act,
               rng_state := s\<rparr>"
  let ?E = "t + of_int (gr + 2)"
  let ?body = "\<lambda>t w. Inr (tick CONFIG g c t w) :: py_error + 'a world"
  let ?P = "\<lambda>v. window_until ?E (light (manager v))"
  have win1: "?P ?w1"
    using closed by (cases "td_priority td") (simp_all add: window_until_def activate_priority_def)
  have "\<forall>p\<in>set [(Red, r), (Green, gr)]. 0 \<le> snd p" using b by auto
  from run_phases_ideal[OF this, of "\<lambda>t w. tick CONFIG g c t w" "\<lambda>t w. w" c t
                        "phases_clock (t + of_int (r + gr)) [y] @ ys" ?w1]
  obtain w2 where ph1: "run_phases ?body (\<lambda>t w. w) c [(Red, r), (Green, gr)] t
      (phases_clock t [r, gr] @ phases_clock (t + of_int (r + gr)) [y] @ ys) ?w1 =
      Some (Inr (w2, t + of_int (r + gr), phases_clock (t + of_int (r + gr)) [y] @ ys))"
    by auto
  have win2: "?P w2"
    using ph1 win1
    apply (rule run_phases_inv[where P = ?P])
      apply (erule window_until_tick)
     apply (simp add: window_until_def set_state_def)
    apply (simp add: window_until_def)
    done
  have "\<forall>p\<in>set [(Yellow, y)]. 0 \<le> snd p" using b by auto
  from run_phases_ideal[OF this, of "\<lambda>t w. tick CONFIG g c t w" "\<lambda>t w. w" c "t + of_int (r + gr)" ys w2]
  obtain w3 where ph2: "run_phases ?body (\<lambda>t w. w) c [(Yellow, y)] (t + of_int (r + gr))
      (phases_clock (t + of_int (r + gr)) [y] @ ys) w2 = Some (Inr (w3, t + of_int (r + gr) + of_int y, ys))"
    by auto
  have "1 \<le> y" and "?E < t + of_int (r + gr) + of_int y - 1 / 2" using b by simp_all
  from run_last_phase_closes[OF this win2 ph2] have cl: "\<not> priority_active (light (manager w3))" .
  have ph: "run_phases ?body (\<lambda>t w. w) c [(Red, r), (Green, gr), (Yellow, y)] t
      (phases_clock t [r, gr, y] @ ys) ?w1 = Some (Inr (w3, t + of_int (r + gr + y), ys))"
    using run_phases_append[of ?body "\<lambda>t w. w" c "[(Red, r), (Green, gr)]" "[(Yellow, y)]"]
          phases_clock_append[of t "[r, gr]" "[y]"] ph1 ph2
    by (simp add: algebra_simps)
  have "run_cycle CONFIG g c t (phases_clock t [r, gr, y] @ ys) w =
          Some (Inr (w3\<lparr>manager := (manager w3)\<lparr>light := increment_cycle (light (manager w3))\<rparr>\<rparr>,
                     t + of_int (r + gr + y), ys))"
    using sc dc ph
    by (cases "td_priority td") (auto simp: run_cycle_def run_cycle_with_def Let_def split: prod.split)
  with cl show ?thesis
    by (intro exI[of _ r] exI[of _ gr] exI[of _ y]
              exI[of _ "w3\<lparr>manager := (manager w3)\<lparr>light := increment_cycle (light (manager w3))\<rparr>\<rparr>"])
       (simp add: increment_cycle_def)
qed

theorem run_cycle_closes_window_witness:
  "\<exists>r gr y w'. run_cycle CONFIG demo_rng 1 0 (phases_clock 0 [r, gr, y] @ []) demo_world =
       Some (Inr (w', 0 + of_int (r + gr + y), [])) \<and> \<not> priority_active (light (manager w'))"
proof -
  have "mgr_inv CONFIG (manager demo_world)" by (simp add: demo_world_def mgr_inv_init CONFIG_def)
  moreover have "\<not> priority_active (light (manager demo_world))"
    by (simp add: demo_world_def TrafficManager_init_def SmartTrafficLight_init_def)
  ultimately show ?thesis by (rule run_cycle_closes_window[OF rng_ok_demo_rng])
qed

end
