(* ===== verification/Page.thy ===== *)
theory Page
  imports Manager
begin

text \<open>
  The browser page the web server hands out (the JavaScript of lines 660--825). Every
  500 ms \<^verbatim>\<open>fetchData\<close> reads \<^verbatim>\<open>traffic_data.json\<close>, the snapshot of
  \<open>write_simulation_data\<close>, and calls \<^verbatim>\<open>updateDisplay\<close>, which fills the
  panel, then \<^verbatim>\<open>drawScene\<close>, which paints the canvas.
  \<^item> The panel is a record \<open>dom\<close> of the texts the script sets; \<open>updateDisplay\<close>
    returns it updated.
  \<^item> The drawing functions return the list of 2D-context calls they make
    (\<open>canvas_call\<close>), in order. \<open>canvas_step\<close> is the context as the browser keeps
    it: the current styles, the current path and what has been painted.
  \<^item> The JavaScript library functions the script calls are written out from the
    ECMAScript definitions: \<^verbatim>\<open>substring\<close>, \<^verbatim>\<open>toUpperCase\<close> on ASCII, number to
    string for integers, and \<^verbatim>\<open>toFixed(1)\<close> for the non-negative numbers below
    \<open>10\<^sup>2\<^sup>1\<close> the timer shows.
  Vietnamese letters of the fixed labels are written without their diacritics.
\<close>

section \<open>JavaScript library functions\<close>

text \<open>\<^verbatim>\<open>s.substring(a, b)\<close>: both ends clamped to \<open>[0, length]\<close>, then swapped if needed.\<close>

definition js_substring :: "string \<Rightarrow> int \<Rightarrow> int \<Rightarrow> string" where
  "js_substring s a b =
     (let n = int (length s); a' = min (max a 0) n; b' = min (max b 0) n
      in take (nat (max a' b' - min a' b')) (drop (nat (min a' b')) s))"

definition js_substring_from :: "string \<Rightarrow> int \<Rightarrow> string" where
  "js_substring_from s a = js_substring s a (int (length s))"

definition js_upper :: "string \<Rightarrow> string" where
  "js_upper s = map (\<lambda>c. let k = (of_char c :: nat) in if 97 \<le> k \<and> k \<le> 122 then char_of (k - 32) else c) s"

fun decimal :: "nat \<Rightarrow> string" where
  "decimal n = (if n < 10 then [char_of (48 + n)] else decimal (n div 10) @ [char_of (48 + n mod 10)])"

declare decimal.simps [simp del]

definition int_decimal :: "int \<Rightarrow> string" where
  "int_decimal i = (if i < 0 then ''-'' @ decimal (nat (- i)) else decimal (nat i))"

text \<open>Reading a decimal numeral back.\<close>

definition parse_decimal :: "string \<Rightarrow> nat option" where
  "parse_decimal s =
     (if s \<noteq> [] \<and> list_all (\<lambda>c. digit_val c \<noteq> None) s
      then Some (foldl (\<lambda>a c. 10 * a + the (digit_val c)) 0 s) else None)"

text \<open>\<^verbatim>\<open>x.toFixed(1)\<close>: the integer \<open>n\<close> nearest to \<open>10 x\<close>, the larger one on a tie.\<close>

definition to_fixed1 :: "real \<Rightarrow> string" where
  "to_fixed1 x =
     (let y = \<bar>x\<bar>; n = nat \<lfloor>10 * y + 1 / 2\<rfloor>
      in (if x < 0 then ''-'' else []) @ decimal (n div 10) @ ''.'' @ [char_of (48 + n mod 10)])"

section \<open>The panel\<close>

record dom =
  dom_cycle :: string
  dom_max_cycle :: string
  dom_vehicles_passed :: string
  dom_state_text :: string
  dom_state_class :: string
  dom_timer :: string
  dom_priority_display :: string
  dom_priority_type :: string
  dom_log :: string

text \<open>The panel as the markup builds it (lines 624--652).\<close>

definition initial_dom :: dom where
  "initial_dom =
     \<lparr>dom_cycle = ''1'', dom_max_cycle = ''10'', dom_vehicles_passed = ''0'', dom_state_text = ''DO'',
      dom_state_class = ''light-state'', dom_timer = ''0.0s'', dom_priority_display = ''none'',
      dom_priority_type = [], dom_log = []\<rparr>"

text \<open>One line of the log panel (lines 784--786).\<close>

definition log_entry_html :: "string \<Rightarrow> string" where
  \<open>log_entry_html entry =
     ''<div class="log-entry"><span class="log-time">'' @ js_substring entry 1 9 @ ''</span> '' @
     js_substring_from entry 12 @ ''</div>''\<close>

text \<open>
  \<^verbatim>\<open>updateDisplay(data)\<close> (lines 762--791). \<open>render\<close> is the text of a log entry as
  the snapshot carries it. Every field it reads is in the snapshot with the type it uses:
  \<^verbatim>\<open>priority_type\<close> is always a string (\<^verbatim>\<open>"none"\<close> or a vehicle type), so
  \<^verbatim>\<open>toUpperCase()\<close> cannot throw and the update always completes.
\<close>

definition updateDisplay :: "(log_entry \<Rightarrow> string) \<Rightarrow> snapshot \<Rightarrow> dom \<Rightarrow> dom" where
  "updateDisplay render data d =
     (let d1 = d\<lparr>dom_cycle := decimal (snap_current_cycle data),
                 dom_max_cycle := int_decimal (snap_max_cycles data),
                 dom_vehicles_passed := decimal (snap_total_vehicles_passed data),
                 dom_state_text := js_upper (snap_light_state data),
                 dom_state_class := ''light-state state-'' @ snap_light_state data,
                 dom_timer := to_fixed1 (snap_remaining_time data) @ ''s''\<rparr>;
          d2 = (if snap_priority_active data
                then d1\<lparr>dom_priority_display := ''block'',
                        dom_priority_type := js_upper (snap_priority_type data) @ '' UU TIEN''\<rparr>
                else d1\<lparr>dom_priority_display := ''none''\<rparr>)
      in d2\<lparr>dom_log := concat (map (log_entry_html \<circ> render) (snap_log data))\<rparr>)"

section \<open>The canvas\<close>

text \<open>The 2D-context calls the script makes; \<open>Arc x y r\<close> is a full circle.\<close>

datatype canvas_call =
    Set_fill_style string
  | Set_stroke_style string
  | Set_line_width int
  | Set_line_dash "int list"
  | Set_font string
  | Clear_rect real real real real
  | Fill_rect real real real real
  | Begin_path
  | Move_to real real
  | Line_to real real
  | Arc real real real
  | Stroke
  | Fill
  | Fill_text string real real

datatype path_seg = Seg_move real real | Seg_line real real | Seg_arc real real real

datatype painted =
    Painted_clear real real real real
  | Painted_rect string real real real real
  | Painted_stroke string int "int list" "path_seg list"
  | Painted_fill string "path_seg list"
  | Painted_text string string string real real

record canvas =
  c_fill :: string
  c_stroke :: string
  c_line_width :: int
  c_dash :: "int list"
  c_font :: string
  c_path :: "path_seg list"
  c_painted :: "painted list"

text \<open>The context as the browser keeps it: the styles set last apply to what is painted.\<close>

fun canvas_step :: "canvas_call \<Rightarrow> canvas \<Rightarrow> canvas" where
  "canvas_step (Set_fill_style s) c = c\<lparr>c_fill := s\<rparr>"
| "canvas_step (Set_stroke_style s) c = c\<lparr>c_stroke := s\<rparr>"
| "canvas_step (Set_line_width w) c = c\<lparr>c_line_width := w\<rparr>"
| "canvas_step (Set_line_dash d) c = c\<lparr>c_dash := d\<rparr>"
| "canvas_step (Set_font f) c = c\<lparr>c_font := f\<rparr>"
| "canvas_step (Clear_rect x y w h) c = c\<lparr>c_painted := c_painted c @ [Painted_clear x y w h]\<rparr>"
| "canvas_step (Fill_rect x y w h) c = c\<lparr>c_painted := c_painted c @ [Painted_rect (c_fill c) x y w h]\<rparr>"
| "canvas_step Begin_path c = c\<lparr>c_path := []\<rparr>"
| "canvas_step (Move_to x y) c = c\<lparr>c_path := c_path c @ [Seg_move x y]\<rparr>"
| "canvas_step (Line_to x y) c = c\<lparr>c_path := c_path c @ [Seg_line x y]\<rparr>"
| "canvas_step (Arc x y r) c = c\<lparr>c_path := c_path c @ [Seg_arc x y r]\<rparr>"
| "canvas_step Stroke c =
     c\<lparr>c_painted := c_painted c @ [Painted_stroke (c_stroke c) (c_line_width c) (c_dash c) (c_path c)]\<rparr>"
| "canvas_step Fill c = c\<lparr>c_painted := c_painted c @ [Painted_fill (c_fill c) (c_path c)]\<rparr>"
| "canvas_step (Fill_text t x y) c = c\<lparr>c_painted := c_painted c @ [Painted_text (c_fill c) (c_font c) t x y]\<rparr>"

definition paint :: "canvas_call list \<Rightarrow> canvas \<Rightarrow> canvas" where
  "paint cs c = fold canvas_step cs c"

text \<open>\<^verbatim>\<open>drawRoad()\<close> (lines 676--707): the road, the two dashed lane lines, the stop line.\<close>

definition drawRoad :: "canvas_call list" where
  "drawRoad =
     [Set_fill_style ''#34495e'', Fill_rect 0 0 800 500,
      Set_stroke_style ''white'', Set_line_width 2, Set_line_dash [10, 15]] @
     concat (map (\<lambda>i. let y = 500 / 3 * of_nat i in [Begin_path, Move_to 0 y, Line_to 800 y, Stroke]) [1, 2]) @
     [Set_line_dash [],
      Set_stroke_style ''white'', Set_line_width 3, Begin_path, Move_to 350 0, Line_to 350 500, Stroke,
      Set_fill_style ''red'', Set_font ''12px Arial'', Fill_text ''VACH DUNG'' 360 (500 / 2)]"

text \<open>The lamps of \<^verbatim>\<open>drawTrafficLight\<close>: colour, state and height.\<close>

definition lamps :: "(string \<times> string \<times> real) list" where
  "lamps = [(''#e74c3c'', ''red'', 50 + 20), (''#f39c12'', ''yellow'', 50 + 80), (''#27ae60'', ''green'', 50 + 140)]"

text \<open>\<^verbatim>\<open>drawTrafficLight(state)\<close> (lines 711--739).\<close>

definition drawTrafficLight :: "string \<Rightarrow> canvas_call list" where
  "drawTrafficLight st =
     [Set_fill_style ''#2c3e50'', Fill_rect 700 50 80 200,
      Set_fill_style ''#34495e'', Fill_rect (700 - 10) (50 + 200) 100 20] @
     concat (map (\<lambda>(color, s, y).
        [Begin_path, Arc (700 + 80 / 2) y 25, Set_fill_style (if s = st then color else ''#7f8c8d''), Fill,
         Set_stroke_style ''#2c3e50'', Set_line_width 2, Stroke]) lamps)"

text \<open>\<^verbatim>\<open>drawCars(cars)\<close> (lines 742--759): lane \<open>k\<close> is drawn at height \<open>50 + 125 k\<close>.\<close>

definition car_y :: "int \<Rightarrow> real" where
  "car_y l = 50 + of_int l * (500 / 4)"

definition drawCar :: "display_info \<Rightarrow> canvas_call list" where
  "drawCar ci =
     (let x = d_position ci; y = car_y (d_lane ci)
      in [Set_font ''30px Arial'', Fill_text (d_emoji ci) x y] @
         (if 30 < d_waiting_time ci
          then [Set_fill_style ''red'', Set_font ''12px Arial'',
                Fill_text (decimal (d_waiting_time ci) @ ''s'') x (y - 10)]
          else []))"

definition drawCars :: "display_info list \<Rightarrow> canvas_call list" where
  "drawCars cs = concat (map drawCar cs)"

text \<open>\<^verbatim>\<open>drawScene(data)\<close> (lines 794--802).\<close>

definition drawScene :: "snapshot \<Rightarrow> canvas_call list" where
  "drawScene data =
     [Clear_rect 0 0 800 500] @ drawRoad @ drawTrafficLight (snap_light_state data) @ drawCars (snap_cars data)"

section \<open>The page\<close>

record page =
  pg_dom :: dom
  pg_canvas :: canvas

text \<open>
  \<^verbatim>\<open>fetchData()\<close> (lines 805--815): \<open>None\<close> is a failed fetch or an unreadable file,
  which the handler only reports on the console; otherwise the panel is updated and the
  scene redrawn.
\<close>

definition fetchData :: "(log_entry \<Rightarrow> string) \<Rightarrow> snapshot option \<Rightarrow> page \<Rightarrow> page" where
  "fetchData render file p =
     (case file of
        None \<Rightarrow> p
      | Some data \<Rightarrow>
          p\<lparr>pg_dom := updateDisplay render data (pg_dom p), pg_canvas := paint (drawScene data) (pg_canvas p)\<rparr>)"

text \<open>\<^verbatim>\<open>clearLog()\<close> (lines 817--820), the handler of the clear button.\<close>

definition clearLog :: "page \<Rightarrow> page" where
  "clearLog p = p\<lparr>pg_dom := (pg_dom p)\<lparr>dom_log := []\<rparr>\<rparr>"

text \<open>A fresh 2D context: black styles, a one-pixel solid line, the default font.\<close>

definition blank_canvas :: canvas where
  "blank_canvas =
     \<lparr>c_fill = ''#000000'', c_stroke = ''#000000'', c_line_width = 1, c_dash = [],
      c_font = ''10px sans-serif'', c_path = [], c_painted = []\<rparr>"

text \<open>
  What the page relies on in the file: a light state it has a lamp for, lanes it has rows
  for, a non-negative timer, at most ten log lines, and a priority type exactly while a
  window is open.
\<close>

definition snapshot_wf :: "snapshot \<Rightarrow> bool" where
  "snapshot_wf d \<longleftrightarrow>
     snap_light_state d \<in> {''red'', ''green'', ''yellow''} \<and>
     (\<forall>c\<in>set (snap_cars d). d_lane c \<in> {0, 1, 2, 3}) \<and>
     0 \<le> snap_remaining_time d \<and> length (snap_log d) \<le> 10 \<and>
     (snap_priority_active d \<longleftrightarrow> snap_priority_type d \<noteq> ''none'')"

text \<open>The figures of a snapshot the panel shows, and the panel read back.\<close>

definition snap_view :: "snapshot \<Rightarrow> nat \<times> nat \<times> bool \<times> string" where
  "snap_view d = (snap_current_cycle d, snap_total_vehicles_passed d, snap_priority_active d,
                  snap_light_state d)"

definition panel_view :: "dom \<Rightarrow> (nat \<times> nat \<times> bool \<times> string) option" where
  "panel_view dm =
     (case (parse_decimal (dom_cycle dm), parse_decimal (dom_vehicles_passed dm)) of
        (Some c, Some n) \<Rightarrow>
          Some (c, n, dom_priority_display dm = ''block'', drop 18 (dom_state_class dm))
      | _ \<Rightarrow> None)"

text \<open>What a painting shows: the lamps lit (filled circles of the lamp column not in grey)
  and the car glyphs.\<close>

fun lit_lamp :: "painted \<Rightarrow> (real \<times> string) option" where
  "lit_lamp (Painted_fill col [Seg_arc x y r]) =
     (if x = 740 \<and> r = 25 \<and> col \<noteq> ''#7f8c8d'' then Some (y, col) else None)"
| "lit_lamp p = None"

definition lit_lamps :: "painted list \<Rightarrow> (real \<times> string) list" where
  "lit_lamps ps = List.map_filter lit_lamp ps"

fun lamp_of :: "light_state \<Rightarrow> real \<times> string" where
  "lamp_of Red = (70, ''#e74c3c'')"
| "lamp_of Yellow = (130, ''#f39c12'')"
| "lamp_of Green = (190, ''#27ae60'')"

text \<open>What a list of calls paints on top of what was there.\<close>

definition new_paint :: "canvas_call list \<Rightarrow> canvas \<Rightarrow> painted list" where
  "new_paint cs c = drop (length (c_painted c)) (c_painted (paint cs c))"

section \<open>Properties of the canvas\<close>

lemma paint_append [simp]: "paint (xs @ ys) c = paint ys (paint xs c)"
  by (simp add: paint_def)

lemma paint_Cons [simp]: "paint (x # xs) c = paint xs (canvas_step x c)"
  by (simp add: paint_def)

lemma paint_Nil [simp]: "paint [] c = c"
  by (simp add: paint_def)

lemma canvas_step_painted: "\<exists>ps. c_painted (canvas_step x c) = c_painted c @ ps"
  by (cases x) auto

lemma paint_painted: "\<exists>ps. c_painted (paint cs c) = c_painted c @ ps"
proof (induction cs arbitrary: c)
  case (Cons x cs)
  from Cons.IH[of "canvas_step x c"] canvas_step_painted[of x c] show ?case by auto
qed simp

lemma new_paint_append:
  "new_paint (xs @ ys) c = new_paint xs c @ new_paint ys (paint xs c)"
proof -
  obtain ps where p: "c_painted (paint xs c) = c_painted c @ ps" using paint_painted by blast
  obtain qs where q: "c_painted (paint ys (paint xs c)) = c_painted (paint xs c) @ qs"
    using paint_painted by blast
  show ?thesis by (simp add: new_paint_def p q)
qed

lemma new_paint_Nil [simp]: "new_paint [] c = []"
  by (simp add: new_paint_def)

lemma new_paint_step:
  "new_paint [x] c = drop (length (c_painted c)) (c_painted (canvas_step x c))"
  by (simp add: new_paint_def)

lemma lit_lamps_append [simp]: "lit_lamps (xs @ ys) = lit_lamps xs @ lit_lamps ys"
  by (simp add: lit_lamps_def map_filter_def)

text \<open>Only \<^verbatim>\<open>fill()\<close> paints a filled path, so calls without it light no lamp.\<close>

lemma lit_lamps_no_fill:
  "Fill \<notin> set cs \<Longrightarrow> lit_lamps (new_paint cs c) = []"
proof (induction cs arbitrary: c)
  case (Cons x cs)
  have "lit_lamps (new_paint [x] c) = []"
    using Cons.prems by (cases x) (simp_all add: new_paint_step lit_lamps_def map_filter_simps)
  with Cons show ?case
    by (simp add: new_paint_append[of "[x]" cs, simplified])
qed (simp add: lit_lamps_def map_filter_simps)

lemma drawRoad_no_fill: "Fill \<notin> set drawRoad"
  unfolding drawRoad_def by (simp only: set_append set_concat set_map list.set Let_def) auto

lemma drawCars_no_fill: "Fill \<notin> set (drawCars cs)"
  by (induction cs) (simp_all add: drawCars_def drawCar_def Let_def)

lemma drawTrafficLight_lamp:
  "lit_lamps (new_paint (drawTrafficLight (light_state_name s)) c) = [lamp_of s]"
  by (cases s)
     (simp_all add: drawTrafficLight_def lamps_def new_paint_def lit_lamps_def map_filter_simps)

section \<open>Properties of the page\<close>

lemma new_paint_drawCar:
  "new_paint (drawCar ci) cv =
     Painted_text (c_fill cv) ''30px Arial'' (d_emoji ci) (d_position ci) (car_y (d_lane ci)) #
     (if 30 < d_waiting_time ci
      then [Painted_text ''red'' ''12px Arial'' (decimal (d_waiting_time ci) @ ''s'')
              (d_position ci) (car_y (d_lane ci) - 10)]
      else [])"
  by (simp add: drawCar_def new_paint_def Let_def)

lemma new_paint_drawCars:
  "p \<in> set (new_paint (drawCars cs) cv) \<Longrightarrow>
   \<exists>ci\<in>set cs. (\<exists>f. p = Painted_text f ''30px Arial'' (d_emoji ci) (d_position ci) (car_y (d_lane ci))) \<or>
     (30 < d_waiting_time ci \<and>
      p = Painted_text ''red'' ''12px Arial'' (decimal (d_waiting_time ci) @ ''s'')
            (d_position ci) (car_y (d_lane ci) - 10))"
proof (induction cs arbitrary: cv)
  case (Cons ci cs)
  have "new_paint (drawCars (ci # cs)) cv =
          new_paint (drawCar ci) cv @ new_paint (drawCars cs) (paint (drawCar ci) cv)"
    by (simp add: drawCars_def new_paint_append)
  with Cons show ?case
    by (auto simp: new_paint_drawCar split: if_splits)
qed (simp add: drawCars_def)

lemma scene_lamp:
  "lit_lamps (new_paint (drawScene (write_simulation_data cfg now c m lg)) cv) = [lamp_of (state (light m))]"
proof -
  let ?d = "write_simulation_data cfg now c m lg"
  have "Fill \<notin> set ([Clear_rect 0 0 800 500] @ drawRoad)" using drawRoad_no_fill by simp
  then show ?thesis
    by (simp add: drawScene_def new_paint_append lit_lamps_no_fill drawCars_no_fill
                  write_simulation_data_def drawTrafficLight_lamp
             del: append_Cons)
qed

text \<open>
  C18: The page lights exactly one lamp of the signal drawing, the one of the phase in the
  snapshot, in its colour: red at the top, yellow in the middle, green at the bottom.
\<close>

theorem drawScene_lamp:
  "lit_lamps (new_paint (drawScene (write_simulation_data cfg now c m lg)) cv) = [lamp_of (state (light m))]"
  by (rule scene_lamp)

text \<open>
  C25: A line of the log panel shows the entry's HH:MM:SS, then the level with its opening
  bracket cut off, then the message: substring(12) starts one character into "[LEVEL]".
\<close>

theorem log_entry_html_log_text:
  \<open>log_entry_html (log_text tz txt e) =
     ''<div class="log-entry"><span class="log-time">'' @ hms (nat ((\<lfloor>stamp e\<rfloor> + tz) mod 86400)) @
     ''</span> '' @ level_name (level e) @ ''] '' @ txt (message e) @ ''</div>''\<close>
  by (simp add: log_entry_html_def log_text_def format_log_line_def js_substring_from_def
                js_substring_def min_def max_def)

text \<open>
  C27: On a manager whose cars are all in lanes 0..3, every car glyph the page draws sits on
  one of the four rows 50, 175, 300, 425 of the 500-pixel canvas.
\<close>

theorem drawCars_rows:
  assumes "lanes_ok (cars m)"
    and "Painted_text f ''30px Arial'' t x y \<in> set (new_paint (drawCars (snap_cars (write_simulation_data cfg now c m lg))) cv)"
  shows "y \<in> {50, 175, 300, 425}"
proof -
  from new_paint_drawCars[OF assms(2)] obtain ci where
    ci: "ci \<in> set (map get_display_info (cars m))" and y: "y = car_y (d_lane ci)"
    by (auto simp: write_simulation_data_def)
  from ci obtain cr where "cr \<in> set (cars m)" "ci = get_display_info cr" by auto
  with assms(1) have "d_lane ci \<in> {0, 1, 2, 3}"
    by (auto simp: lanes_ok_def get_display_info_def)
  with y show ?thesis by (auto simp: car_y_def)
qed


theorem drawCars_rows_witness:
  "lanes_ok (cars ((TrafficManager_init CONFIG 0)\<lparr>cars := demo_cars\<rparr>)) \<and>
   Painted_text ''#000000'' ''30px Arial'' ''AMBULANCE'' (-93) 300 \<in>
     set (new_paint (drawCars (snap_cars (write_simulation_data CONFIG 0 1
            ((TrafficManager_init CONFIG 0)\<lparr>cars := demo_cars\<rparr>) (new_logger ''traffic_log.txt'')))) blank_canvas) \<and>
   (300::real) \<in> {50, 175, 300, 425}"
proof -
  have ok: "lanes_ok (cars ((TrafficManager_init CONFIG 0)\<lparr>cars := demo_cars\<rparr>))"
    by (simp add: lanes_ok_def demo_cars_eq)
  have mem: "Painted_text ''#000000'' ''30px Arial'' ''AMBULANCE'' (-93) 300 \<in>
     set (new_paint (drawCars (snap_cars (write_simulation_data CONFIG 0 1
            ((TrafficManager_init CONFIG 0)\<lparr>cars := demo_cars\<rparr>) (new_logger ''traffic_log.txt'')))) blank_canvas)"
    by (simp add: drawCars_def new_paint_append new_paint_drawCar write_simulation_data_def demo_cars_eq
                  get_display_info_def car_y_def blank_canvas_def del: append_Cons)
  show ?thesis using ok mem drawCars_rows[OF ok mem] by blast
qed

lemma decimal_digits:
  "list_all (\<lambda>c. digit_val c \<noteq> None) (decimal n) \<and> decimal n \<noteq> [] \<and>
   foldl (\<lambda>a c. 10 * a + the (digit_val c)) 0 (decimal n) = n"
proof (induction n rule: decimal.induct)
  case (1 n)
  show ?case
  proof (cases "n < 10")
    case True
    then show ?thesis unfolding decimal.simps[of n] by simp
  next
    case False
    with "1.IH" show ?thesis unfolding decimal.simps[of n] by simp
  qed
qed

text \<open>
  The decimal numeral the page prints for a count (cycle, vehicles passed, waiting
  time) is non-empty, all digits, and reads back as that count.
\<close>

theorem decimal_roundtrip: "parse_decimal (decimal n) = Some n"
  using decimal_digits[of n] by (simp add: parse_decimal_def)

lemma tick_light_inv:
  assumes "light_inv (light (manager w))"
  shows "light_inv (light (manager (tick cfg g c now w)))"
proof -
  let ?l = "fst (update_priority now (light (manager w)) (logger w))"
  have l: "light_inv ?l"
    using light_apply_inv[OF assms, of now Op_update_priority "logger w"] by simp
  let ?m1 = "(manager w)\<lparr>light := ?l\<rparr>"
  let ?m2 = "fst (spawn_cars cfg (CAR_TYPES cfg) g now ?m1 (rng_state w))"
  obtain k where "light (fst (update_cars g ?m2 (snd (spawn_cars cfg (CAR_TYPES cfg) g now ?m1 (rng_state w))))) =
                  (light ?m2)\<lparr>total_vehicles_passed := total_vehicles_passed (light ?m2) + k\<rparr>"
    using update_cars_light[of g ?m2 "snd (spawn_cars cfg (CAR_TYPES cfg) g now ?m1 (rng_state w))"] by blast
  with l show ?thesis by (simp add: tick_unfold Let_def light_inv_def)
qed

lemma length_recent_10: "length (get_recent_logs 10 lg) \<le> 10"
  by (auto simp: get_recent_logs_def py_suffix_def)

text \<open>
  C16: Every snapshot a tick writes from a manager keeping its invariant and a light keeping
  its class invariant has the shape the page relies on: a known light state, lanes 0..3,
  a non-negative timer, at most ten log lines, and a priority type other than
  "none" exactly while a window is open.
\<close>

theorem tick_snapshot_wf:
  assumes "rng_ok g" and "speeds_ok cfg" and "mgr_inv cfg (manager w)"
    and "light_inv (light (manager w))" and "data_file (tick cfg g c now w) = Some d"
  shows "snapshot_wf d"
proof -
  let ?w' = "tick cfg g c now w"
  have m: "mgr_inv cfg (manager ?w')" by (rule tick_inv[OF assms(1-3)])
  have l: "light_inv (light (manager ?w'))" by (rule tick_light_inv[OF assms(4)])
  have d: "d = write_simulation_data cfg now c (manager ?w') (logger ?w')"
    using assms(5) tick_snapshot_current[of cfg g c now w] by simp
  have "light_state_name (state (light (manager ?w'))) \<in> {''red'', ''green'', ''yellow''}"
    by (cases "state (light (manager ?w'))") simp_all
  with m l show ?thesis
    by (auto simp: d snapshot_wf_def write_simulation_data_def mgr_inv_def lanes_ok_def
                   get_display_info_def light_inv_def time_left_nonneg length_recent_10)
qed

theorem tick_snapshot_wf_witness:
  "\<exists>d. data_file (tick CONFIG demo_rng 1 3 demo_world) = Some d \<and> snapshot_wf d"
proof -
  have i: "mgr_inv CONFIG (manager demo_world)"
    by (simp add: demo_world_def mgr_inv_init CONFIG_def)
  have l: "light_inv (light (manager demo_world))"
    by (simp add: demo_world_def TrafficManager_init_def light_inv_init)
  obtain d where d: "data_file (tick CONFIG demo_rng 1 3 demo_world) = Some d"
    using tick_snapshot_current[of CONFIG demo_rng 1 3 demo_world] by blast
  from tick_snapshot_wf[OF rng_ok_demo_rng speeds_ok_CONFIG i l d] d show ?thesis by blast
qed

lemma panel_view_updateDisplay:
  "panel_view (updateDisplay render d dm) = Some (snap_view d)"
  using decimal_digits[of "snap_current_cycle d"] decimal_digits[of "snap_total_vehicles_passed d"]
  by (simp add: updateDisplay_def panel_view_def snap_view_def parse_decimal_def Let_def)

text \<open>
  C17: The panel refines the snapshot: after updateDisplay, reading the panel back gives
  exactly the snapshot's cycle, vehicle count, priority flag and light state.
\<close>

theorem updateDisplay_refines:
  "panel_view (updateDisplay render d dm) = Some (snap_view d)"
  by (rule panel_view_updateDisplay)

end
