(* ===== verification/Server.thy ===== *)
theory Server
  imports Cycle Page
begin

text \<open>
  The program's files and its web server: the part of
  \<^verbatim>\<open>src/New folder/dengiaothong.py\<close> that connects the simulation thread, which writes
  files, to the browser page, which reads them over HTTP.
  \<^item> The file system is the record \<open>fs\<close>: the process's working directory and a map
    from (directory, file name) to contents. Every file the program names is relative,
    so each access goes to the working directory of the moment.
  \<^item> The program's file operations are the events \<open>io_event\<close> with their effect
    \<open>io_step\<close>: the logger's append (lines 55--56), the snapshot write of
    \<^verbatim>\<open>write_simulation_data\<close> (lines 383--384), and \<^verbatim>\<open>start_web_server\<close>'s page write
    and \<^verbatim>\<open>os.chdir\<close> (lines 839--844); the start-up's \<^verbatim>\<open>os.path.exists\<close> and
    \<^verbatim>\<open>os.remove\<close> (lines 866--867) are \<open>startup_v1\<close>.
  \<^item> \<open>tick_events\<close> are the file events of one tick of the \<open>Manager\<close> theory, in the
    order the code makes them; \<open>log_events\<close> are the lines a list of log entries adds.
  \<^item> The simulation thread and the main thread run concurrently: a run of both is an
    \<open>interleave\<close>ing of their event lists, and the theorems hold for every one.
  \<^item> The handler \<^verbatim>\<open>TrafficHTTPRequestHandler\<close> (lines 832--835) is
    \<^verbatim>\<open>SimpleHTTPRequestHandler\<close> with logging switched off; \<open>http_get\<close> is its
    \<^verbatim>\<open>GET\<close> of a file of the served directory, after the library's
    \<^verbatim>\<open>translate_path\<close>, which cuts the query and the fragment. \<open>read_json\<close> is the
    page's \<^verbatim>\<open>response.json()\<close>.
  The theorems: the page's fetch reads the last snapshot a tick wrote; a start from
  another directory serves no page; a first start without a log file leaves one, so the
  next start binds the manager.
\<close>

section \<open>Files and the working directory\<close>

text \<open>A path: the directory it is relative to, and the file name.\<close>

type_synonym fpath = "string \<times> string"

text \<open>
  What a file holds: text lines (the log), the JSON of a snapshot (written by
  \<^verbatim>\<open>json.dump\<close>), or the page \<^verbatim>\<open>HTML_CONTENT\<close>.
\<close>

datatype file_content =
    File_text "string list"
  | File_json snapshot
  | File_html

record fs =
  fs_cwd :: string
  fs_files :: "fpath \<rightharpoonup> file_content"

text \<open>\<^verbatim>\<open>HTML_FILE\<close> (line 36) and the snapshot file name of line 383.\<close>

definition HTML_FILE :: string where
  "HTML_FILE = ''traffic_simulation.html''"

definition DATA_FILE :: string where
  "DATA_FILE = ''traffic_data.json''"

text \<open>The lines of a text file; a missing file has none.\<close>

fun text_lines :: "file_content option \<Rightarrow> string list" where
  "text_lines (Some (File_text ls)) = ls"
| "text_lines _ = []"

text \<open>The file operations of the program, each relative to the working directory.\<close>

datatype io_event =
    Append_log string
  | Write_data snapshot
  | Write_html
  | Chdir string
  | Remove_log

text \<open>
  \<^verbatim>\<open>open(LOG_FILE, "a")\<close> creates the file if needed and adds the line;
  \<^verbatim>\<open>open(..., "w")\<close> replaces the file; \<^verbatim>\<open>os.chdir\<close> moves the working
  directory; \<^verbatim>\<open>os.remove\<close> deletes the log.
\<close>

fun io_step :: "config \<Rightarrow> fs \<Rightarrow> io_event \<Rightarrow> fs" where
  "io_step cfg f (Append_log l) =
     f\<lparr>fs_files := (fs_files f)((fs_cwd f, LOG_FILE cfg) \<mapsto>
                     File_text (text_lines (fs_files f (fs_cwd f, LOG_FILE cfg)) @ [l]))\<rparr>"
| "io_step cfg f (Write_data d) = f\<lparr>fs_files := (fs_files f)((fs_cwd f, DATA_FILE) \<mapsto> File_json d)\<rparr>"
| "io_step cfg f Write_html = f\<lparr>fs_files := (fs_files f)((fs_cwd f, HTML_FILE) \<mapsto> File_html)\<rparr>"
| "io_step cfg f (Chdir d) = f\<lparr>fs_cwd := d\<rparr>"
| "io_step cfg f Remove_log = f\<lparr>fs_files := (fs_files f)((fs_cwd f, LOG_FILE cfg) := None)\<rparr>"

definition io_run :: "config \<Rightarrow> fs \<Rightarrow> io_event list \<Rightarrow> fs" where
  "io_run cfg = foldl (io_step cfg)"

text \<open>The events of the simulation thread: log lines and snapshots.\<close>

fun thread_event :: "io_event \<Rightarrow> bool" where
  "thread_event (Append_log l) = True"
| "thread_event (Write_data d) = True"
| "thread_event _ = False"

fun log_event :: "io_event \<Rightarrow> bool" where
  "log_event (Append_log l) = True"
| "log_event _ = False"

definition log_events :: "int \<Rightarrow> (log_msg \<Rightarrow> string) \<Rightarrow> log_entry list \<Rightarrow> io_event list" where
  "log_events tz txt es = map (\<lambda>e. Append_log (log_text tz txt e)) es"

text \<open>
  The file events of one tick (lines 353--362 with lines 383--384): the lines of the
  entries it logs (only the expiry of a priority window), then the snapshot.
\<close>

definition tick_events ::
  "config \<Rightarrow> 'r rng \<Rightarrow> nat \<Rightarrow> real \<Rightarrow> int \<Rightarrow> (log_msg \<Rightarrow> string) \<Rightarrow> 'r world \<Rightarrow> io_event list" where
  "tick_events cfg g cyc now tz txt w =
     (let w' = tick cfg g cyc now w
      in log_events tz txt (drop (length (entries (logger w))) (entries (logger w'))) @
         [Write_data (write_simulation_data cfg now cyc (manager w') (logger w'))])"

text \<open>
  The start-up of the first copy (lines 866--867): \<^verbatim>\<open>os.path.exists(LOG_FILE)\<close>
  in the working directory, and if so the removal; the flag is whether
  \<^verbatim>\<open>traffic_manager\<close> gets bound (line 870, nested under the test).
\<close>

definition startup_v1 :: "config \<Rightarrow> fs \<Rightarrow> bool \<times> fs" where
  "startup_v1 cfg f =
     (if fs_files f (fs_cwd f, LOG_FILE cfg) \<noteq> None then (True, io_step cfg f Remove_log) else (False, f))"

section \<open>The web server\<close>

text \<open>
  \<^verbatim>\<open>start_web_server()\<close> (lines 837--855): write the page into the working directory,
  change to the script's directory \<open>script_dir\<close>, and serve it until interrupted.
\<close>

definition start_web_server :: "string \<Rightarrow> io_event list" where
  "start_web_server script_dir = [Write_html, Chdir script_dir]"

text \<open>
  \<^verbatim>\<open>SimpleHTTPRequestHandler.translate_path\<close>: the path of a request without its
  query and fragment; \<open>http_get\<close> serves a file named by it in the current working
  directory (read on each request), and 404 (\<open>None\<close>) otherwise.
\<close>

definition request_path :: "string \<Rightarrow> string" where
  "request_path url = takeWhile (\<lambda>c. c \<noteq> CHR ''?'' \<and> c \<noteq> CHR ''#'') url"

definition http_get :: "fs \<Rightarrow> string \<Rightarrow> file_content option" where
  "http_get f url =
     (case request_path url of
        c # name \<Rightarrow>
          if c = CHR ''/'' \<and> name \<noteq> [] \<and> CHR ''/'' \<notin> set name
          then fs_files f (fs_cwd f, name) else None
      | [] \<Rightarrow> None)"

text \<open>
  The address \<^verbatim>\<open>webbrowser.open\<close> gives (line 849), and the page's
  \<^verbatim>\<open>fetch('traffic_data.json?t=' + new Date().getTime())\<close> (line 807) resolved
  against it.
\<close>

definition page_url :: string where
  "page_url = ''/'' @ HTML_FILE"

definition fetch_url :: "nat \<Rightarrow> string" where
  "fetch_url ms = ''/traffic_data.json?t='' @ decimal ms"

text \<open>\<^verbatim>\<open>response.json()\<close>: only a snapshot file parses.\<close>

fun read_json :: "file_content option \<Rightarrow> snapshot option" where
  "read_json (Some (File_json d)) = Some d"
| "read_json _ = None"

section \<open>Interleavings\<close>

text \<open>The interleavings of two threads' event lists, each kept in its order.\<close>

inductive interleave :: "'a list \<Rightarrow> 'a list \<Rightarrow> 'a list \<Rightarrow> bool" where
  il_Nil: "interleave [] [] []"
| il_left: "interleave xs ys zs \<Longrightarrow> interleave (x # xs) ys (x # zs)"
| il_right: "interleave xs ys zs \<Longrightarrow> interleave xs (y # ys) (y # zs)"

code_pred interleave .

inductive_cases interleave_ConsE: "interleave xs ys (z # zs)"
inductive_cases interleave_NilE: "interleave xs ys []"

lemma interleave_set: "interleave xs ys zs \<Longrightarrow> set zs = set xs \<union> set ys"
  by (induction rule: interleave.induct) auto

lemma interleave_Nil_right: "interleave xs [] zs \<Longrightarrow> zs = xs"
  by (induction xs "[] :: 'a list" zs rule: interleave.induct) auto

lemma interleave_append: "interleave xs ys (xs @ ys)"
proof (induction xs)
  case Nil
  show ?case by (induction ys) (auto intro: interleave.intros)
next
  case (Cons x xs)
  then show ?case by (auto intro: il_left)
qed

lemma interleave_split:
  "interleave xs (y # ys) zs \<Longrightarrow>
   \<exists>p r xs'. zs = p @ y # r \<and> set p \<subseteq> set xs \<and> set xs' \<subseteq> set xs \<and> interleave xs' ys r"
proof (induction zs arbitrary: xs)
  case Nil
  then show ?case by (auto elim: interleave_NilE)
next
  case (Cons z zs)
  from Cons.prems show ?case
  proof (rule interleave_ConsE)
    fix xs1
    assume x: "xs = z # xs1" and i: "interleave xs1 (y # ys) zs"
    from Cons.IH[OF i] obtain p r xs' where
      "zs = p @ y # r" "set p \<subseteq> set xs1" "set xs' \<subseteq> set xs1" "interleave xs' ys r" by blast
    with x show ?thesis by (intro exI[of _ "z # p"] exI[of _ r] exI[of _ xs']) auto
  next
    fix ys1
    assume "y # ys = z # ys1" and "interleave xs ys1 zs"
    then show ?thesis by (intro exI[of _ "[]"] exI[of _ zs] exI[of _ xs]) auto
  qed
qed

section \<open>Runs of file events\<close>

lemma io_run_Nil [simp]: "io_run cfg f [] = f"
  by (simp add: io_run_def)

lemma io_run_Cons [simp]: "io_run cfg f (e # es) = io_run cfg (io_step cfg f e) es"
  by (simp add: io_run_def)

lemma io_run_append [simp]: "io_run cfg f (xs @ ys) = io_run cfg (io_run cfg f xs) ys"
  by (simp add: io_run_def)

lemma log_event_thread: "log_event e \<Longrightarrow> thread_event e"
  by (cases e) auto

lemma thread_event_cwd: "thread_event e \<Longrightarrow> fs_cwd (io_step cfg f e) = fs_cwd f"
  by (cases e) auto

lemma thread_events_cwd:
  "\<forall>e\<in>set es. thread_event e \<Longrightarrow> fs_cwd (io_run cfg f es) = fs_cwd f"
  by (induction es arbitrary: f) (auto simp: thread_event_cwd)

lemma thread_events_html:
  assumes "LOG_FILE cfg \<noteq> HTML_FILE"
  shows "\<forall>e\<in>set es. thread_event e \<Longrightarrow> fs_files (io_run cfg f es) (d, HTML_FILE) = fs_files f (d, HTML_FILE)"
proof (induction es arbitrary: f)
  case (Cons e es)
  have "fs_files (io_step cfg f e) (d, HTML_FILE) = fs_files f (d, HTML_FILE)"
    using Cons.prems assms by (cases e) (auto simp: HTML_FILE_def DATA_FILE_def)
  with Cons show ?case by simp
qed simp

lemma log_events_data:
  assumes "LOG_FILE cfg \<noteq> DATA_FILE"
  shows "\<forall>e\<in>set es. log_event e \<Longrightarrow> fs_files (io_run cfg f es) (d, DATA_FILE) = fs_files f (d, DATA_FILE)"
proof (induction es arbitrary: f)
  case (Cons e es)
  have "fs_files (io_step cfg f e) (d, DATA_FILE) = fs_files f (d, DATA_FILE)"
    using Cons.prems assms by (cases e) auto
  with Cons show ?case by simp
qed simp

lemma http_get_fetch_url: "http_get f (fetch_url ms) = fs_files f (fs_cwd f, DATA_FILE)"
  by (simp add: http_get_def fetch_url_def request_path_def DATA_FILE_def)

lemma http_get_page_url: "http_get f page_url = fs_files f (fs_cwd f, HTML_FILE)"
  by (simp add: http_get_def page_url_def request_path_def HTML_FILE_def)

lemma tick_data_file:
  "data_file (tick cfg g cyc now w) =
     Some (write_simulation_data cfg now cyc (manager (tick cfg g cyc now w)) (logger (tick cfg g cyc now w)))"
  by (simp add: tick_unfold Let_def)

lemma log_events_log [simp]: "\<forall>e\<in>set (log_events tz txt es). log_event e"
  by (simp add: log_events_def)

lemma start_web_server_split:
  assumes "interleave T (start_web_server S) es"
  shows "\<exists>p q r. es = p @ Write_html # q @ Chdir S # r \<and> set p \<subseteq> set T \<and> set q \<subseteq> set T \<and> set r \<subseteq> set T"
proof -
  from interleave_split[of T Write_html "[Chdir S]" es] assms
  obtain p r1 xs1 where 1: "es = p @ Write_html # r1" "set p \<subseteq> set T" "set xs1 \<subseteq> set T"
    "interleave xs1 [Chdir S] r1" by (auto simp: start_web_server_def)
  from interleave_split[OF 1(4)] obtain q r xs2 where
    2: "r1 = q @ Chdir S # r" "set q \<subseteq> set xs1" "set xs2 \<subseteq> set xs1" "interleave xs2 [] r" by blast
  from 2(4) have "r = xs2" by (rule interleave_Nil_right)
  with 1 2 show ?thesis by blast
qed

lemma io_step_keeps_log:
  assumes "fs_cwd f = c" and "e \<noteq> Remove_log" and "\<forall>d. e = Chdir d \<longrightarrow> d = c"
  shows "fs_cwd (io_step cfg f e) = c \<and>
         (fs_files f (c, LOG_FILE cfg) \<noteq> None \<or> log_event e \<longrightarrow>
          fs_files (io_step cfg f e) (c, LOG_FILE cfg) \<noteq> None)"
  using assms by (cases e) simp_all

lemma io_run_keeps_log:
  assumes "fs_cwd f = c" and "\<forall>e\<in>set es. e \<noteq> Remove_log \<and> (\<forall>d. e = Chdir d \<longrightarrow> d = c)"
      and "fs_files f (c, LOG_FILE cfg) \<noteq> None \<or> (\<exists>e\<in>set es. log_event e)"
  shows "fs_cwd (io_run cfg f es) = c \<and> fs_files (io_run cfg f es) (c, LOG_FILE cfg) \<noteq> None"
  using assms
proof (induction es arbitrary: f)
  case (Cons e es)
  let ?f = "io_step cfg f e"
  from Cons.prems(2) have e: "e \<noteq> Remove_log" "\<forall>d. e = Chdir d \<longrightarrow> d = c" by simp_all
  note step = io_step_keeps_log[OF Cons.prems(1) e, of cfg]
  have "fs_files ?f (c, LOG_FILE cfg) \<noteq> None \<or> (\<exists>e\<in>set es. log_event e)"
  proof (cases "fs_files f (c, LOG_FILE cfg) \<noteq> None \<or> log_event e")
    case True
    with step show ?thesis by blast
  next
    case False
    with Cons.prems(3) show ?thesis by auto
  qed
  with step Cons.prems(2) have "fs_cwd (io_run cfg ?f es) = c \<and> fs_files (io_run cfg ?f es) (c, LOG_FILE cfg) \<noteq> None"
    by (intro Cons.IH) auto
  then show ?case by simp
qed simp

lemma main_v1_unbound_world:
  "main_v1 cfg g False t ts s = Some w \<Longrightarrow>
   data_file w = None \<and> entries (logger w) \<noteq> []"
  by (auto simp: main_v1_def run_simulation_def initial_world_def logger_log_def)

lemma tick_events_served:
  assumes "LOG_FILE cfg \<noteq> DATA_FILE" and "\<forall>e\<in>set es. log_event e"
  shows "read_json (http_get (io_run cfg f (tick_events cfg g cyc now tz txt w @ es)) (fetch_url ms)) =
         data_file (tick cfg g cyc now w)"
proof -
  let ?w' = "tick cfg g cyc now w"
  let ?d = "write_simulation_data cfg now cyc (manager ?w') (logger ?w')"
  let ?f1 = "io_step cfg (io_run cfg f (log_events tz txt (drop (length (entries (logger w))) (entries (logger ?w'))))) (Write_data ?d)"
  have "fs_files ?f1 (fs_cwd ?f1, DATA_FILE) = Some (File_json ?d)" by simp
  moreover have "fs_cwd (io_run cfg ?f1 es) = fs_cwd ?f1"
    using assms(2) by (intro thread_events_cwd) (auto intro: log_event_thread)
  moreover have "fs_files (io_run cfg ?f1 es) (fs_cwd ?f1, DATA_FILE) = fs_files ?f1 (fs_cwd ?f1, DATA_FILE)"
    using assms by (rule log_events_data)
  ultimately show ?thesis
    by (simp add: tick_events_def Let_def http_get_fetch_url tick_data_file)
qed


lemma tick_events_served_now:
  "read_json (http_get (io_run cfg f (tick_events cfg g cyc now tz txt w)) (fetch_url ms)) =
   data_file (tick cfg g cyc now w)"
  by (simp add: tick_events_def Let_def http_get_fetch_url tick_data_file)

lemma thread_events_other_dir:
  "\<forall>e\<in>set es. thread_event e \<Longrightarrow> d \<noteq> fs_cwd f \<Longrightarrow>
   fs_files (io_run cfg f es) (d, x) = fs_files f (d, x)"
proof (induction es arbitrary: f)
  case (Cons e es)
  from Cons.prems have "fs_files (io_step cfg f e) (d, x) = fs_files f (d, x)"
    by (cases e) auto
  with Cons show ?case by (simp add: thread_event_cwd)
qed simp

lemma io_run_log_iff:
  assumes "LOG_FILE cfg \<noteq> HTML_FILE"
  shows "\<forall>e\<in>set es. log_event e \<or> e = Write_html \<Longrightarrow>
    fs_cwd (io_run cfg f es) = fs_cwd f \<and>
    (fs_files (io_run cfg f es) (fs_cwd f, LOG_FILE cfg) \<noteq> None \<longleftrightarrow>
     fs_files f (fs_cwd f, LOG_FILE cfg) \<noteq> None \<or> list_ex log_event es)"
proof (induction es arbitrary: f)
  case (Cons e es)
  from Cons.prems have e: "log_event e \<or> e = Write_html" by simp
  have "fs_cwd (io_step cfg f e) = fs_cwd f \<and>
        (fs_files (io_step cfg f e) (fs_cwd f, LOG_FILE cfg) \<noteq> None \<longleftrightarrow>
         fs_files f (fs_cwd f, LOG_FILE cfg) \<noteq> None \<or> log_event e)"
    using e assms by (cases e) auto
  with Cons.IH[of "io_step cfg f e"] Cons.prems show ?case by auto
qed simp

text \<open>
  C33: The page's request for the snapshot, with its cache-busting query, is served the
  file the last tick wrote, also after any further log lines of the thread.
\<close>

theorem page_reads_last_snapshot:
  assumes "LOG_FILE cfg \<noteq> DATA_FILE" and "\<forall>e\<in>set es. log_event e"
  shows "read_json (http_get (io_run cfg f (tick_events cfg g cyc now tz txt w @ es)) (fetch_url ms)) =
         data_file (tick cfg g cyc now w)"
  using assms by (rule tick_events_served)

theorem page_reads_last_snapshot_witness:
  "LOG_FILE CONFIG \<noteq> DATA_FILE \<and> list_all log_event [Append_log ''x''] \<and>
   read_json (http_get (io_run CONFIG \<lparr>fs_cwd = ''/app'', fs_files = Map.empty\<rparr>
       (tick_events CONFIG demo_rng 1 0 0 (\<lambda>_. ''m'') demo_world @ [Append_log ''x''])) (fetch_url 5)) =
   data_file (tick CONFIG demo_rng 1 0 demo_world)"
  using page_reads_last_snapshot[of CONFIG "[Append_log ''x'']" "\<lparr>fs_cwd = ''/app'', fs_files = Map.empty\<rparr>"
      demo_rng 1 0 0 "\<lambda>_. ''m''" demo_world 5]
  by (simp add: CONFIG_def DATA_FILE_def)

text \<open>
  C34: Started from a directory other than the script's, the program writes the page into
  the directory it was started from, then changes to the script's directory and serves
  that: the address it opens in the browser is not found there, whatever the simulation
  thread writes meanwhile.
\<close>

theorem launch_elsewhere_page_missing:
  assumes "fs_cwd f \<noteq> S" and "fs_files f (S, HTML_FILE) = None" and "LOG_FILE cfg \<noteq> HTML_FILE"
      and "\<forall>e\<in>set T. thread_event e" and "interleave T (start_web_server S) es"
  shows "fs_cwd (io_run cfg f es) = S \<and> http_get (io_run cfg f es) page_url = None \<and>
         fs_files (io_run cfg f es) (fs_cwd f, HTML_FILE) = Some File_html"
proof -
  from start_web_server_split[OF assms(5)] obtain p q r where
    es: "es = p @ Write_html # q @ Chdir S # r" and
    th: "\<forall>e\<in>set p. thread_event e" "\<forall>e\<in>set q. thread_event e" "\<forall>e\<in>set r. thread_event e"
    using assms(4) by blast
  let ?f1 = "io_step cfg (io_run cfg f p) Write_html"
  let ?f2 = "io_step cfg (io_run cfg ?f1 q) (Chdir S)"
  note html = thread_events_html[OF assms(3)]
  have c1: "fs_cwd ?f1 = fs_cwd f" using th(1) by (simp add: thread_events_cwd)
  have "fs_files ?f1 (S, HTML_FILE) = None" using assms(1,2) html[OF th(1)] thread_events_cwd[OF th(1)] by simp
  then have "fs_files (io_run cfg ?f2 r) (S, HTML_FILE) = None" using html[OF th(3)] html[OF th(2)] by simp
  moreover have "fs_cwd (io_run cfg ?f2 r) = S" using th(3) by (simp add: thread_events_cwd)
  moreover have "fs_files ?f1 (fs_cwd f, HTML_FILE) = Some File_html" using th(1) by (simp add: thread_events_cwd)
  then have "fs_files (io_run cfg ?f2 r) (fs_cwd f, HTML_FILE) = Some File_html"
    using html[OF th(3)] html[OF th(2)] by simp
  ultimately show ?thesis using es by (simp add: http_get_page_url)
qed


theorem launch_elsewhere_page_missing_witness:
  "fs_cwd \<lparr>fs_cwd = ''/home'', fs_files = Map.empty\<rparr> \<noteq> ''/app'' \<and>
   fs_files \<lparr>fs_cwd = ''/home'', fs_files = Map.empty\<rparr> (''/app'', HTML_FILE) = None \<and>
   LOG_FILE CONFIG \<noteq> HTML_FILE \<and>
   list_all thread_event
     [Append_log ''x'', Write_data (write_simulation_data CONFIG 0 1 (manager demo_world) (logger demo_world))] \<and>
   http_get (io_run CONFIG \<lparr>fs_cwd = ''/home'', fs_files = Map.empty\<rparr>
     ([Append_log ''x'', Write_data (write_simulation_data CONFIG 0 1 (manager demo_world) (logger demo_world))] @
      start_web_server ''/app'')) page_url = None"
proof -
  let ?f = "\<lparr>fs_cwd = ''/home'', fs_files = Map.empty\<rparr> :: fs"
  let ?T = "[Append_log ''x'', Write_data (write_simulation_data CONFIG 0 1 (manager demo_world) (logger demo_world))]"
  have h1: "fs_cwd ?f \<noteq> ''/app''" by simp
  have h2: "fs_files ?f (''/app'', HTML_FILE) = None" by simp
  have h3: "LOG_FILE CONFIG \<noteq> HTML_FILE" by (simp add: CONFIG_def HTML_FILE_def)
  have h4: "\<forall>e\<in>set ?T. thread_event e" by simp
  have "http_get (io_run CONFIG ?f (?T @ start_web_server ''/app'')) page_url = None"
    using launch_elsewhere_page_missing[OF h1 h2 h3 h4 interleave_append] by blast
  moreover have "list_all thread_event ?T" by simp
  ultimately show ?thesis using h1 h2 h3 by blast
qed

text \<open>
  C36: Started in a directory with no log file, the first copy does not bind the manager
  and its thread writes no snapshot, only its log lines. Whether the next start in that
  same directory binds the manager depends on the start directory and on the race between
  the two threads: it does exactly when the directory is the script's own, or when the
  thread wrote a log line before the web server changed to the script's directory.
\<close>

theorem fresh_launch_then_bound:
  assumes "fs_files f (fs_cwd f, LOG_FILE cfg) = None" and "LOG_FILE cfg \<noteq> HTML_FILE"
      and "main_v1 cfg g (fst (startup_v1 cfg f)) t ts s = Some w"
      and "interleave (log_events tz txt (entries (logger w))) (start_web_server S) es"
  shows "startup_v1 cfg f = (False, f) \<and> data_file w = None \<and>
         (fst (startup_v1 cfg ((io_run cfg f es)\<lparr>fs_cwd := fs_cwd f\<rparr>)) \<longleftrightarrow>
          S = fs_cwd f \<or> list_ex log_event (takeWhile (\<lambda>e. e \<noteq> Chdir S) es))"
proof -
  let ?T = "log_events tz txt (entries (logger w))"
  have st: "startup_v1 cfg f = (False, f)" using assms(1) by (simp add: startup_v1_def)
  with assms(3) have w: "data_file w = None \<and> entries (logger w) \<noteq> []"
    by (simp add: main_v1_unbound_world)
  have lg: "\<forall>e\<in>set ?T. log_event e" by simp
  from start_web_server_split[OF assms(4)] obtain p q r where
    es: "es = p @ Write_html # q @ Chdir S # r" and
    sub: "set p \<subseteq> set ?T" "set q \<subseteq> set ?T" "set r \<subseteq> set ?T" by blast
  let ?P = "p @ Write_html # q"
  have P: "\<forall>e\<in>set ?P. log_event e \<or> e = Write_html" using sub lg by auto
  have es': "es = ?P @ Chdir S # r" by (simp add: es)
  have "\<And>x. x \<in> set ?P \<Longrightarrow> x \<noteq> Chdir S"
  proof -
    fix x assume "x \<in> set ?P"
    with P have "log_event x \<or> x = Write_html" by blast
    then show "x \<noteq> Chdir S" by auto
  qed
  then have "takeWhile (\<lambda>e. e \<noteq> Chdir S) (?P @ Chdir S # r) = ?P @ takeWhile (\<lambda>e. e \<noteq> Chdir S) (Chdir S # r)"
    by (rule takeWhile_append2)
  then have tw: "takeWhile (\<lambda>e. e \<noteq> Chdir S) es = ?P"
    using es' by simp
  note iff = io_run_log_iff[OF assms(2) P, of f]
  show ?thesis
  proof (cases "S = fs_cwd f")
    case True
    have set_es: "set es = set ?T \<union> {Write_html, Chdir (fs_cwd f)}"
      using interleave_set[OF assms(4)] True by (simp add: start_web_server_def)
    then have "\<forall>e\<in>set es. e \<noteq> Remove_log \<and> (\<forall>d. e = Chdir d \<longrightarrow> d = fs_cwd f)"
      by (auto simp: log_events_def)
    moreover from w set_es have "\<exists>e\<in>set es. log_event e"
      by (cases "entries (logger w)") (auto simp: log_events_def)
    ultimately have "fs_cwd (io_run cfg f es) = fs_cwd f \<and>
                      fs_files (io_run cfg f es) (fs_cwd f, LOG_FILE cfg) \<noteq> None"
      by (intro io_run_keeps_log) simp_all
    with st w True show ?thesis by (simp add: startup_v1_def)
  next
    case False
    have "\<forall>e\<in>set r. thread_event e" using sub(3) by (fastforce simp: log_events_def)
    from thread_events_other_dir[OF this, of "fs_cwd f" "io_step cfg (io_run cfg f ?P) (Chdir S)"] False
    have "fs_files (io_run cfg f es) (fs_cwd f, LOG_FILE cfg) = fs_files (io_run cfg f ?P) (fs_cwd f, LOG_FILE cfg)"
      by (simp add: es del: append_Cons)
    with iff assms(1) st w tw False show ?thesis
      by (simp add: startup_v1_def)
  qed
qed

theorem fresh_launch_then_bound_witness:
  "fs_files \<lparr>fs_cwd = ''/home'', fs_files = Map.empty\<rparr> (''/home'', LOG_FILE CONFIG) = None \<and>
   LOG_FILE CONFIG \<noteq> HTML_FILE \<and>
   main_v1 CONFIG demo_rng (fst (startup_v1 CONFIG \<lparr>fs_cwd = ''/home'', fs_files = Map.empty\<rparr>)) 0 [] 0 =
     Some (the (main_v1 CONFIG demo_rng False 0 [] 0)) \<and>
   fst (startup_v1 CONFIG ((io_run CONFIG \<lparr>fs_cwd = ''/home'', fs_files = Map.empty\<rparr>
      (log_events 0 (\<lambda>_. ''m'') (entries (logger (the (main_v1 CONFIG demo_rng False 0 [] 0)))) @
       start_web_server ''/app''))\<lparr>fs_cwd := ''/home''\<rparr>))"
proof -
  let ?f = "\<lparr>fs_cwd = ''/home'', fs_files = Map.empty\<rparr> :: fs"
  let ?w = "the (main_v1 CONFIG demo_rng False 0 [] (0::nat))"
  let ?T = "log_events 0 (\<lambda>_. ''m'') (entries (logger ?w))"
  have h1: "fs_files ?f (fs_cwd ?f, LOG_FILE CONFIG) = None" by simp
  have h2: "LOG_FILE CONFIG \<noteq> HTML_FILE" by (simp add: CONFIG_def HTML_FILE_def)
  have h3: "main_v1 CONFIG demo_rng (fst (startup_v1 CONFIG ?f)) 0 [] 0 = Some ?w"
    by (simp add: startup_v1_def main_v1_def run_simulation_def)
  have h4: "interleave ?T (start_web_server ''/app'') (?T @ start_web_server ''/app'')"
    by (rule interleave_append)
  have T: "?T \<noteq> [] \<and> (\<forall>e\<in>set ?T. log_event e)"
    by (simp add: main_v1_def run_simulation_def initial_world_def new_logger_def logger_log_def
                  log_events_def)
  then have "list_ex log_event (takeWhile (\<lambda>e. e \<noteq> Chdir ''/app'') (?T @ start_web_server ''/app''))"
    by (cases ?T) (auto simp: start_web_server_def takeWhile_append2)
  with fresh_launch_then_bound[OF h1 h2 h3 h4]
  have "fst (startup_v1 CONFIG ((io_run CONFIG ?f (?T @ start_web_server ''/app''))\<lparr>fs_cwd := ''/home''\<rparr>))"
    by simp
  with h1 h2 h3 show ?thesis by simp
qed

end
