(* ===== verification/Spec2Isabelle.thy ===== *)
theory Spec2Isabelle
  imports Server
begin

text \<open>
  A verification model of the adaptive traffic-light simulator of the repository, the
  single Python file \<^verbatim>\<open>src/New folder/dengiaothong.py\<close>.

  \<^bold>\<open>The program.\<close> The file holds the simulation engine twice. The first copy
  (lines 1--898) is what runs: its module-level code (lines 866--894) builds a
  \<^verbatim>\<open>TrafficManager\<close> (only if a log file exists, see below), starts the simulation
  thread and serves the page. The second copy (lines 899--1792) runs only after the first
  web server stops; it differs in the emoji of normal cars, in the priority branch of
  the timing rule, and in a \<^verbatim>\<open>write_simulation_data\<close> nested inside
  \<^verbatim>\<open>run_cycle\<close>. The engine's parts, leaf to root: the logger \<^verbatim>\<open>TrafficLogger\<close>;
  the vehicle \<^verbatim>\<open>Car\<close>; the signal \<^verbatim>\<open>SmartTrafficLight\<close>; the sensor
  \<^verbatim>\<open>TrafficAISensor\<close>; the timing rule \<^verbatim>\<open>LightDecisionAlgorithm\<close>; and the
  orchestrator \<^verbatim>\<open>TrafficManager\<close>. Each cycle it scans, decides, may open a
  priority window, and runs the phases red, green, yellow; every tick of a phase expires
  priority, spawns, moves and writes the snapshot \<^verbatim>\<open>traffic_data.json\<close>, which the
  page script (lines 660--825) reads every 500 ms to fill its panel and paint its canvas.

  \<^bold>\<open>The library.\<close>
  \<^item> \<open>Py_Base\<close>: Python exceptions (\<open>py_error\<close>), the \<^verbatim>\<open>random\<close> module as an
    interface \<open>'r rng\<close> with CPython's \<^verbatim>\<open>randint\<close> and \<^verbatim>\<open>choice\<close> on top, slices,
    and the configuration record \<open>config\<close> with its value \<open>CONFIG\<close>.
  \<^item> \<open>Traffic_Types\<close>: the string enumerations of the code as datatypes.
  \<^item> \<open>Logger\<close>: \<^verbatim>\<open>TrafficLogger\<close>, entries kept structured, and the text of a line.
  \<^item> \<open>Car\<close>: \<^verbatim>\<open>Car\<close>: both copies' \<open>CAR_TYPES\<close>, \<open>Car_init\<close>, \<open>drive\<close>, \<open>move\<close>.
  \<^item> \<open>Light\<close>: \<^verbatim>\<open>SmartTrafficLight\<close> with its methods, and the reachable lights
    (\<open>light_reach\<close>) with the class invariant by rule induction.
  \<^item> \<open>Sensor\<close>: \<^verbatim>\<open>scan_traffic\<close>, its loop in closed form, its \<^verbatim>\<open>KeyError\<close> path,
    and CPython's \<^verbatim>\<open>max\<close> with a key proved equal to "the first car of greatest
    priority".
  \<^item> \<open>Decision\<close>: \<^verbatim>\<open>calculate_light_times\<close> of both copies, its bounds under the
    shipped configuration, its priority branch and its error on an empty yellow range.
  \<^item> \<open>Manager\<close>: \<^verbatim>\<open>TrafficManager\<close>'s state, \<^verbatim>\<open>spawn_cars\<close>,
    \<^verbatim>\<open>update_cars\<close>, the snapshot, and one iteration of the phase loop (\<open>tick\<close>) on
    the \<open>world\<close> (manager, global logger, generator state, snapshot file); the
    manager invariant \<open>mgr_inv\<close> and the pass count.
  \<^item> \<open>Cycle\<close>: \<^verbatim>\<open>run_cycle\<close> of both copies, \<^verbatim>\<open>run_simulation\<close> and both
    start-ups: phase order, cycle count, invariants over whole runs, the second copy's
    failure in its first cycle (\<^verbatim>\<open>AttributeError\<close> when a loop body runs,
    \<^verbatim>\<open>NameError\<close> exactly when none does), termination of a cycle under the
    pacing clock, and that every priority window a cycle opens closes within it.
  \<^item> \<open>Page\<close>: the page script: \<^verbatim>\<open>updateDisplay\<close> on a panel record (it always
    completes: every field it reads, \<^verbatim>\<open>priority_type\<close> included, is a string or a
    number in the snapshot), the drawing
    functions as lists of 2D-context calls with the context semantics, the lamp lit,
    the car rows, the log-panel line, the JavaScript functions it calls, the shape of
    the snapshot the page relies on, and the panel as a refinement of the snapshot.
  \<^item> \<open>Server\<close>: the files and the web server: the program's file operations as
    events on a file system with a working directory, \<^verbatim>\<open>start_web_server\<close>, the
    request handler, and the simulation thread beside the main thread as interleavings
    of their events: the page's fetch reads the last snapshot written, a start from
    another directory serves no page, and whether the start after a failed first start
    binds the manager depends on the start directory and on the race between the
    thread's first log line and the server's \<^verbatim>\<open>os.chdir\<close>.
  \<^item> This theory: one frame of the whole system, a tick, its file writes, and the
    page's next poll through the server, shown as the panel and the lamp of that tick.

  \<^bold>\<open>Effects.\<close> Every read of \<^verbatim>\<open>time.time()\<close> is an argument \<open>now\<close> of the
  operation that reads it; the control loops take the clock as a list of readings, one
  per loop iteration. The generator state of \<^verbatim>\<open>random\<close> is threaded through the
  operations that draw. The global logger is passed and returned by the operations that
  log. Exceptions are the \<open>Inl\<close> values of a sum type, with the state at the raise.
  Python floats are reals, so the model does not round where the code does.

  \<^bold>\<open>Fuel and bounds.\<close> A run that runs out of clock readings is \<open>None\<close>; the
  termination theorems say which readings suffice: with the 0.5 s pacing clock (\<open>phases_clock\<close>) a cycle
  completes after exactly the readings of its three phases. \<open>quick_config\<close> (one
  cycle of one-second phases) keeps the concrete runs of the witnesses small; the
  theorems themselves hold for every configuration they name.

  \<^bold>\<open>Not modelled.\<close> The TCP socket, the browser opening and the console output
  are I/O only: the server is modelled by what it serves, a file of the working directory.
  File contents are kept as values (a snapshot, text lines, the page), not as the bytes
  \<^verbatim>\<open>json.dump\<close> writes. The page markup and styles are static. The second page
  (lines 1556--1721) is the same script as the first, and the second copy's
  \<^verbatim>\<open>start_web_server\<close> (lines 1733--1751) the same as the first. The text of the
  Vietnamese log messages is replaced by the values they interpolate, and labels are
  written without diacritics. Within a tick the thread's effects on the world are
  sequential; only its file events are interleaved with the main thread's, and the page
  reads a snapshot file only as a whole. When the first server is interrupted, the
  second copy's module code runs while the first copy's daemon thread may still be
  running, and it rebinds the globals that thread reads (\<^verbatim>\<open>logger\<close>,
  \<^verbatim>\<open>CONFIG\<close>); the two copies are modelled as separate runs, not that overlap.
\<close>

section \<open>The engine, the server and the page\<close>

text \<open>
  One frame of the running system: a tick of the simulation thread with the file events it
  makes (lines 352--362, 55--56 and 383--384), then a poll of the page, whose
  \<^verbatim>\<open>fetchData\<close> (lines 805--811) reads the snapshot file through the web server.
\<close>

definition poll_after_tick ::
  "config \<Rightarrow> 'r rng \<Rightarrow> nat \<Rightarrow> real \<Rightarrow> int \<Rightarrow> (log_msg \<Rightarrow> string) \<Rightarrow> nat \<Rightarrow>
   (log_entry \<Rightarrow> string) \<Rightarrow> fs \<Rightarrow> 'r world \<Rightarrow> page \<Rightarrow> page" where
  "poll_after_tick cfg g c now tz txt ms render f w p =
     fetchData render (read_json (http_get (io_run cfg f (tick_events cfg g c now tz txt w)) (fetch_url ms))) p"

text \<open>
  C6: After a tick of the first copy and its file writes, the page's next poll through the
  web server shows that tick: the panel reads back the cycle number, the pass count and
  the priority flag of the light after the tick and the phase the light is in, and the
  canvas lights exactly the lamp of that phase.
\<close>

theorem tick_page_frame:
  "panel_view (pg_dom (poll_after_tick cfg g c now tz txt ms render f w p)) =
     Some (c, total_vehicles_passed (light (manager (tick cfg g c now w))),
           priority_active (light (manager (tick cfg g c now w))), light_state_name (state (light (manager w)))) \<and>
   lit_lamps (drop (length (c_painted (pg_canvas p)))
                   (c_painted (pg_canvas (poll_after_tick cfg g c now tz txt ms render f w p)))) =
     [lamp_of (state (light (manager w)))]"
proof -
  let ?w' = "tick cfg g c now w"
  let ?d = "write_simulation_data cfg now c (manager ?w') (logger ?w')"
  have rd: "read_json (http_get (io_run cfg f (tick_events cfg g c now tz txt w)) (fetch_url ms)) = Some ?d"
    using tick_events_served_now tick_snapshot_current by metis
  have st: "state (light (manager ?w')) = state (light (manager w))" using tick_frame by blast
  have "panel_view (updateDisplay render ?d (pg_dom p)) = Some (snap_view ?d)"
    by (rule panel_view_updateDisplay)
  moreover have "lit_lamps (new_paint (drawScene ?d) (pg_canvas p)) = [lamp_of (state (light (manager ?w')))]"
    by (rule scene_lamp)
  ultimately show ?thesis
    using st by (simp add: poll_after_tick_def rd fetchData_def snap_view_def write_simulation_data_def
                           new_paint_def)
qed

end
